theory Spec2Isabelle
  imports Main "HOL-Library.Word"
begin

unbundle bit_operations_syntax

section \<open>Wire codec (client\_cpp/src/protocol.hpp, protocol.cpp)\<close>

text \<open>
  A \<open>std::vector<uint8_t>\<close> is a list of bytes. A \<open>std::string\<close> is a sequence of
  \<open>char\<close>, compared and copied bytewise, so it is a list of bytes as well. \<open>size_t\<close>
  offsets and lengths are natural numbers: on the 64-bit hosts the program targets no
  sum of an offset and a 16- or 32-bit length can wrap.
\<close>

type_synonym u8 = "8 word"
type_synonym u16 = "16 word"
type_synonym u32 = "32 word"
type_synonym u64 = "64 word"
type_synonym bytes = "u8 list"

definition MAGIC :: u32 where
  "MAGIC = 0x42414E4B"

definition VERSION :: u8 where
  "VERSION = 1"

definition FLAG_AT_MOST_ONCE :: u16 where
  "FLAG_AT_MOST_ONCE = 0x0001"

definition HEADER_SIZE :: nat where
  "HEADER_SIZE = 24"

text \<open>\<open>enum class MsgType : uint8_t\<close>.\<close>

definition MsgType_Request :: u8 where "MsgType_Request = 1"
definition MsgType_Reply :: u8 where "MsgType_Reply = 2"
definition MsgType_Callback :: u8 where "MsgType_Callback = 3"

text \<open>\<open>enum class OpCode : uint16_t\<close>.\<close>

definition OpCode_OPEN :: u16 where "OpCode_OPEN = 1"
definition OpCode_CLOSE :: u16 where "OpCode_CLOSE = 2"
definition OpCode_DEPOSIT :: u16 where "OpCode_DEPOSIT = 3"
definition OpCode_WITHDRAW :: u16 where "OpCode_WITHDRAW = 4"
definition OpCode_MONITOR_REGISTER :: u16 where "OpCode_MONITOR_REGISTER = 5"
definition OpCode_QUERY_BALANCE :: u16 where "OpCode_QUERY_BALANCE = 6"
definition OpCode_TRANSFER :: u16 where "OpCode_TRANSFER = 7"
definition OpCode_CALLBACK_UPDATE :: u16 where "OpCode_CALLBACK_UPDATE = 100"

text \<open>\<open>enum class Status : uint16_t\<close>, with the cast \<open>(uint16_t)err\<close>.\<close>

datatype Status = OK | ERR_BAD_REQUEST | ERR_AUTH | ERR_NOT_FOUND | ERR_CURRENCY
  | ERR_INSUFFICIENT_FUNDS | ERR_PASSWORD_FORMAT

fun status_u16 :: "Status \<Rightarrow> u16" where
  "status_u16 OK = 0"
| "status_u16 ERR_BAD_REQUEST = 1"
| "status_u16 ERR_AUTH = 2"
| "status_u16 ERR_NOT_FOUND = 3"
| "status_u16 ERR_CURRENCY = 4"
| "status_u16 ERR_INSUFFICIENT_FUNDS = 5"
| "status_u16 ERR_PASSWORD_FORMAT = 6"

record Header =
  magic :: u32
  version :: u8
  msgType :: u8
  opCode :: u16
  flags :: u16
  status :: u16
  requestId :: u64
  bodyLen :: u32

record Message =
  h :: Header
  body :: bytes

subsection \<open>Big-endian encoding helpers\<close>

definition putBE16 :: "u16 \<Rightarrow> bytes" where
  "putBE16 v = [ucast (drop_bit 8 v AND 0xFF), ucast (v AND 0xFF)]"

definition putBE32 :: "u32 \<Rightarrow> bytes" where
  "putBE32 v = [ucast (drop_bit 24 v AND 0xFF), ucast (drop_bit 16 v AND 0xFF),
                ucast (drop_bit 8 v AND 0xFF), ucast (v AND 0xFF)]"

text \<open>The loop \<open>for (int i = 0; i < 8; i++) p[i] = uint8_t((v >> (56 - 8 * i)) & 0xFF)\<close>.\<close>

definition putBE64 :: "u64 \<Rightarrow> bytes" where
  "putBE64 v = map (\<lambda>i. ucast (drop_bit (56 - 8 * i) v AND 0xFF)) [0..<8]"

subsection \<open>Big-endian decoding helpers\<close>

text \<open>
  Each reader checks \<open>off + n > b.size()\<close> first and then reads inside the buffer; it
  returns the value and the advanced cursor, or \<open>None\<close> with the cursor untouched.
\<close>

definition be16 :: "bytes \<Rightarrow> nat \<Rightarrow> u16" where
  "be16 b off = push_bit 8 (ucast (b ! off)) OR ucast (b ! (off + 1))"

definition getBE16 :: "bytes \<Rightarrow> nat \<Rightarrow> (u16 \<times> nat) option" where
  "getBE16 b off = (if off + 2 > length b then None else Some (be16 b off, off + 2))"

definition be32 :: "bytes \<Rightarrow> nat \<Rightarrow> u32" where
  "be32 b off = push_bit 24 (ucast (b ! off)) OR push_bit 16 (ucast (b ! (off + 1)))
                OR push_bit 8 (ucast (b ! (off + 2))) OR ucast (b ! (off + 3))"

definition getBE32 :: "bytes \<Rightarrow> nat \<Rightarrow> (u32 \<times> nat) option" where
  "getBE32 b off = (if off + 4 > length b then None else Some (be32 b off, off + 4))"

text \<open>The loop \<open>out = 0; for (i < 8) out = (out << 8) | uint64_t(b[off + i])\<close>.\<close>

definition be64 :: "bytes \<Rightarrow> nat \<Rightarrow> u64" where
  "be64 b off = fold (\<lambda>i out. push_bit 8 out OR ucast (b ! (off + i))) [0..<8] 0"

definition getBE64 :: "bytes \<Rightarrow> nat \<Rightarrow> (u64 \<times> nat) option" where
  "getBE64 b off = (if off + 8 > length b then None else Some (be64 b off, off + 8))"

subsection \<open>Public encoding functions\<close>

text \<open>Each writer resizes the vector and fills the new tail: it appends.\<close>

definition putU16 :: "bytes \<Rightarrow> u16 \<Rightarrow> bytes" where
  "putU16 b v = b @ putBE16 v"

definition putU32 :: "bytes \<Rightarrow> u32 \<Rightarrow> bytes" where
  "putU32 b v = b @ putBE32 v"

definition putU64 :: "bytes \<Rightarrow> u64 \<Rightarrow> bytes" where
  "putU64 b v = b @ putBE64 v"

text \<open>\<open>int32_t\<close> values are kept as their 32-bit patterns; \<open>uint32_t(v)\<close> is the identity on them.\<close>

definition putI32 :: "bytes \<Rightarrow> u32 \<Rightarrow> bytes" where
  "putI32 b v = putU32 b v"

text \<open>
  \<open>putString\<close> returns \<open>void\<close>: the early return for a string longer than 65535 bytes
  is not reported to the caller. \<open>uint16_t(s.size())\<close> is the length modulo \<open>2 ^ 16\<close>.
\<close>

definition putString :: "bytes \<Rightarrow> bytes \<Rightarrow> bytes" where
  "putString b s = (if length s > 65535 then b else putU16 b (of_nat (length s)) @ s)"

definition putPassword16 :: "bytes \<Rightarrow> bytes \<Rightarrow> bytes" where
  "putPassword16 b s = (let t = (if length s > 16 then take 16 s else s)
                        in b @ t @ replicate (16 - length t) 0)"

subsection \<open>Public decoding functions\<close>

definition getU16 :: "bytes \<Rightarrow> nat \<Rightarrow> (u16 \<times> nat) option" where
  "getU16 b off = getBE16 b off"

definition getU32 :: "bytes \<Rightarrow> nat \<Rightarrow> (u32 \<times> nat) option" where
  "getU32 b off = getBE32 b off"

definition getU64 :: "bytes \<Rightarrow> nat \<Rightarrow> (u64 \<times> nat) option" where
  "getU64 b off = getBE64 b off"

definition getI32 :: "bytes \<Rightarrow> nat \<Rightarrow> (u32 \<times> nat) option" where
  "getI32 b off = (case getU32 b off of None \<Rightarrow> None | Some (u, off') \<Rightarrow> Some (u, off'))"

text \<open>
  \<open>getString\<close> advances the cursor past the length prefix even when the payload check
  then fails; every caller abandons the cursor on failure.
\<close>

definition getString :: "bytes \<Rightarrow> nat \<Rightarrow> (bytes \<times> nat) option" where
  "getString b off =
     (case getU16 b off of
        None \<Rightarrow> None
      | Some (len, off') \<Rightarrow>
          if off' + unat len > length b then None
          else Some (take (unat len) (drop off' b), off' + unat len))"

text \<open>The loop \<open>while (n > 0 && p[n - 1] == 0) n--\<close> over the 16-byte slot.\<close>

fun strip_zeros :: "bytes \<Rightarrow> nat \<Rightarrow> nat" where
  "strip_zeros p 0 = 0"
| "strip_zeros p (Suc n) = (if p ! n = 0 then strip_zeros p n else Suc n)"

definition getPassword16 :: "bytes \<Rightarrow> nat \<Rightarrow> (bytes \<times> nat) option" where
  "getPassword16 b off =
     (if off + 16 > length b then None
      else let p = take 16 (drop off b); n = strip_zeros p 16
           in Some (take n p, off + 16))"

subsection \<open>Message encoding and decoding\<close>

definition encode :: "Message \<Rightarrow> bytes" where
  "encode m =
     (let out = [];
          out = putU32 out (magic (h m));
          out = out @ [version (h m)];
          out = out @ [msgType (h m)];
          out = putU16 out (opCode (h m));
          out = putU16 out (flags (h m));
          out = putU16 out (status (h m));
          out = putU64 out (requestId (h m));
          out = putU32 out (bodyLen (h m))
      in out @ body m)"

text \<open>
  \<open>decode\<close> returns \<open>false\<close> at the first failed read or check and \<open>true\<close> with every
  field of \<open>out\<close> assigned; the callers read \<open>out\<close> only after \<open>true\<close>. The version
  byte is stored and not compared with anything.
\<close>

definition decode :: "bytes \<Rightarrow> Message option" where
  "decode raw =
     (case getU32 raw 0 of None \<Rightarrow> None | Some (mg, off1) \<Rightarrow>
       (if mg \<noteq> MAGIC then None
        else if off1 + 2 > length raw then None
        else (let ver = raw ! off1; mt = raw ! (off1 + 1); off2 = off1 + 2 in
          (case getU16 raw off2 of None \<Rightarrow> None | Some (op, off3) \<Rightarrow>
          (case getU16 raw off3 of None \<Rightarrow> None | Some (fl, off4) \<Rightarrow>
          (case getU16 raw off4 of None \<Rightarrow> None | Some (st, off5) \<Rightarrow>
          (case getU64 raw off5 of None \<Rightarrow> None | Some (rid, off6) \<Rightarrow>
          (case getU32 raw off6 of None \<Rightarrow> None | Some (bl, off7) \<Rightarrow>
            (if off7 + unat bl > length raw then None
             else Some \<lparr>h = \<lparr>magic = mg, version = ver, msgType = mt, opCode = op,
                               flags = fl, status = st, requestId = rid, bodyLen = bl\<rparr>,
                        body = take (unat bl) (drop off7 raw)\<rparr>)))))))))"

section \<open>The type \<open>double\<close>\<close>

text \<open>
  \<open>protocol.cpp\<close> asserts \<open>sizeof(double) == 8\<close> and moves doubles to and from
  \<open>uint64_t\<close> with \<open>memcpy\<close>. A double is modelled by that 64-bit pattern, read as IEEE-754
  binary64: bit 63 the sign, bits 62..52 the biased exponent, bits 51..0 the fraction.
  Every finite double is an integer multiple of \<open>2 ^ -1074\<close>; \<open>d_mag\<close> is the magnitude in
  that unit, and the same formula places the infinities above every finite value.
  Arithmetic is exact on these integers followed by one rounding to nearest, ties to even
  (the default rounding mode, which the program never changes).
\<close>

type_synonym double = u64

definition d_sign :: "double \<Rightarrow> bool" where
  "d_sign d = (2 ^ 63 \<le> unat d)"

definition d_exp :: "double \<Rightarrow> nat" where
  "d_exp d = (unat d div 2 ^ 52) mod 2 ^ 11"

definition d_frac :: "double \<Rightarrow> nat" where
  "d_frac d = unat d mod 2 ^ 52"

definition d_isnan :: "double \<Rightarrow> bool" where
  "d_isnan d = (d_exp d = 2047 \<and> d_frac d \<noteq> 0)"

definition d_finite :: "double \<Rightarrow> bool" where
  "d_finite d = (d_exp d \<noteq> 2047)"

definition d_mag :: "double \<Rightarrow> nat" where
  "d_mag d = (if d_exp d = 0 then d_frac d else (2 ^ 52 + d_frac d) * 2 ^ (d_exp d - 1))"

definition d_val :: "double \<Rightarrow> int" where
  "d_val d = (if d_sign d then - int (d_mag d) else int (d_mag d))"

text \<open>The comparisons \<open><\<close>, \<open>>\<close> and \<open>==\<close>: false whenever an operand is a NaN.\<close>

definition d_less :: "double \<Rightarrow> double \<Rightarrow> bool" where
  "d_less a b = (\<not> d_isnan a \<and> \<not> d_isnan b \<and> d_val a < d_val b)"

definition d_greater :: "double \<Rightarrow> double \<Rightarrow> bool" where
  "d_greater a b = d_less b a"

definition d_eq :: "double \<Rightarrow> double \<Rightarrow> bool" where
  "d_eq a b = (\<not> d_isnan a \<and> \<not> d_isnan b \<and> d_val a = d_val b)"

definition d_zero :: double where
  "d_zero = 0"

text \<open>The number of binary digits of a natural number.\<close>

function bitlen :: "nat \<Rightarrow> nat" where
  "bitlen n = (if n = 0 then 0 else Suc (bitlen (n div 2)))"
  by pat_completeness auto
termination
  by (relation "measure id") auto

declare bitlen.simps [simp del]

text \<open>
  Rounding a magnitude (in units of \<open>2 ^ -1074\<close>) to the low 63 bits of a double. Up to 53
  digits the magnitude is its own encoding (subnormal, or exponent field 1). Beyond, the 53
  leading digits \<open>q\<close> are kept and rounded on the remainder \<open>r\<close>; the exponent field is
  \<open>sh + 1\<close>, and a carry out of \<open>q\<close> moves into it. Overflow gives infinity.
\<close>

definition d_round_mag :: "nat \<Rightarrow> nat" where
  "d_round_mag m =
     (if bitlen m \<le> 53 then m
      else let sh = bitlen m - 53; q = m div 2 ^ sh; r = m mod 2 ^ sh; half = 2 ^ (sh - 1);
               q' = (if r > half \<or> (r = half \<and> odd q) then q + 1 else q);
               e = sh * 2 ^ 52 + q'
           in if e \<ge> 2047 * 2 ^ 52 then 2047 * 2 ^ 52 else e)"

text \<open>
  The double nearest to a non-zero integer (in units of \<open>2 ^ -1074\<close>), and the result of
  an exact sum: an exact zero takes the sign the operands share, and is positive otherwise.
\<close>

definition d_of_sum :: "bool \<Rightarrow> int \<Rightarrow> double" where
  "d_of_sum both_neg s =
     (if s = 0 then (if both_neg then of_nat (2 ^ 63) else 0)
      else if s < 0 then of_nat (2 ^ 63 + d_round_mag (nat (- s)))
      else of_nat (d_round_mag (nat s)))"

text \<open>
  IEEE-754 leaves the NaN that an operation produces to the implementation. The model
  follows the scalar SSE2 instructions of x86-64, the host of this Winsock program: a NaN
  operand is returned with its quiet bit (bit 51) set, the first operand taking precedence,
  and an invalid operation (the sum of infinities of opposite sign) gives the default NaN
  \<open>0xFFF8000000000000\<close>. Negation flips the sign bit; a subtraction is the addition of
  the negated second operand, except that a NaN second operand is returned as it is.
\<close>

definition d_quiet :: "double \<Rightarrow> double" where
  "d_quiet d = d OR 0x0008000000000000"

definition d_indefinite :: double where
  "d_indefinite = 0xFFF8000000000000"

definition d_add :: "double \<Rightarrow> double \<Rightarrow> double" where
  "d_add a b =
     (if d_isnan a then d_quiet a
      else if d_isnan b then d_quiet b
      else if \<not> d_finite a
        then (if \<not> d_finite b \<and> d_sign a \<noteq> d_sign b then d_indefinite else a)
      else if \<not> d_finite b then b
      else d_of_sum (d_sign a \<and> d_sign b) (d_val a + d_val b))"

definition d_neg :: "double \<Rightarrow> double" where
  "d_neg d = d XOR 0x8000000000000000"

definition d_sub :: "double \<Rightarrow> double \<Rightarrow> double" where
  "d_sub a b =
     (if d_isnan a then d_quiet a
      else if d_isnan b then d_quiet b
      else d_add a (d_neg b))"

text \<open>\<open>putDouble\<close> and \<open>getDouble\<close>: the \<open>memcpy\<close> is the identity on the pattern.\<close>

definition putDouble :: "bytes \<Rightarrow> double \<Rightarrow> bytes" where
  "putDouble b v = (let bits = v in putU64 b bits)"

definition getDouble :: "bytes \<Rightarrow> nat \<Rightarrow> (double \<times> nat) option" where
  "getDouble b off = (case getU64 b off of None \<Rightarrow> None | Some (bits, off') \<Rightarrow> Some (bits, off'))"

subsection \<open>Host memory\<close>

text \<open>
  For the byte order of \<open>putDouble\<close> the object representation matters: the 8 bytes of a
  \<open>double\<close> in memory order. \<open>memcpy(&bits, &v, 8)\<close> copies them into the storage of a
  \<open>uint64_t\<close>, whose value the host then reads in its own byte order.
\<close>

datatype endian = LittleEndian | BigEndian

definition load_u64 :: "endian \<Rightarrow> bytes \<Rightarrow> u64" where
  "load_u64 e mem = (case e of BigEndian \<Rightarrow> be64 mem 0 | LittleEndian \<Rightarrow> be64 (rev mem) 0)"

definition putDouble_host :: "endian \<Rightarrow> bytes \<Rightarrow> bytes \<Rightarrow> bytes" where
  "putDouble_host e b v_mem = (let bits = load_u64 e (take 8 v_mem) in putU64 b bits)"

section \<open>The bank (z\_server\_cpp/src/bank.hpp, bank.cpp)\<close>

text \<open>
  \<open>int32_t\<close> account numbers are kept as 32-bit patterns, \<open>proto::Currency\<close> (an enum over
  \<open>uint16_t\<close> that the dispatcher casts any wire value to) as \<open>u16\<close>. \<open>accounts_\<close> is a map.
  Each operation returns the bank after the call together with either the status of a
  \<open>return false\<close> or the output parameters of a \<open>return true\<close>.
\<close>

record Account =
  accountNo :: u32
  name :: bytes
  password :: bytes
  currency :: u16
  balance :: double
  closed :: bool

record Bank =
  nextAccNo :: u32
  accounts :: "u32 \<rightharpoonup> Account"

definition Bank_init :: Bank where
  "Bank_init = \<lparr>nextAccNo = 10001, accounts = Map.empty\<rparr>"

definition authMatch :: "Account \<Rightarrow> bytes \<Rightarrow> bytes \<Rightarrow> bool" where
  "authMatch a nm pw16 = (name a = nm \<and> password a = pw16)"

definition openAccount ::
  "Bank \<Rightarrow> bytes \<Rightarrow> bytes \<Rightarrow> u16 \<Rightarrow> double \<Rightarrow> Bank \<times> (Status + u32 \<times> double)" where
  "openAccount bk nm pw16 c initial =
     (if length pw16 = 0 \<or> length pw16 > 16 then (bk, Inl ERR_PASSWORD_FORMAT)
      else let a = \<lparr>accountNo = nextAccNo bk, name = nm, password = pw16, currency = c,
                     balance = initial, closed = False\<rparr>;
               bk1 = bk\<lparr>nextAccNo := nextAccNo bk + 1\<rparr>;
               bk2 = bk1\<lparr>accounts := (accounts bk1)(accountNo a \<mapsto> a)\<rparr>
           in (bk2, Inr (accountNo a, balance a)))"

definition closeAccount :: "Bank \<Rightarrow> bytes \<Rightarrow> u32 \<Rightarrow> bytes \<Rightarrow> Bank \<times> (Status + unit)" where
  "closeAccount bk nm accNo pw16 =
     (case accounts bk accNo of
        None \<Rightarrow> (bk, Inl ERR_NOT_FOUND)
      | Some a \<Rightarrow>
          if closed a then (bk, Inl ERR_NOT_FOUND)
          else if \<not> authMatch a nm pw16 then (bk, Inl ERR_AUTH)
          else (bk\<lparr>accounts := (accounts bk)(accNo \<mapsto> a\<lparr>closed := True\<rparr>)\<rparr>, Inr ()))"

definition deposit ::
  "Bank \<Rightarrow> bytes \<Rightarrow> u32 \<Rightarrow> bytes \<Rightarrow> u16 \<Rightarrow> double \<Rightarrow> Bank \<times> (Status + double)" where
  "deposit bk nm accNo pw16 c amount =
     (case accounts bk accNo of
        None \<Rightarrow> (bk, Inl ERR_NOT_FOUND)
      | Some a \<Rightarrow>
          if closed a then (bk, Inl ERR_NOT_FOUND)
          else if \<not> authMatch a nm pw16 then (bk, Inl ERR_AUTH)
          else if currency a \<noteq> c then (bk, Inl ERR_CURRENCY)
          else if \<not> d_greater amount d_zero then (bk, Inl ERR_BAD_REQUEST)
          else let a' = a\<lparr>balance := d_add (balance a) amount\<rparr>
               in (bk\<lparr>accounts := (accounts bk)(accNo \<mapsto> a')\<rparr>, Inr (balance a')))"

definition withdraw ::
  "Bank \<Rightarrow> bytes \<Rightarrow> u32 \<Rightarrow> bytes \<Rightarrow> u16 \<Rightarrow> double \<Rightarrow> Bank \<times> (Status + double)" where
  "withdraw bk nm accNo pw16 c amount =
     (case accounts bk accNo of
        None \<Rightarrow> (bk, Inl ERR_NOT_FOUND)
      | Some a \<Rightarrow>
          if closed a then (bk, Inl ERR_NOT_FOUND)
          else if \<not> authMatch a nm pw16 then (bk, Inl ERR_AUTH)
          else if currency a \<noteq> c then (bk, Inl ERR_CURRENCY)
          else if \<not> d_greater amount d_zero then (bk, Inl ERR_BAD_REQUEST)
          else if d_less (balance a) amount then (bk, Inl ERR_INSUFFICIENT_FUNDS)
          else let a' = a\<lparr>balance := d_sub (balance a) amount\<rparr>
               in (bk\<lparr>accounts := (accounts bk)(accNo \<mapsto> a')\<rparr>, Inr (balance a')))"

text \<open>
  \<open>transfer\<close> holds references to two distinct map entries (the account numbers differ
  once the first check has passed) and writes the debit before the credit.
\<close>

definition transfer ::
  "Bank \<Rightarrow> bytes \<Rightarrow> u32 \<Rightarrow> bytes \<Rightarrow> u32 \<Rightarrow> u16 \<Rightarrow> double
     \<Rightarrow> Bank \<times> (Status + double \<times> double)" where
  "transfer bk nm fromAccNo pw16 toAccNo c amount =
     (if fromAccNo = toAccNo then (bk, Inl ERR_BAD_REQUEST)
      else case accounts bk fromAccNo of
        None \<Rightarrow> (bk, Inl ERR_NOT_FOUND)
      | Some from \<Rightarrow>
          if closed from then (bk, Inl ERR_NOT_FOUND)
          else (case accounts bk toAccNo of
            None \<Rightarrow> (bk, Inl ERR_NOT_FOUND)
          | Some to \<Rightarrow>
              if closed to then (bk, Inl ERR_NOT_FOUND)
              else if \<not> authMatch from nm pw16 then (bk, Inl ERR_AUTH)
              else if currency from \<noteq> c \<or> currency to \<noteq> c then (bk, Inl ERR_CURRENCY)
              else if \<not> d_greater amount d_zero then (bk, Inl ERR_BAD_REQUEST)
              else if d_less (balance from) amount then (bk, Inl ERR_INSUFFICIENT_FUNDS)
              else let from' = from\<lparr>balance := d_sub (balance from) amount\<rparr>;
                       to' = to\<lparr>balance := d_add (balance to) amount\<rparr>;
                       bk1 = bk\<lparr>accounts := (accounts bk)(fromAccNo \<mapsto> from')\<rparr>;
                       bk2 = bk1\<lparr>accounts := (accounts bk1)(toAccNo \<mapsto> to')\<rparr>
                   in (bk2, Inr (balance from', balance to'))))"

definition queryBalance ::
  "Bank \<Rightarrow> bytes \<Rightarrow> u32 \<Rightarrow> bytes \<Rightarrow> Bank \<times> (Status + u16 \<times> double)" where
  "queryBalance bk nm accNo pw16 =
     (case accounts bk accNo of
        None \<Rightarrow> (bk, Inl ERR_NOT_FOUND)
      | Some a \<Rightarrow>
          if closed a then (bk, Inl ERR_NOT_FOUND)
          else if \<not> authMatch a nm pw16 then (bk, Inl ERR_AUTH)
          else (bk, Inr (currency a, balance a)))"

definition getAccount :: "Bank \<Rightarrow> u32 \<Rightarrow> Account option" where
  "getAccount bk accNo = accounts bk accNo"

section \<open>The server dispatcher (z\_server\_cpp/src/main.cpp)\<close>

subsection \<open>Strings\<close>

text \<open>A string literal as bytes, and \<open>std::to_string\<close> on unsigned and on \<open>int32_t\<close> values.\<close>

definition str :: "string \<Rightarrow> bytes" where
  "str s = map (\<lambda>c. of_nat (of_char c)) s"

function to_string_nat :: "nat \<Rightarrow> bytes" where
  "to_string_nat n =
     (if n < 10 then [of_nat (48 + n)]
      else to_string_nat (n div 10) @ [of_nat (48 + n mod 10)])"
  by pat_completeness auto
termination
  by (relation "measure id") auto

declare to_string_nat.simps [simp del]

definition to_string_i32 :: "u32 \<Rightarrow> bytes" where
  "to_string_i32 v =
     (if sint v < 0 then str ''-'' @ to_string_nat (nat (- sint v))
      else to_string_nat (nat (sint v)))"

text \<open>
  A peer address: \<open>sin_addr\<close> is the IPv4 address \<open>a.b.c.d\<close> as the number whose most
  significant byte is \<open>a\<close>, \<open>sin_port\<close> the port number \<open>ntohs(a.sin_port)\<close>.
\<close>

record sockaddr_in =
  sin_addr :: u32
  sin_port :: u16

definition inet_ntoa :: "u32 \<Rightarrow> bytes" where
  "inet_ntoa a =
     to_string_nat (unat (drop_bit 24 a AND 0xFF)) @ str ''.''
     @ to_string_nat (unat (drop_bit 16 a AND 0xFF)) @ str ''.''
     @ to_string_nat (unat (drop_bit 8 a AND 0xFF)) @ str ''.''
     @ to_string_nat (unat (a AND 0xFF))"

definition addrToKey :: "sockaddr_in \<Rightarrow> bytes" where
  "addrToKey a = (let ipStr = inet_ntoa (sin_addr a)
                  in ipStr @ str '':'' @ to_string_nat (unat (sin_port a)))"

subsection \<open>Monitors, the dedup cache and callbacks\<close>

text \<open>
  A \<open>steady_clock::time_point\<close> is a count of nanosecond ticks; \<open>chrono_seconds n\<close> is
  \<open>std::chrono::seconds(n)\<close> in ticks.
\<close>

type_synonym time_point = int

definition chrono_seconds :: "nat \<Rightarrow> int" where
  "chrono_seconds n = int n * 1000000000"

record MonitorEntry =
  addr :: sockaddr_in
  m_expireAt :: time_point

record DedupEntry =
  replyBytes :: bytes
  expireAt :: time_point

type_synonym datagram = "sockaddr_in \<times> bytes"

definition sendUpdateCallback ::
  "MonitorEntry list \<Rightarrow> u16 \<Rightarrow> u32 \<Rightarrow> u16 \<Rightarrow> double \<Rightarrow> bytes \<Rightarrow> datagram list" where
  "sendUpdateCallback mons updateTypeOp accNo curU16 bal info =
     map (\<lambda>m.
       let cb_h = \<lparr>magic = MAGIC, version = VERSION, msgType = MsgType_Callback,
                    opCode = OpCode_CALLBACK_UPDATE, flags = 0, status = 0, requestId = 0,
                    bodyLen = 0\<rparr>;
           cb_body = putU16 [] updateTypeOp;
           cb_body = putI32 cb_body accNo;
           cb_body = putU16 cb_body curU16;
           cb_body = putDouble cb_body bal;
           cb_body = putString cb_body info;
           cb = \<lparr>h = cb_h\<lparr>bodyLen := of_nat (length cb_body)\<rparr>, body = cb_body\<rparr>
       in (addr m, encode cb)) mons"

subsection \<open>Request bodies\<close>

text \<open>
  Each branch of the dispatcher reads its fields with a short-circuit chain of readers
  sharing one cursor; the first failed reader makes the whole parse fail.
\<close>

definition parse_OPEN :: "bytes \<Rightarrow> (bytes \<times> bytes \<times> u16 \<times> double) option" where
  "parse_OPEN b =
     (case getString b 0 of None \<Rightarrow> None | Some (nm, off1) \<Rightarrow>
     (case getPassword16 b off1 of None \<Rightarrow> None | Some (pw, off2) \<Rightarrow>
     (case getU16 b off2 of None \<Rightarrow> None | Some (curU16, off3) \<Rightarrow>
     (case getDouble b off3 of None \<Rightarrow> None | Some (initial, off4) \<Rightarrow>
        Some (nm, pw, curU16, initial)))))"

text \<open>CLOSE and QUERY\_BALANCE: name, account number, password.\<close>

definition parse_account :: "bytes \<Rightarrow> (bytes \<times> u32 \<times> bytes) option" where
  "parse_account b =
     (case getString b 0 of None \<Rightarrow> None | Some (nm, off1) \<Rightarrow>
     (case getI32 b off1 of None \<Rightarrow> None | Some (accNo, off2) \<Rightarrow>
     (case getPassword16 b off2 of None \<Rightarrow> None | Some (pw, off3) \<Rightarrow>
        Some (nm, accNo, pw))))"

text \<open>DEPOSIT and WITHDRAW: name, account number, password, currency, amount.\<close>

definition parse_amount :: "bytes \<Rightarrow> (bytes \<times> u32 \<times> bytes \<times> u16 \<times> double) option" where
  "parse_amount b =
     (case getString b 0 of None \<Rightarrow> None | Some (nm, off1) \<Rightarrow>
     (case getI32 b off1 of None \<Rightarrow> None | Some (accNo, off2) \<Rightarrow>
     (case getPassword16 b off2 of None \<Rightarrow> None | Some (pw, off3) \<Rightarrow>
     (case getU16 b off3 of None \<Rightarrow> None | Some (curU16, off4) \<Rightarrow>
     (case getDouble b off4 of None \<Rightarrow> None | Some (amount, off5) \<Rightarrow>
        Some (nm, accNo, pw, curU16, amount))))))"

definition parse_TRANSFER ::
  "bytes \<Rightarrow> (bytes \<times> u32 \<times> bytes \<times> u32 \<times> u16 \<times> double) option" where
  "parse_TRANSFER b =
     (case getString b 0 of None \<Rightarrow> None | Some (nm, off1) \<Rightarrow>
     (case getI32 b off1 of None \<Rightarrow> None | Some (fromAcc, off2) \<Rightarrow>
     (case getPassword16 b off2 of None \<Rightarrow> None | Some (pw, off3) \<Rightarrow>
     (case getI32 b off3 of None \<Rightarrow> None | Some (toAcc, off4) \<Rightarrow>
     (case getU16 b off4 of None \<Rightarrow> None | Some (curU16, off5) \<Rightarrow>
     (case getDouble b off5 of None \<Rightarrow> None | Some (amount, off6) \<Rightarrow>
        Some (nm, fromAcc, pw, toAcc, curU16, amount)))))))"

subsection \<open>Dispatch on the operation code\<close>

text \<open>
  The reply skeleton and the \<open>if\<close>/\<open>else if\<close> chain over \<open>req.h.opCode\<close>. The result is
  the bank and the monitor list after the request, the reply with \<open>bodyLen\<close> set, and the
  callback datagrams sent meanwhile. \<open>fmt\<close> stands for \<open>std::to_string(double)\<close>, which
  only the text of callbacks uses; \<open>now_monitor\<close> is the clock read by MONITOR\_REGISTER.
\<close>

definition reply_skeleton :: "Message \<Rightarrow> Message" where
  "reply_skeleton req =
     \<lparr>h = \<lparr>magic = MAGIC, version = VERSION, msgType = MsgType_Reply, opCode = opCode (h req),
            flags = flags (h req), status = status_u16 OK, requestId = requestId (h req),
            bodyLen = 0\<rparr>,
      body = []\<rparr>"

definition set_status :: "Message \<Rightarrow> Status \<Rightarrow> Message" where
  "set_status rep err = rep\<lparr>h := (h rep)\<lparr>status := status_u16 err\<rparr>\<rparr>"

type_synonym dispatched = "Bank \<times> MonitorEntry list \<times> Message \<times> datagram list"

definition handle_OPEN :: "Bank \<Rightarrow> MonitorEntry list \<Rightarrow> Message \<Rightarrow> Message \<Rightarrow> dispatched" where
  "handle_OPEN bk mons req rep =
     (case parse_OPEN (body req) of
        None \<Rightarrow> (bk, mons, set_status rep ERR_BAD_REQUEST, [])
      | Some (nm, pw, curU16, initial) \<Rightarrow>
          (case openAccount bk nm pw curU16 initial of
             (bk', Inl err) \<Rightarrow> (bk', mons, set_status rep err, [])
           | (bk', Inr (accNo, bal)) \<Rightarrow>
               (bk', mons, rep\<lparr>body := putDouble (putI32 (body rep) accNo) bal\<rparr>,
                sendUpdateCallback mons OpCode_OPEN accNo curU16 bal (str ''OPEN by '' @ nm))))"

definition handle_CLOSE :: "Bank \<Rightarrow> MonitorEntry list \<Rightarrow> Message \<Rightarrow> Message \<Rightarrow> dispatched" where
  "handle_CLOSE bk mons req rep =
     (case parse_account (body req) of
        None \<Rightarrow> (bk, mons, set_status rep ERR_BAD_REQUEST, [])
      | Some (nm, accNo, pw) \<Rightarrow>
          (case closeAccount bk nm accNo pw of
             (bk', Inl err) \<Rightarrow> (bk', mons, set_status rep err, [])
           | (bk', Inr _) \<Rightarrow>
               (let curU16 = (case getAccount bk' accNo of Some a \<Rightarrow> currency a | None \<Rightarrow> 0);
                    bal = (case getAccount bk' accNo of Some a \<Rightarrow> balance a | None \<Rightarrow> d_zero)
                in (bk', mons, rep\<lparr>body := putString (body rep) (str ''account closed'')\<rparr>,
                    sendUpdateCallback mons OpCode_CLOSE accNo curU16 bal
                      (str ''CLOSE by '' @ nm)))))"

definition handle_DEPOSIT ::
  "(double \<Rightarrow> bytes) \<Rightarrow> Bank \<Rightarrow> MonitorEntry list \<Rightarrow> Message \<Rightarrow> Message \<Rightarrow> dispatched" where
  "handle_DEPOSIT fmt bk mons req rep =
     (case parse_amount (body req) of
        None \<Rightarrow> (bk, mons, set_status rep ERR_BAD_REQUEST, [])
      | Some (nm, accNo, pw, curU16, amount) \<Rightarrow>
          (case deposit bk nm accNo pw curU16 amount of
             (bk', Inl err) \<Rightarrow> (bk', mons, set_status rep err, [])
           | (bk', Inr newBal) \<Rightarrow>
               (bk', mons, rep\<lparr>body := putDouble (body rep) newBal\<rparr>,
                sendUpdateCallback mons OpCode_DEPOSIT accNo curU16 newBal
                  (str ''DEPOSIT '' @ fmt amount @ str '' by '' @ nm))))"

definition handle_WITHDRAW ::
  "(double \<Rightarrow> bytes) \<Rightarrow> Bank \<Rightarrow> MonitorEntry list \<Rightarrow> Message \<Rightarrow> Message \<Rightarrow> dispatched" where
  "handle_WITHDRAW fmt bk mons req rep =
     (case parse_amount (body req) of
        None \<Rightarrow> (bk, mons, set_status rep ERR_BAD_REQUEST, [])
      | Some (nm, accNo, pw, curU16, amount) \<Rightarrow>
          (case withdraw bk nm accNo pw curU16 amount of
             (bk', Inl err) \<Rightarrow> (bk', mons, set_status rep err, [])
           | (bk', Inr newBal) \<Rightarrow>
               (bk', mons, rep\<lparr>body := putDouble (body rep) newBal\<rparr>,
                sendUpdateCallback mons OpCode_WITHDRAW accNo curU16 newBal
                  (str ''WITHDRAW '' @ fmt amount @ str '' by '' @ nm))))"

definition handle_TRANSFER ::
  "(double \<Rightarrow> bytes) \<Rightarrow> Bank \<Rightarrow> MonitorEntry list \<Rightarrow> Message \<Rightarrow> Message \<Rightarrow> dispatched" where
  "handle_TRANSFER fmt bk mons req rep =
     (case parse_TRANSFER (body req) of
        None \<Rightarrow> (bk, mons, set_status rep ERR_BAD_REQUEST, [])
      | Some (nm, fromAcc, pw, toAcc, curU16, amount) \<Rightarrow>
          (case transfer bk nm fromAcc pw toAcc curU16 amount of
             (bk', Inl err) \<Rightarrow> (bk', mons, set_status rep err, [])
           | (bk', Inr (fromBal, toBal)) \<Rightarrow>
               (bk', mons, rep\<lparr>body := putDouble (putDouble (body rep) fromBal) toBal\<rparr>,
                sendUpdateCallback mons OpCode_TRANSFER fromAcc curU16 fromBal
                  (str ''TRANSFER out '' @ fmt amount @ str '' to '' @ to_string_i32 toAcc
                   @ str '' by '' @ nm)
                @ sendUpdateCallback mons OpCode_TRANSFER toAcc curU16 toBal
                  (str ''TRANSFER in '' @ fmt amount @ str '' from '' @ to_string_i32 fromAcc))))"

definition handle_QUERY_BALANCE ::
  "Bank \<Rightarrow> MonitorEntry list \<Rightarrow> Message \<Rightarrow> Message \<Rightarrow> dispatched" where
  "handle_QUERY_BALANCE bk mons req rep =
     (case parse_account (body req) of
        None \<Rightarrow> (bk, mons, set_status rep ERR_BAD_REQUEST, [])
      | Some (nm, accNo, pw) \<Rightarrow>
          (case queryBalance bk nm accNo pw of
             (bk', Inl err) \<Rightarrow> (bk', mons, set_status rep err, [])
           | (bk', Inr (cur, bal)) \<Rightarrow>
               (bk', mons, rep\<lparr>body := putDouble (putU16 (body rep) cur) bal\<rparr>, [])))"

definition handle_MONITOR_REGISTER ::
  "Bank \<Rightarrow> MonitorEntry list \<Rightarrow> sockaddr_in \<Rightarrow> time_point \<Rightarrow> Message \<Rightarrow> Message \<Rightarrow> dispatched" where
  "handle_MONITOR_REGISTER bk mons clientAddr now_monitor req rep =
     (case getU16 (body req) 0 of
        None \<Rightarrow> (bk, mons, set_status rep ERR_BAD_REQUEST, [])
      | Some (seconds, off1) \<Rightarrow>
          (let e = \<lparr>addr = clientAddr, m_expireAt = now_monitor + chrono_seconds (unat seconds)\<rparr>
           in (bk, mons @ [e],
               rep\<lparr>body := putString (body rep)
                  (str ''monitor registered for '' @ to_string_nat (unat seconds) @ str ''s'')\<rparr>,
               [])))"

definition dispatch ::
  "(double \<Rightarrow> bytes) \<Rightarrow> Bank \<Rightarrow> MonitorEntry list \<Rightarrow> sockaddr_in \<Rightarrow> time_point \<Rightarrow> Message
     \<Rightarrow> dispatched" where
  "dispatch fmt bk mons clientAddr now_monitor req =
     (let rep = reply_skeleton req;
          (bk', mons', rep', cbs) =
            (if opCode (h req) = OpCode_OPEN then handle_OPEN bk mons req rep
             else if opCode (h req) = OpCode_CLOSE then handle_CLOSE bk mons req rep
             else if opCode (h req) = OpCode_DEPOSIT then handle_DEPOSIT fmt bk mons req rep
             else if opCode (h req) = OpCode_WITHDRAW then handle_WITHDRAW fmt bk mons req rep
             else if opCode (h req) = OpCode_TRANSFER then handle_TRANSFER fmt bk mons req rep
             else if opCode (h req) = OpCode_QUERY_BALANCE
               then handle_QUERY_BALANCE bk mons req rep
             else if opCode (h req) = OpCode_MONITOR_REGISTER
               then handle_MONITOR_REGISTER bk mons clientAddr now_monitor req rep
             else (bk, mons, set_status rep ERR_BAD_REQUEST, []))
      in (bk', mons', rep'\<lparr>h := (h rep')\<lparr>bodyLen := of_nat (length (body rep'))\<rparr>\<rparr>, cbs))"

subsection \<open>One iteration of the receive loop\<close>

text \<open>
  What one iteration takes from outside: the clock at the top of the loop, what
  \<open>recvfrom\<close> returned (\<open>None\<close> for \<open>SOCKET_ERROR\<close>, else the datagram and the peer), the two
  loss draws \<open>uni(rng) < lossReq\<close> and \<open>uni(rng) < lossRep\<close>, and the clock as read by
  MONITOR\_REGISTER and by the dedup insertion.
\<close>

record Iteration =
  now_top :: time_point
  received :: "(bytes \<times> sockaddr_in) option"
  loss_req :: bool
  loss_rep :: bool
  now_monitor :: time_point
  now_insert :: time_point

record ServerState =
  bank :: Bank
  monitors :: "MonitorEntry list"
  dedup :: "bytes \<rightharpoonup> DedupEntry"

definition Server_init :: ServerState where
  "Server_init = \<lparr>bank = Bank_init, monitors = [], dedup = Map.empty\<rparr>"

text \<open>
  What the iteration did: which \<open>continue\<close> or fall-through ended it, the callbacks sent,
  and the reply datagram handed to \<open>sendto\<close> for the peer, if any.
\<close>

datatype Path = RecvError | RequestLost | BadRequest | Replayed | Processed

record StepOut =
  path :: Path
  callbacks :: "datagram list"
  reply_sent :: "bytes option"

definition sweep_monitors :: "time_point \<Rightarrow> MonitorEntry list \<Rightarrow> MonitorEntry list" where
  "sweep_monitors t mons = filter (\<lambda>e. \<not> m_expireAt e \<le> t) mons"

definition sweep_dedup :: "time_point \<Rightarrow> (bytes \<rightharpoonup> DedupEntry) \<Rightarrow> (bytes \<rightharpoonup> DedupEntry)" where
  "sweep_dedup t dd =
     (\<lambda>k. case dd k of None \<Rightarrow> None | Some e \<Rightarrow> if expireAt e \<le> t then None else Some e)"

definition dedupKey_of :: "sockaddr_in \<Rightarrow> Message \<Rightarrow> bytes" where
  "dedupKey_of clientAddr req =
     addrToKey clientAddr @ str ''#'' @ to_string_nat (unat (requestId (h req)))"

definition server_step ::
  "(double \<Rightarrow> bytes) \<Rightarrow> ServerState \<Rightarrow> Iteration \<Rightarrow> ServerState \<times> StepOut" where
  "server_step fmt st it =
     (let t = now_top it;
          st1 = st\<lparr>monitors := sweep_monitors t (monitors st), dedup := sweep_dedup t (dedup st)\<rparr>
      in case received it of
           None \<Rightarrow> (st1, \<lparr>path = RecvError, callbacks = [], reply_sent = None\<rparr>)
         | Some (buf, clientAddr) \<Rightarrow>
             if loss_req it then (st1, \<lparr>path = RequestLost, callbacks = [], reply_sent = None\<rparr>)
             else (case decode buf of
               None \<Rightarrow> (st1, \<lparr>path = BadRequest, callbacks = [], reply_sent = None\<rparr>)
             | Some req \<Rightarrow>
                 if version (h req) \<noteq> VERSION \<or> msgType (h req) \<noteq> MsgType_Request
                 then (st1, \<lparr>path = BadRequest, callbacks = [], reply_sent = None\<rparr>)
                 else
                   (let atMostOnce = (flags (h req) AND FLAG_AT_MOST_ONCE \<noteq> 0);
                        dedupKey = dedupKey_of clientAddr req
                    in case (if atMostOnce then dedup st1 dedupKey else None) of
                         Some e \<Rightarrow>
                           (st1, \<lparr>path = Replayed, callbacks = [],
                                  reply_sent = (if loss_rep it then None
                                                else Some (replyBytes e))\<rparr>)
                       | None \<Rightarrow>
                           (case dispatch fmt (bank st1) (monitors st1) clientAddr
                                   (now_monitor it) req of
                              (bk', mons', rep, cbs) \<Rightarrow>
                                (let repBytes = encode rep;
                                     dd = (if atMostOnce
                                           then (dedup st1)(dedupKey \<mapsto>
                                                  \<lparr>replyBytes = repBytes,
                                                   expireAt = now_insert it + chrono_seconds 60\<rparr>)
                                           else dedup st1)
                                 in (\<lparr>bank = bk', monitors = mons', dedup = dd\<rparr>,
                                     \<lparr>path = Processed, callbacks = cbs,
                                      reply_sent = (if loss_rep it then None
                                                    else Some repBytes)\<rparr>))))))"

text \<open>A finite prefix of the \<open>while (true)\<close> loop: the state after it and what each iteration did.\<close>

fun server_run ::
  "(double \<Rightarrow> bytes) \<Rightarrow> ServerState \<Rightarrow> Iteration list \<Rightarrow> ServerState \<times> StepOut list" where
  "server_run fmt st [] = (st, [])"
| "server_run fmt st (it # its) =
     (case server_step fmt st it of
        (st', out) \<Rightarrow> (case server_run fmt st' its of (st'', outs) \<Rightarrow> (st'', out # outs)))"

section \<open>The client (client\_cpp/src/client.cpp)\<close>




definition build_request :: "bool \<Rightarrow> u64 \<Rightarrow> u16 \<Rightarrow> bytes \<Rightarrow> Message" where
  "build_request atMostOnce reqId op bd =
     \<lparr>h = \<lparr>magic = MAGIC, version = VERSION, msgType = MsgType_Request, opCode = op,
            flags = (if atMostOnce then FLAG_AT_MOST_ONCE else 0), status = 0,
            requestId = reqId, bodyLen = of_nat (length bd)\<rparr>,
      body = bd\<rparr>"


subsection \<open>The OPEN dialogue\<close>

text \<open>
  Standard input is the list of lines still to be read. \<open>readLine\<close> returns the next line;
  at the end of the input \<open>std::getline\<close> fails and the line stays empty.
\<close>

definition readLine :: "bytes list \<Rightarrow> bytes \<times> bytes list" where
  "readLine stdin = (case stdin of [] \<Rightarrow> ([], []) | line # rest \<Rightarrow> (line, rest))"

text \<open>
  The outcome of a prompt loop: a \<open>return\<close> from the handler, a value together with the
  input left, or a loop that prompts forever (at the end of the input every line read is
  empty, which neither loop accepts).
\<close>

datatype 'a prompted = Return | Forever | Got 'a "bytes list"

text \<open>The loop \<open>while (true)\<close> of \<open>handleOpen\<close> that reads and confirms the password (\<open>pw\<close>).\<close>

fun handleOpen_password :: "bytes list \<Rightarrow> bytes prompted" where
  "handleOpen_password [] = Forever"
| "handleOpen_password (pw # rest) =
     (if pw = str ''q'' \<or> pw = str ''Q'' then Return
      else if pw = [] \<or> length pw > 16 then handleOpen_password rest
      else (case rest of
              [] \<Rightarrow> Forever
            | confirm # rest' \<Rightarrow>
                if confirm = str ''q'' \<or> confirm = str ''Q'' then Return
                else if pw \<noteq> confirm then handleOpen_password rest'
                else Got pw rest'))"

text \<open>\<open>readCurrency\<close>: \<open>0xFFFF\<close> stands for a cancelled prompt; CNY is 0 and SGD is 1.\<close>

fun readCurrency :: "bytes list \<Rightarrow> u16 prompted" where
  "readCurrency [] = Forever"
| "readCurrency (cur # rest) =
     (if cur = str ''q'' \<or> cur = str ''Q'' then Got 0xFFFF rest
      else if cur = str ''CNY'' \<or> cur = str ''cny'' then Got 0 rest
      else if cur = str ''SGD'' \<or> cur = str ''sgd'' then Got 1 rest
      else readCurrency rest)"

text \<open>
  \<open>readDouble\<close>: \<open>stod\<close> stands for \<open>std::stod\<close>, \<open>None\<close> when it throws. The result is
  \<open>None\<close> for \<open>return false\<close>.
\<close>

definition readDouble :: "(bytes \<Rightarrow> double option) \<Rightarrow> bytes list \<Rightarrow> double option" where
  "readDouble stod stdin =
     (let (line, rest) = readLine stdin
      in if line = [] \<or> line = str ''q'' \<or> line = str ''Q'' then None else stod line)"

text \<open>
  \<open>Client::handleOpen\<close> up to its call of \<open>Client::call\<close>: either it returns to the menu
  without a request, or it never leaves a prompt loop, or it calls \<open>call\<close> with the
  operation code and the request body (\<open>bd\<close>). What follows the call only prints the
  reply.
\<close>

datatype handled = Returned | Prompts_forever | Calls u16 bytes

definition handleOpen :: "(bytes \<Rightarrow> double option) \<Rightarrow> bytes list \<Rightarrow> handled" where
  "handleOpen stod stdin =
     (let (nm, rest1) = readLine stdin
      in if nm = [] \<or> nm = str ''q'' \<or> nm = str ''Q'' then Returned
         else (case handleOpen_password rest1 of
           Return \<Rightarrow> Returned
         | Forever \<Rightarrow> Prompts_forever
         | Got pw rest2 \<Rightarrow>
             (case readCurrency rest2 of
                Return \<Rightarrow> Returned
              | Forever \<Rightarrow> Prompts_forever
              | Got cur rest3 \<Rightarrow>
                  if cur = 0xFFFF then Returned
                  else (case readDouble stod rest3 of
                    None \<Rightarrow> Returned
                  | Some initialBalance \<Rightarrow>
                      if d_less initialBalance d_zero then Returned
                      else (let bd = putString [] nm;
                                bd = putPassword16 bd pw;
                                bd = putU16 bd cur;
                                bd = putDouble bd initialBalance
                            in Calls OpCode_OPEN bd)))))"

section \<open>Predicates used in the proofs\<close>

text \<open>
  A reply as the dispatcher hands it to a branch (status OK, empty body), and what every
  branch guarantees for it: a reply that leaves with another status comes with the bank
  and the monitors as they were, an empty body and no callback.
\<close>

definition fresh_reply :: "Message \<Rightarrow> bool" where
  "fresh_reply rep \<longleftrightarrow> status (h rep) = 0 \<and> body rep = []"

definition error_outcome :: "Bank \<Rightarrow> MonitorEntry list \<Rightarrow> dispatched \<Rightarrow> bool" where
  "error_outcome bk mons d \<longleftrightarrow>
     (case d of (bk', mons', rep, cbs) \<Rightarrow>
        status (h rep) \<noteq> 0 \<longrightarrow> bk' = bk \<and> mons' = mons \<and> body rep = [] \<and> cbs = [])"

text \<open>
  The reply that reports the error \<open>e\<close> for the request \<open>req\<close>: the header echoes the
  operation code, the flags and the request id, and the body is empty.
\<close>

definition error_reply :: "Message \<Rightarrow> Status \<Rightarrow> Message" where
  "error_reply req e =
     \<lparr>h = \<lparr>magic = MAGIC, version = VERSION, msgType = MsgType_Reply, opCode = opCode (h req),
            flags = flags (h req), status = status_u16 e, requestId = requestId (h req),
            bodyLen = 0\<rparr>,
      body = []\<rparr>"

text \<open>
  An integer (in units of \<open>2 ^ -1074\<close>) that is the value of a finite double: its magnitude
  has at most 53 significant binary digits, and at most 2098 digits in all.
\<close>

definition d_representable :: "int \<Rightarrow> bool" where
  "d_representable v =
     (let m = nat \<bar>v\<bar>
      in bitlen m \<le> 53 \<or> (bitlen m \<le> 2098 \<and> m mod 2 ^ (bitlen m - 53) = 0))"

text \<open>
  The dedup key an iteration of the server loop works with: the key of the request it
  received, when the datagram survived the simulated request loss, decoded, passed the
  version and message-type checks and has the at-most-once flag set. These are the
  iterations that look the key up in the cache and, on a miss, insert under it.
\<close>

definition request_key :: "Iteration \<Rightarrow> bytes option" where
  "request_key it =
     (case received it of
        None \<Rightarrow> None
      | Some (buf, clientAddr) \<Rightarrow>
          if loss_req it then None
          else (case decode buf of
            None \<Rightarrow> None
          | Some req \<Rightarrow>
              if version (h req) \<noteq> VERSION \<or> msgType (h req) \<noteq> MsgType_Request then None
              else if flags (h req) AND FLAG_AT_MOST_ONCE \<noteq> 0
                then Some (dedupKey_of clientAddr req)
              else None))"

section \<open>Properties of the wire codec\<close>

subsection \<open>Bytes of a word\<close>

lemma ucast_and_ff: "(ucast (w AND 0xFF :: 'a::len word) :: u8) = ucast w"
proof -
  have e: "(0xFF :: 'a word) = mask 8"
    by (simp add: mask_eq_exp_minus_1)
  show ?thesis
    unfolding e by (intro bit_word_eqI) (auto simp: bit_simps dest: bit_imp_le_length)
qed

lemma byte_snoc: "push_bit 8 (drop_bit 8 w) OR ucast (ucast w :: u8) = (w :: 'a::len word)"
proof (rule bit_word_eqI)
  fix n assume "n < LENGTH('a)"
  then show "bit (push_bit 8 (drop_bit 8 w) OR ucast (ucast w :: u8)) n = bit w n"
    by (cases "n < 8") (auto simp: bit_simps)
qed

lemma byte_snoc_drop:
  "push_bit 8 (drop_bit (8 + k) v) OR ucast (ucast (drop_bit k v) :: u8)
     = drop_bit k (v :: 'a::len word)"
  using byte_snoc [of "drop_bit k v"] by simp

lemma byte_top:
  "LENGTH('a) \<le> 8 + k \<Longrightarrow> ucast (ucast (drop_bit k v) :: u8) = drop_bit k (v :: 'a::len word)"
  using byte_snoc_drop [of k v] by (simp add: drop_bit_word_beyond)

lemma bytes16:
  "push_bit 8 (ucast (ucast (drop_bit 8 v) :: u8)) OR ucast (ucast v :: u8) = (v :: u16)"
  using byte_snoc_drop [of 0 v] by (simp add: byte_top)

lemma bytes32:
  "push_bit 24 (ucast (ucast (drop_bit 24 v) :: u8))
     OR push_bit 16 (ucast (ucast (drop_bit 16 v) :: u8))
     OR push_bit 8 (ucast (ucast (drop_bit 8 v) :: u8)) OR ucast (ucast v :: u8) = (v :: u32)"
proof -
  have "push_bit 8 (push_bit 8 (push_bit 8 (ucast (ucast (drop_bit 24 v) :: u8))
            OR ucast (ucast (drop_bit 16 v) :: u8))
          OR ucast (ucast (drop_bit 8 v) :: u8))
        OR ucast (ucast v :: u8) = v"
    unfolding byte_top [of 24 v, simplified] byte_snoc_drop [of 16 v, simplified]
      byte_snoc_drop [of 8 v, simplified]
    using byte_snoc_drop [of 0 v] by simp
  then show ?thesis
    by (simp add: ac_simps)
qed

lemma bytes64:
  "push_bit 56 (ucast (ucast (drop_bit 56 v) :: u8))
     OR push_bit 48 (ucast (ucast (drop_bit 48 v) :: u8))
     OR push_bit 40 (ucast (ucast (drop_bit 40 v) :: u8))
     OR push_bit 32 (ucast (ucast (drop_bit 32 v) :: u8))
     OR push_bit 24 (ucast (ucast (drop_bit 24 v) :: u8))
     OR push_bit 16 (ucast (ucast (drop_bit 16 v) :: u8))
     OR push_bit 8 (ucast (ucast (drop_bit 8 v) :: u8)) OR ucast (ucast v :: u8) = (v :: u64)"
proof -
  have "push_bit 8 (push_bit 8 (push_bit 8 (push_bit 8 (push_bit 8 (push_bit 8 (push_bit 8
            (ucast (ucast (drop_bit 56 v) :: u8))
            OR ucast (ucast (drop_bit 48 v) :: u8))
            OR ucast (ucast (drop_bit 40 v) :: u8))
            OR ucast (ucast (drop_bit 32 v) :: u8))
            OR ucast (ucast (drop_bit 24 v) :: u8))
            OR ucast (ucast (drop_bit 16 v) :: u8))
            OR ucast (ucast (drop_bit 8 v) :: u8))
        OR ucast (ucast v :: u8) = v"
    unfolding byte_top [of 56 v, simplified] byte_snoc_drop [of 48 v, simplified]
      byte_snoc_drop [of 40 v, simplified] byte_snoc_drop [of 32 v, simplified]
      byte_snoc_drop [of 24 v, simplified] byte_snoc_drop [of 16 v, simplified]
      byte_snoc_drop [of 8 v, simplified]
    using byte_snoc_drop [of 0 v] by simp
  then show ?thesis
    by (simp add: ac_simps)
qed

lemma upt8: "[0..<8] = [0, 1, 2, 3, 4, 5, 6, 7]"
  by (simp add: upt_rec)

subsection \<open>Readers undo writers\<close>

lemma be16_putBE16: "be16 (a @ putBE16 v @ c) (length a) = v"
  by (simp add: be16_def putBE16_def ucast_and_ff nth_append bytes16)

lemma be32_putBE32: "be32 (a @ putBE32 v @ c) (length a) = v"
  by (simp add: be32_def putBE32_def ucast_and_ff nth_append bytes32)

lemma be64_putBE64: "be64 (a @ putBE64 v @ c) (length a) = v"
  using bytes64 [of v]
  by (simp add: be64_def putBE64_def upt8 ucast_and_ff nth_append ac_simps)

lemma length_putBE [simp]:
  "length (putBE16 x) = 2" "length (putBE32 y) = 4" "length (putBE64 z) = 8"
  by (simp_all add: putBE16_def putBE32_def putBE64_def)

lemma getU16_put: "getU16 (a @ putBE16 v @ c) (length a) = Some (v, length a + 2)"
  by (simp add: getU16_def getBE16_def be16_putBE16)

lemma getU32_put: "getU32 (a @ putBE32 v @ c) (length a) = Some (v, length a + 4)"
  by (simp add: getU32_def getBE32_def be32_putBE32)

lemma getU64_put: "getU64 (a @ putBE64 v @ c) (length a) = Some (v, length a + 8)"
  by (simp add: getU64_def getBE64_def be64_putBE64)

lemma encode_layout:
  "encode m = putBE32 (magic (h m)) @ [version (h m), msgType (h m)] @ putBE16 (opCode (h m))
     @ putBE16 (flags (h m)) @ putBE16 (status (h m)) @ putBE64 (requestId (h m))
     @ putBE32 (bodyLen (h m)) @ body m"
  by (simp add: encode_def putU16_def putU32_def putU64_def)

lemma length_encode: "length (encode m) = 24 + length (body m)"
  by (simp add: encode_layout)

lemma decode_encode:
  assumes "magic (h m) = MAGIC" and "unat (bodyLen (h m)) = length (body m)"
  shows "decode (encode m @ extra) = Some m"
proof -
  let ?H = "h m"
  let ?p1 = "putBE32 (magic ?H)"
  let ?p2 = "?p1 @ [version ?H, msgType ?H]"
  let ?p3 = "?p2 @ putBE16 (opCode ?H)"
  let ?p4 = "?p3 @ putBE16 (flags ?H)"
  let ?p5 = "?p4 @ putBE16 (status ?H)"
  let ?p6 = "?p5 @ putBE64 (requestId ?H)"
  let ?raw = "encode m @ extra"
  have g1: "getU32 ?raw 0 = Some (magic ?H, 4)"
    using getU32_put [of "[]" "magic ?H"] by (simp add: encode_layout)
  have v: "?raw ! 4 = version ?H" "?raw ! 5 = msgType ?H"
    by (simp_all add: encode_layout nth_append)
  have g2: "getU16 ?raw 6 = Some (opCode ?H, 8)"
    using getU16_put [of ?p2 "opCode ?H"] by (simp add: encode_layout)
  have g3: "getU16 ?raw 8 = Some (flags ?H, 10)"
    using getU16_put [of ?p3 "flags ?H"] by (simp add: encode_layout)
  have g4: "getU16 ?raw 10 = Some (status ?H, 12)"
    using getU16_put [of ?p4 "status ?H"] by (simp add: encode_layout)
  have g5: "getU64 ?raw 12 = Some (requestId ?H, 20)"
    using getU64_put [of ?p5 "requestId ?H"] by (simp add: encode_layout)
  have g6: "getU32 ?raw 20 = Some (bodyLen ?H, 24)"
    using getU32_put [of ?p6 "bodyLen ?H" "body m @ extra"] by (simp add: encode_layout)
  have len: "length (encode m) = 24 + length (body m)"
    by (simp add: encode_layout)
  have bd: "drop 24 (encode m) = body m"
    by (simp add: encode_layout)
  show ?thesis
    unfolding decode_def by (simp add: g1 g2 g3 g4 g5 g6 v len bd assms Let_def)
qed

lemmas reader_defs = getU32_def getBE32_def getU16_def getBE16_def getU64_def getBE64_def

lemma decode_None_iff:
  "decode raw = None \<longleftrightarrow>
     length raw < 24 \<or> be32 raw 0 \<noteq> MAGIC \<or> length raw < 24 + unat (be32 raw 20)"
  by (auto simp: decode_def reader_defs Let_def)

lemma decode_Some_fields:
  "decode raw = Some m \<Longrightarrow>
     version (h m) = raw ! 4 \<and> msgType (h m) = raw ! 5 \<and> bodyLen (h m) = be32 raw 20
     \<and> body m = take (unat (be32 raw 20)) (drop 24 raw)"
  by (auto simp: decode_def reader_defs Let_def split: if_splits)

subsection \<open>Writers undo readers on eight bytes\<close>

lemma list8:
  "length (xs :: 'a list) = 8 \<Longrightarrow> \<exists>b0 b1 b2 b3 b4 b5 b6 b7. xs = [b0, b1, b2, b3, b4, b5, b6, b7]"
  by (auto simp: eval_nat_numeral length_Suc_conv)

lemma be64_flat:
  "be64 [b0, b1, b2, b3, b4, b5, b6, b7] 0 =
     push_bit 56 (ucast b0) OR push_bit 48 (ucast b1) OR push_bit 40 (ucast b2)
     OR push_bit 32 (ucast b3) OR push_bit 24 (ucast b4) OR push_bit 16 (ucast b5)
     OR push_bit 8 (ucast b6) OR ucast b7"
  by (simp add: be64_def upt8 ac_simps)

lemma byte_of_flat:
  fixes b0 b1 b2 b3 b4 b5 b6 b7 :: u8
  defines "v \<equiv> (push_bit 56 (ucast b0) OR push_bit 48 (ucast b1) OR push_bit 40 (ucast b2)
     OR push_bit 32 (ucast b3) OR push_bit 24 (ucast b4) OR push_bit 16 (ucast b5)
     OR push_bit 8 (ucast b6) OR ucast b7 :: u64)"
  shows "ucast (drop_bit 56 v) = b0" "ucast (drop_bit 48 v) = b1" "ucast (drop_bit 40 v) = b2"
    "ucast (drop_bit 32 v) = b3" "ucast (drop_bit 24 v) = b4" "ucast (drop_bit 16 v) = b5"
    "ucast (drop_bit 8 v) = b6" "ucast v = b7"
  unfolding v_def
  by (rule bit_word_eqI; simp add: bit_simps del: drop_bit_or; auto dest: bit_imp_le_length)+

lemma putBE64_be64:
  "putBE64 (be64 [b0, b1, b2, b3, b4, b5, b6, b7] 0) = [b0, b1, b2, b3, b4, b5, b6, b7]"
  unfolding be64_flat
  by (simp add: putBE64_def upt8 ucast_and_ff byte_of_flat del: drop_bit_or)

lemma putDouble_host_bytes:
  assumes "length v_mem = 8"
  shows "putDouble_host LittleEndian b v_mem = b @ rev v_mem"
    and "putDouble_host BigEndian b v_mem = b @ v_mem"
proof -
  obtain b0 b1 b2 b3 b4 b5 b6 b7 where v: "v_mem = [b0, b1, b2, b3, b4, b5, b6, b7]"
    using list8 [OF assms] by blast
  show "putDouble_host LittleEndian b v_mem = b @ rev v_mem"
    by (simp add: v putDouble_host_def load_u64_def putU64_def putBE64_be64)
  show "putDouble_host BigEndian b v_mem = b @ v_mem"
    by (simp add: v putDouble_host_def load_u64_def putU64_def putBE64_be64)
qed

subsection \<open>Claims about the codec\<close>

text \<open>
  Claim C3, as amended. \<open>putDouble\<close> copies the double into a \<open>uint64_t\<close> and appends that
  integer most significant byte first. On a little-endian host the appended bytes are
  therefore the double's memory bytes in reverse order (the byte-swapped, big-endian
  order of the 64-bit pattern); only on a big-endian host are they the memory bytes in
  memory order.
\<close>

theorem putDouble_byte_order:
  "length v_mem = 8 \<Longrightarrow>
     putDouble_host LittleEndian b v_mem = b @ rev v_mem
     \<and> putDouble_host BigEndian b v_mem = b @ v_mem
     \<and> putDouble b (load_u64 e v_mem) = putDouble_host e b v_mem"
  by (simp add: putDouble_host_bytes) (simp add: putDouble_host_def putDouble_def)

theorem putDouble_byte_order_witness:
  "length [0, 0, 0, 0, 0, 0, 0xF0, 0x3F :: u8] = 8
   \<and> putDouble_host LittleEndian [7] [0, 0, 0, 0, 0, 0, 0xF0, 0x3F]
       = [7, 0x3F, 0xF0, 0, 0, 0, 0, 0, 0]
   \<and> putDouble_host BigEndian [7] [0x3F, 0xF0, 0, 0, 0, 0, 0, 0]
       = [7, 0x3F, 0xF0, 0, 0, 0, 0, 0, 0]"
  using putDouble_byte_order [of "[0, 0, 0, 0, 0, 0, 0xF0, 0x3F]" "[7]"]
    putDouble_byte_order [of "[0x3F, 0xF0, 0, 0, 0, 0, 0, 0]" "[7]"]
  by simp

text \<open>
  Claim C3 as stated fails on a little-endian host: the memory bytes of \<open>1.0\<close> are
  \<open>00 00 00 00 00 00 F0 3F\<close>, and the bytes appended are \<open>3F F0 00 00 00 00 00 00\<close>, which
  is not the memory order.
\<close>

theorem putDouble_memory_order_counterexample:
  "putDouble_host LittleEndian [] [0, 0, 0, 0, 0, 0, 0xF0, 0x3F]
     \<noteq> [] @ [0, 0, 0, 0, 0, 0, 0xF0, 0x3F]"
  using putDouble_host_bytes(1) [of "[0, 0, 0, 0, 0, 0, 0xF0, 0x3F]" "[]"] by simp

text \<open>
  Claim C5, as amended. For every message whose \<open>magic\<close> is the protocol constant and
  whose \<open>bodyLen\<close> equals the length of its body, decoding the encoding succeeds and
  returns the message.
\<close>

theorem decode_encode_roundtrip:
  "magic (h m) = MAGIC \<Longrightarrow> unat (bodyLen (h m)) = length (body m) \<Longrightarrow>
     decode (encode m) = Some m"
  using decode_encode [of m "[]"] by simp

theorem decode_encode_roundtrip_witness:
  "magic (h \<lparr>h = \<lparr>magic = 0x42414E4B, version = 1, msgType = 2, opCode = 3, flags = 1,
                  status = 0, requestId = 77, bodyLen = 2\<rparr>, body = [9, 8]\<rparr>) = MAGIC
   \<and> unat (bodyLen (h \<lparr>h = \<lparr>magic = 0x42414E4B, version = 1, msgType = 2, opCode = 3,
                  flags = 1, status = 0, requestId = 77, bodyLen = 2\<rparr>, body = [9, 8]\<rparr>))
       = length (body \<lparr>h = \<lparr>magic = 0x42414E4B, version = 1, msgType = 2, opCode = 3,
                  flags = 1, status = 0, requestId = 77, bodyLen = 2\<rparr>, body = [9, 8]\<rparr>)
   \<and> decode (encode \<lparr>h = \<lparr>magic = 0x42414E4B, version = 1, msgType = 2, opCode = 3,
                  flags = 1, status = 0, requestId = 77, bodyLen = 2\<rparr>, body = [9, 8]\<rparr>)
       = Some \<lparr>h = \<lparr>magic = 0x42414E4B, version = 1, msgType = 2, opCode = 3, flags = 1,
                  status = 0, requestId = 77, bodyLen = 2\<rparr>, body = [9, 8]\<rparr>"
  using decode_encode_roundtrip [of "\<lparr>h = \<lparr>magic = 0x42414E4B, version = 1, msgType = 2,
      opCode = 3, flags = 1, status = 0, requestId = 77, bodyLen = 2\<rparr>, body = [9, 8]\<rparr>"]
  by (simp add: MAGIC_def)

text \<open>
  Claim C5 as stated fails: a message with \<open>bodyLen\<close> equal to the length of its body but
  another \<open>magic\<close> is encoded as it is and then rejected by \<open>decode\<close>.
\<close>

theorem decode_encode_magic_counterexample:
  "unat (bodyLen (h \<lparr>h = \<lparr>magic = 0, version = 1, msgType = 1, opCode = 6, flags = 0,
                  status = 0, requestId = 5, bodyLen = 0\<rparr>, body = []\<rparr>))
     = length (body \<lparr>h = \<lparr>magic = 0, version = 1, msgType = 1, opCode = 6, flags = 0,
                  status = 0, requestId = 5, bodyLen = 0\<rparr>, body = []\<rparr>)
   \<and> decode (encode \<lparr>h = \<lparr>magic = 0, version = 1, msgType = 1, opCode = 6, flags = 0,
                  status = 0, requestId = 5, bodyLen = 0\<rparr>, body = []\<rparr>) = None"
proof -
  let ?m = "\<lparr>h = \<lparr>magic = 0, version = 1, msgType = 1, opCode = 6, flags = 0,
                  status = 0, requestId = 5, bodyLen = 0\<rparr>, body = []\<rparr>"
  have "be32 (encode ?m) 0 = 0"
    using be32_putBE32 [of "[]" 0] by (simp add: encode_layout)
  then have "decode (encode ?m) = None"
    by (simp add: decode_None_iff MAGIC_def)
  then show ?thesis
    by simp
qed

text \<open>
  Claim C9. For every string longer than 65535 bytes \<open>putString\<close> leaves the output
  buffer unchanged: neither the length prefix nor any payload byte is appended, and the
  function (of return type \<open>void\<close>) has no way to report it.
\<close>

theorem putString_too_long_unchanged:
  "length s > 65535 \<Longrightarrow> putString b s = b"
  by (simp add: putString_def)

theorem putString_too_long_unchanged_witness:
  "length (replicate 65536 (65::u8)) > 65535
   \<and> putString [1, 2] (replicate 65536 (65::u8)) = [1, 2]"
  using putString_too_long_unchanged [of "replicate 65536 (65::u8)" "[1, 2]"] by simp

section \<open>Properties of the bank and of the dispatch\<close>

subsection \<open>Fields written by the writers are read back by the readers\<close>

lemma getU16_putU16: "getU16 (putU16 a v @ c) (length a) = Some (v, length a + 2)"
  using getU16_put [of a v c] by (simp add: putU16_def)

lemma getI32_putI32: "getI32 (putI32 a v @ c) (length a) = Some (v, length a + 4)"
  using getU32_put [of a v c] by (simp add: putI32_def putU32_def getI32_def)

lemma getDouble_putDouble: "getDouble (putDouble a v @ c) (length a) = Some (v, length a + 8)"
  using getU64_put [of a v c] by (simp add: putDouble_def putU64_def getDouble_def)

lemma getString_putString:
  assumes "length s \<le> 65535"
  shows "getString (putString a s @ c) (length a) = Some (s, length a + 2 + length s)"
proof -
  have u: "unat (of_nat (length s) :: u16) = length s"
    using assms by (simp add: unat_of_nat)
  have g: "getU16 (a @ putBE16 (of_nat (length s)) @ s @ c) (length a)
             = Some (of_nat (length s), length a + 2)"
    by (rule getU16_put)
  show ?thesis
    using assms by (simp add: putString_def putU16_def getString_def g u)
qed

lemma strip_zeros_padding:
  assumes "t = [] \<or> last t \<noteq> 0" and "k \<le> length z" and "\<forall>i<k. z ! i = 0"
  shows "strip_zeros (t @ z) (length t + k) = length t"
  using assms(2,3)
proof (induction k)
  case 0
  show ?case
  proof (cases t rule: rev_cases)
    case Nil
    then show ?thesis by simp
  next
    case (snoc ys y)
    with assms(1) have "y \<noteq> 0" by simp
    with snoc show ?thesis by (simp add: nth_append)
  qed
next
  case (Suc k)
  then have "(t @ z) ! (length t + k) = 0"
    by (simp add: nth_append)
  with Suc show ?case by simp
qed

lemma getPassword16_putPassword16:
  assumes "length pw \<le> 16" and "pw = [] \<or> last pw \<noteq> 0"
  shows "getPassword16 (putPassword16 a pw @ c) (length a) = Some (pw, length a + 16)"
proof -
  let ?z = "replicate (16 - length pw) (0::u8)"
  have p: "take 16 (drop (length a) (putPassword16 a pw @ c)) = pw @ ?z"
    using assms(1) by (simp add: putPassword16_def)
  have "strip_zeros (pw @ ?z) (length pw + (16 - length pw)) = length pw"
    by (rule strip_zeros_padding) (use assms in auto)
  then have s: "strip_zeros (pw @ ?z) 16 = length pw"
    using assms(1) by simp
  show ?thesis
    using assms(1) by (simp add: getPassword16_def p s Let_def putPassword16_def)
qed

lemma length_putString: "length s \<le> 65535 \<Longrightarrow> length (putString a s) = length a + 2 + length s"
  by (simp add: putString_def putU16_def)

lemma length_putI32: "length (putI32 a v) = length a + 4"
  by (simp add: putI32_def putU32_def)

lemma length_putU16: "length (putU16 a v) = length a + 2"
  by (simp add: putU16_def)

lemma length_putPassword16: "length (putPassword16 a pw) = length a + 16"
  by (simp add: putPassword16_def Let_def)

lemma parse_account_build:
  assumes "length nm \<le> 65535" and "length pw \<le> 16" and "pw = [] \<or> last pw \<noteq> 0"
  shows "parse_account (putPassword16 (putI32 (putString [] nm) n) pw) = Some (nm, n, pw)"
proof -
  let ?b1 = "putString [] nm"
  let ?b2 = "putI32 ?b1 n"
  let ?b = "putPassword16 ?b2 pw"
  obtain c1 where c1: "?b = ?b1 @ c1"
    by (simp add: putPassword16_def putI32_def putU32_def Let_def)
  obtain c2 where c2: "?b = ?b2 @ c2"
    by (simp add: putPassword16_def Let_def)
  have g1: "getString ?b 0 = Some (nm, 2 + length nm)"
    unfolding c1 using getString_putString [OF assms(1), of "[]" c1] by simp
  have g2: "getI32 ?b (2 + length nm) = Some (n, 6 + length nm)"
    unfolding c2 using getI32_putI32 [of ?b1 n c2] by (simp add: length_putString assms(1))
  have g3: "getPassword16 ?b (6 + length nm) = Some (pw, 22 + length nm)"
    using getPassword16_putPassword16 [OF assms(2,3), of ?b2 "[]"]
    by (simp add: length_putString length_putI32 assms(1))
  show ?thesis
    by (simp only: parse_account_def g1 g2 g3 option.case prod.case)
qed

lemma parse_OPEN_build:
  assumes "length nm \<le> 65535" and "length pw \<le> 16" and "pw = [] \<or> last pw \<noteq> 0"
  shows "parse_OPEN (putDouble (putU16 (putPassword16 (putString [] nm) pw) cur) initial)
           = Some (nm, pw, cur, initial)"
proof -
  let ?b1 = "putString [] nm"
  let ?b2 = "putPassword16 ?b1 pw"
  let ?b3 = "putU16 ?b2 cur"
  let ?b = "putDouble ?b3 initial"
  obtain c1 where c1: "?b = ?b1 @ c1"
    by (simp add: putPassword16_def putU16_def putDouble_def putU64_def Let_def)
  obtain c2 where c2: "?b = ?b2 @ c2"
    by (simp add: putU16_def putDouble_def putU64_def Let_def)
  obtain c3 where c3: "?b = ?b3 @ c3"
    by (simp add: putDouble_def putU64_def Let_def)
  have g1: "getString ?b 0 = Some (nm, 2 + length nm)"
    unfolding c1 using getString_putString [OF assms(1), of "[]" c1] by simp
  have g2: "getPassword16 ?b (2 + length nm) = Some (pw, 18 + length nm)"
    unfolding c2 using getPassword16_putPassword16 [OF assms(2,3), of ?b1 c2]
    by (simp add: length_putString assms(1))
  have g3: "getU16 ?b (18 + length nm) = Some (cur, 20 + length nm)"
    unfolding c3 using getU16_putU16 [of ?b2 cur c3]
    by (simp add: length_putString length_putPassword16 assms(1))
  have g4: "getDouble ?b (20 + length nm) = Some (initial, 28 + length nm)"
    using getDouble_putDouble [of ?b3 initial "[]"]
    by (simp add: length_putString length_putPassword16 length_putU16 assms(1))
  show ?thesis
    by (simp only: parse_OPEN_def g1 g2 g3 g4 option.case prod.case)
qed

subsection \<open>Failing operations\<close>

lemma openAccount_ok:
  "1 \<le> length pw16 \<Longrightarrow> length pw16 \<le> 16 \<Longrightarrow>
   openAccount bk nm pw16 c initial =
     (bk\<lparr>nextAccNo := nextAccNo bk + 1,
         accounts := (accounts bk)(nextAccNo bk \<mapsto>
            \<lparr>accountNo = nextAccNo bk, name = nm, password = pw16, currency = c,
             balance = initial, closed = False\<rparr>)\<rparr>,
      Inr (nextAccNo bk, initial))"
  by (auto simp add: openAccount_def Let_def)

lemma openAccount_err:
  "openAccount bk nm pw16 c initial = (bk', Inl e) \<Longrightarrow>
     e = ERR_PASSWORD_FORMAT \<and> bk' = bk \<and> (length pw16 = 0 \<or> length pw16 > 16)"
  by (auto simp add: openAccount_def Let_def split: if_splits)

lemma closeAccount_err:
  "closeAccount bk nm accNo pw16 = (bk', Inl e) \<Longrightarrow> bk' = bk \<and> e \<noteq> OK"
  by (auto simp add: closeAccount_def Let_def split: if_splits option.splits)

lemma deposit_err:
  "deposit bk nm accNo pw16 c amount = (bk', Inl e) \<Longrightarrow> bk' = bk \<and> e \<noteq> OK"
  by (auto simp add: deposit_def Let_def split: if_splits option.splits)

lemma withdraw_err:
  "withdraw bk nm accNo pw16 c amount = (bk', Inl e) \<Longrightarrow> bk' = bk \<and> e \<noteq> OK"
  by (auto simp add: withdraw_def Let_def split: if_splits option.splits)

lemma transfer_err:
  "transfer bk nm fromAcc pw16 toAcc c amount = (bk', Inl e) \<Longrightarrow> bk' = bk \<and> e \<noteq> OK"
  by (auto simp add: transfer_def Let_def split: if_splits option.splits)

lemma queryBalance_same:
  "queryBalance bk nm accNo pw16 = (bk', r) \<Longrightarrow> bk' = bk \<and> r \<noteq> Inl OK"
  by (auto simp add: queryBalance_def Let_def split: if_splits option.splits)

lemma status_u16_OK [simp]: "status_u16 e = 0 \<longleftrightarrow> e = OK"
  by (cases e) simp_all

lemma handle_OPEN_error:
  "fresh_reply rep \<Longrightarrow> error_outcome bk mons (handle_OPEN bk mons req rep)"
  by (auto simp: fresh_reply_def error_outcome_def handle_OPEN_def set_status_def
      split: option.splits prod.splits sum.splits dest: openAccount_err)

lemma handle_CLOSE_error:
  "fresh_reply rep \<Longrightarrow> error_outcome bk mons (handle_CLOSE bk mons req rep)"
  by (auto simp: fresh_reply_def error_outcome_def handle_CLOSE_def set_status_def Let_def
      split: option.splits prod.splits sum.splits dest: closeAccount_err)

lemma handle_DEPOSIT_error:
  "fresh_reply rep \<Longrightarrow> error_outcome bk mons (handle_DEPOSIT fmt bk mons req rep)"
  by (auto simp: fresh_reply_def error_outcome_def handle_DEPOSIT_def set_status_def Let_def
      split: option.splits prod.splits sum.splits dest: deposit_err)

lemma handle_WITHDRAW_error:
  "fresh_reply rep \<Longrightarrow> error_outcome bk mons (handle_WITHDRAW fmt bk mons req rep)"
  by (auto simp: fresh_reply_def error_outcome_def handle_WITHDRAW_def set_status_def Let_def
      split: option.splits prod.splits sum.splits dest: withdraw_err)

lemma handle_TRANSFER_error:
  "fresh_reply rep \<Longrightarrow> error_outcome bk mons (handle_TRANSFER fmt bk mons req rep)"
  by (auto simp: fresh_reply_def error_outcome_def handle_TRANSFER_def set_status_def Let_def
      split: option.splits prod.splits sum.splits dest: transfer_err)

lemma handle_QUERY_BALANCE_error:
  "fresh_reply rep \<Longrightarrow> error_outcome bk mons (handle_QUERY_BALANCE bk mons req rep)"
  by (auto simp: fresh_reply_def error_outcome_def handle_QUERY_BALANCE_def set_status_def Let_def
      split: option.splits prod.splits sum.splits dest: queryBalance_same)

lemma handle_MONITOR_REGISTER_error:
  "fresh_reply rep \<Longrightarrow> error_outcome bk mons (handle_MONITOR_REGISTER bk mons a tm req rep)"
  by (auto simp: fresh_reply_def error_outcome_def handle_MONITOR_REGISTER_def set_status_def
      Let_def split: option.splits prod.splits sum.splits)

lemma fresh_skeleton: "fresh_reply (reply_skeleton req)"
  by (simp add: fresh_reply_def reply_skeleton_def)

lemma error_outcome_bad:
  "error_outcome bk mons (bk, mons, set_status (reply_skeleton req) e, [])"
  by (simp add: error_outcome_def set_status_def reply_skeleton_def)

lemma dispatch_error:
  assumes "dispatch fmt bk mons clientAddr tm req = (bk', mons', rep, cbs)"
    and "status (h rep) \<noteq> status_u16 OK"
  shows "bk' = bk \<and> mons' = mons \<and> body rep = [] \<and> cbs = [] \<and> bodyLen (h rep) = 0"
proof -
  let ?rep = "reply_skeleton req"
  define d where "d =
    (if opCode (h req) = OpCode_OPEN then handle_OPEN bk mons req ?rep
     else if opCode (h req) = OpCode_CLOSE then handle_CLOSE bk mons req ?rep
     else if opCode (h req) = OpCode_DEPOSIT then handle_DEPOSIT fmt bk mons req ?rep
     else if opCode (h req) = OpCode_WITHDRAW then handle_WITHDRAW fmt bk mons req ?rep
     else if opCode (h req) = OpCode_TRANSFER then handle_TRANSFER fmt bk mons req ?rep
     else if opCode (h req) = OpCode_QUERY_BALANCE
       then handle_QUERY_BALANCE bk mons req ?rep
     else if opCode (h req) = OpCode_MONITOR_REGISTER
       then handle_MONITOR_REGISTER bk mons clientAddr tm req ?rep
     else (bk, mons, set_status ?rep ERR_BAD_REQUEST, []))"
  have e: "error_outcome bk mons d"
    unfolding d_def
    by (simp add: handle_OPEN_error handle_CLOSE_error handle_DEPOSIT_error
        handle_WITHDRAW_error handle_TRANSFER_error handle_QUERY_BALANCE_error
        handle_MONITOR_REGISTER_error fresh_skeleton error_outcome_bad)
  obtain b1 m1 r1 c1 where d: "d = (b1, m1, r1, c1)"
    by (cases d) auto
  have "dispatch fmt bk mons clientAddr tm req
          = (b1, m1, r1\<lparr>h := (h r1)\<lparr>bodyLen := of_nat (length (body r1))\<rparr>\<rparr>, c1)"
    using d unfolding dispatch_def d_def by (simp add: Let_def)
  with assms have eqs: "bk' = b1" "mons' = m1" "cbs = c1"
    "rep = r1\<lparr>h := (h r1)\<lparr>bodyLen := of_nat (length (body r1))\<rparr>\<rparr>"
    by simp_all
  with assms(2) have "status (h r1) \<noteq> 0"
    by simp
  with e d have "b1 = bk \<and> m1 = mons \<and> body r1 = [] \<and> c1 = []"
    by (simp add: error_outcome_def)
  then show ?thesis
    using eqs by simp
qed

lemma absent_or_closed_ops:
  assumes "accounts bk n = None \<or> (\<exists>a. accounts bk n = Some a \<and> closed a)"
  shows "closeAccount bk nm n pw = (bk, Inl ERR_NOT_FOUND)"
    and "deposit bk nm n pw c amt = (bk, Inl ERR_NOT_FOUND)"
    and "withdraw bk nm n pw c amt = (bk, Inl ERR_NOT_FOUND)"
    and "queryBalance bk nm n pw = (bk, Inl ERR_NOT_FOUND)"
    and "n \<noteq> k \<Longrightarrow> transfer bk nm n pw k c amt = (bk, Inl ERR_NOT_FOUND)"
    and "n \<noteq> k \<Longrightarrow> transfer bk nm k pw n c amt = (bk, Inl ERR_NOT_FOUND)"
    and "transfer bk nm n pw n c amt = (bk, Inl ERR_BAD_REQUEST)"
  using assms
  by (auto simp: closeAccount_def deposit_def withdraw_def queryBalance_def transfer_def
      split: option.splits)

subsection \<open>Requests of the remaining operations\<close>

lemma length_putDouble: "length (putDouble a v) = length a + 8"
  by (simp add: putDouble_def putU64_def)

lemma parse_amount_build:
  assumes "length nm \<le> 65535" and "length pw \<le> 16" and "pw = [] \<or> last pw \<noteq> 0"
  shows "parse_amount (putDouble (putU16 (putPassword16 (putI32 (putString [] nm) n) pw) cur) x)
           = Some (nm, n, pw, cur, x)"
proof -
  let ?b1 = "putString [] nm"
  let ?b2 = "putI32 ?b1 n"
  let ?b3 = "putPassword16 ?b2 pw"
  let ?b4 = "putU16 ?b3 cur"
  let ?b = "putDouble ?b4 x"
  obtain c1 where c1: "?b = ?b1 @ c1"
    by (simp add: putPassword16_def putI32_def putU32_def putU16_def putDouble_def putU64_def
        Let_def)
  obtain c2 where c2: "?b = ?b2 @ c2"
    by (simp add: putPassword16_def putU16_def putDouble_def putU64_def Let_def)
  obtain c3 where c3: "?b = ?b3 @ c3"
    by (simp add: putU16_def putDouble_def putU64_def Let_def)
  obtain c4 where c4: "?b = ?b4 @ c4"
    by (simp add: putDouble_def putU64_def Let_def)
  have g1: "getString ?b 0 = Some (nm, 2 + length nm)"
    unfolding c1 using getString_putString [OF assms(1), of "[]" c1] by simp
  have g2: "getI32 ?b (2 + length nm) = Some (n, 6 + length nm)"
    unfolding c2 using getI32_putI32 [of ?b1 n c2] by (simp add: length_putString assms(1))
  have g3: "getPassword16 ?b (6 + length nm) = Some (pw, 22 + length nm)"
    unfolding c3 using getPassword16_putPassword16 [OF assms(2,3), of ?b2 c3]
    by (simp add: length_putString length_putI32 assms(1))
  have g4: "getU16 ?b (22 + length nm) = Some (cur, 24 + length nm)"
    unfolding c4 using getU16_putU16 [of ?b3 cur c4]
    by (simp add: length_putString length_putI32 length_putPassword16 assms(1))
  have g5: "getDouble ?b (24 + length nm) = Some (x, 32 + length nm)"
    using getDouble_putDouble [of ?b4 x "[]"]
    by (simp add: length_putString length_putI32 length_putPassword16 length_putU16 assms(1))
  show ?thesis
    by (simp only: parse_amount_def g1 g2 g3 g4 g5 option.case prod.case)
qed

lemma parse_TRANSFER_build:
  assumes "length nm \<le> 65535" and "length pw \<le> 16" and "pw = [] \<or> last pw \<noteq> 0"
  shows "parse_TRANSFER
           (putDouble (putU16 (putI32 (putPassword16 (putI32 (putString [] nm) n) pw) k) cur) x)
           = Some (nm, n, pw, k, cur, x)"
proof -
  let ?b1 = "putString [] nm"
  let ?b2 = "putI32 ?b1 n"
  let ?b3 = "putPassword16 ?b2 pw"
  let ?b4 = "putI32 ?b3 k"
  let ?b5 = "putU16 ?b4 cur"
  let ?b = "putDouble ?b5 x"
  obtain c1 where c1: "?b = ?b1 @ c1"
    by (simp add: putPassword16_def putI32_def putU32_def putU16_def putDouble_def putU64_def
        Let_def)
  obtain c2 where c2: "?b = ?b2 @ c2"
    by (simp add: putPassword16_def putI32_def putU32_def putU16_def putDouble_def putU64_def
        Let_def)
  obtain c3 where c3: "?b = ?b3 @ c3"
    by (simp add: putI32_def putU32_def putU16_def putDouble_def putU64_def Let_def)
  obtain c4 where c4: "?b = ?b4 @ c4"
    by (simp add: putU16_def putDouble_def putU64_def Let_def)
  obtain c5 where c5: "?b = ?b5 @ c5"
    by (simp add: putDouble_def putU64_def Let_def)
  have g1: "getString ?b 0 = Some (nm, 2 + length nm)"
    unfolding c1 using getString_putString [OF assms(1), of "[]" c1] by simp
  have g2: "getI32 ?b (2 + length nm) = Some (n, 6 + length nm)"
    unfolding c2 using getI32_putI32 [of ?b1 n c2] by (simp add: length_putString assms(1))
  have g3: "getPassword16 ?b (6 + length nm) = Some (pw, 22 + length nm)"
    unfolding c3 using getPassword16_putPassword16 [OF assms(2,3), of ?b2 c3]
    by (simp add: length_putString length_putI32 assms(1))
  have g4: "getI32 ?b (22 + length nm) = Some (k, 26 + length nm)"
    unfolding c4 using getI32_putI32 [of ?b3 k c4]
    by (simp add: length_putString length_putI32 length_putPassword16 assms(1))
  have g5: "getU16 ?b (26 + length nm) = Some (cur, 28 + length nm)"
    unfolding c5 using getU16_putU16 [of ?b4 cur c5]
    by (simp add: length_putString length_putI32 length_putPassword16 assms(1))
  have g6: "getDouble ?b (28 + length nm) = Some (x, 36 + length nm)"
    using getDouble_putDouble [of ?b5 x "[]"]
    by (simp add: length_putString length_putI32 length_putPassword16 length_putU16 assms(1))
  show ?thesis
    by (simp only: parse_TRANSFER_def g1 g2 g3 g4 g5 g6 option.case prod.case)
qed

subsection \<open>What the dispatcher answers\<close>

lemmas OpCode_defs = OpCode_OPEN_def OpCode_CLOSE_def OpCode_DEPOSIT_def OpCode_WITHDRAW_def
  OpCode_TRANSFER_def OpCode_QUERY_BALANCE_def OpCode_MONITOR_REGISTER_def

lemma dispatch_OPEN_failed:
  assumes "opCode (h req) = OpCode_OPEN" and "parse_OPEN (body req) = Some (nm, pw, c, x)"
    and "openAccount bk nm pw c x = (bk', Inl e)"
  shows "dispatch fmt bk mons clientAddr tm req = (bk, mons, error_reply req e, [])"
proof -
  have "bk' = bk"
    using openAccount_err [OF assms(3)] by simp
  then show ?thesis
    using assms
    by (simp add: dispatch_def handle_OPEN_def reply_skeleton_def set_status_def
        error_reply_def Let_def)
qed

lemma dispatch_CLOSE_failed:
  assumes "opCode (h req) = OpCode_CLOSE" and "parse_account (body req) = Some (nm, n, pw)"
    and "closeAccount bk nm n pw = (bk', Inl e)"
  shows "dispatch fmt bk mons clientAddr tm req = (bk, mons, error_reply req e, [])"
proof -
  have "bk' = bk"
    using closeAccount_err [OF assms(3)] by simp
  then show ?thesis
    using assms
    by (simp add: dispatch_def handle_CLOSE_def reply_skeleton_def set_status_def
        error_reply_def Let_def OpCode_defs)
qed

lemma dispatch_DEPOSIT_failed:
  assumes "opCode (h req) = OpCode_DEPOSIT"
    and "parse_amount (body req) = Some (nm, n, pw, c, x)"
    and "deposit bk nm n pw c x = (bk', Inl e)"
  shows "dispatch fmt bk mons clientAddr tm req = (bk, mons, error_reply req e, [])"
proof -
  have "bk' = bk"
    using deposit_err [OF assms(3)] by simp
  then show ?thesis
    using assms
    by (simp add: dispatch_def handle_DEPOSIT_def reply_skeleton_def set_status_def
        error_reply_def Let_def OpCode_defs)
qed

lemma dispatch_WITHDRAW_failed:
  assumes "opCode (h req) = OpCode_WITHDRAW"
    and "parse_amount (body req) = Some (nm, n, pw, c, x)"
    and "withdraw bk nm n pw c x = (bk', Inl e)"
  shows "dispatch fmt bk mons clientAddr tm req = (bk, mons, error_reply req e, [])"
proof -
  have "bk' = bk"
    using withdraw_err [OF assms(3)] by simp
  then show ?thesis
    using assms
    by (simp add: dispatch_def handle_WITHDRAW_def reply_skeleton_def set_status_def
        error_reply_def Let_def OpCode_defs)
qed

lemma dispatch_TRANSFER_failed:
  assumes "opCode (h req) = OpCode_TRANSFER"
    and "parse_TRANSFER (body req) = Some (nm, n, pw, k, c, x)"
    and "transfer bk nm n pw k c x = (bk', Inl e)"
  shows "dispatch fmt bk mons clientAddr tm req = (bk, mons, error_reply req e, [])"
proof -
  have "bk' = bk"
    using transfer_err [OF assms(3)] by simp
  then show ?thesis
    using assms
    by (simp add: dispatch_def handle_TRANSFER_def reply_skeleton_def set_status_def
        error_reply_def Let_def OpCode_defs)
qed

lemma dispatch_QUERY_BALANCE_failed:
  assumes "opCode (h req) = OpCode_QUERY_BALANCE"
    and "parse_account (body req) = Some (nm, n, pw)"
    and "queryBalance bk nm n pw = (bk', Inl e)"
  shows "dispatch fmt bk mons clientAddr tm req = (bk, mons, error_reply req e, [])"
proof -
  have "bk' = bk"
    using queryBalance_same [OF assms(3)] by simp
  then show ?thesis
    using assms
    by (simp add: dispatch_def handle_QUERY_BALANCE_def reply_skeleton_def set_status_def
        error_reply_def Let_def OpCode_defs)
qed

lemma dispatch_OPEN_ok:
  assumes "opCode (h req) = OpCode_OPEN" and "parse_OPEN (body req) = Some (nm, pw, c, x)"
    and "1 \<le> length pw" and "length pw \<le> 16"
  shows "dispatch fmt bk mons peer t req =
           (bk\<lparr>nextAccNo := nextAccNo bk + 1,
               accounts := (accounts bk)(nextAccNo bk \<mapsto>
                 \<lparr>accountNo = nextAccNo bk, name = nm, password = pw, currency = c,
                  balance = x, closed = False\<rparr>)\<rparr>,
            mons,
            \<lparr>h = \<lparr>magic = MAGIC, version = VERSION, msgType = MsgType_Reply,
                   opCode = OpCode_OPEN, flags = flags (h req), status = 0,
                   requestId = requestId (h req), bodyLen = 12\<rparr>,
             body = putDouble (putI32 [] (nextAccNo bk)) x\<rparr>,
            sendUpdateCallback mons OpCode_OPEN (nextAccNo bk) c x (str ''OPEN by '' @ nm))"
  using assms
  by (simp add: dispatch_def handle_OPEN_def reply_skeleton_def openAccount_ok Let_def
      putDouble_def putI32_def putU32_def putU64_def)

lemma scenario_bank:
  "fst (openAccount (fst (openAccount Bank_init [97] [112] 0 0x4069000000000000)) [98] [113] 0 0)
     = \<lparr>nextAccNo = 10003,
        accounts = [10001 \<mapsto> \<lparr>accountNo = 10001, name = [97], password = [112], currency = 0,
                               balance = 0x4069000000000000, closed = False\<rparr>,
                    10002 \<mapsto> \<lparr>accountNo = 10002, name = [98], password = [113], currency = 0,
                               balance = 0, closed = False\<rparr>]\<rparr>"
  by (simp add: openAccount_def Bank_init_def Let_def)

subsection \<open>The OPEN dialogue of the client\<close>

lemma handleOpen_password_Got:
  "handleOpen_password stdin = Got pw rest \<Longrightarrow> 1 \<le> length pw \<and> length pw \<le> 16"
  by (induction stdin rule: handleOpen_password.induct)
    (auto split: if_splits list.splits simp: Suc_le_eq)

lemma handleOpen_Calls:
  assumes "handleOpen stod stdin = Calls op bd"
  shows "op = OpCode_OPEN
         \<and> (\<exists>nm pw cur v. bd = putDouble (putU16 (putPassword16 (putString [] nm) pw) cur) v
               \<and> \<not> d_less v d_zero \<and> 1 \<le> length pw \<and> length pw \<le> 16)"
proof -
  obtain nm rest1 where r: "readLine stdin = (nm, rest1)"
    by (cases "readLine stdin")
  from assms r obtain pw rest2 where p: "handleOpen_password rest1 = Got pw rest2"
    by (auto simp: handleOpen_def split: if_splits prompted.splits)
  from assms r p obtain cur rest3 where c: "readCurrency rest2 = Got cur rest3"
    by (auto simp: handleOpen_def split: if_splits prompted.splits)
  from assms r p c obtain v where v: "readDouble stod rest3 = Some v"
    by (auto simp: handleOpen_def split: if_splits option.splits)
  from assms r p c v have "\<not> d_less v d_zero"
    and "op = OpCode_OPEN"
    and "bd = putDouble (putU16 (putPassword16 (putString [] nm) pw) cur) v"
    by (auto simp: handleOpen_def Let_def split: if_splits)
  with handleOpen_password_Got [OF p] show ?thesis
    by blast
qed

lemma handleOpen_script:
  assumes "nm \<noteq> []" "nm \<noteq> str ''q''" "nm \<noteq> str ''Q''"
    and "pw \<noteq> str ''q''" "pw \<noteq> str ''Q''" "1 \<le> length pw" "length pw \<le> 16"
    and "line \<noteq> []" "line \<noteq> str ''q''" "line \<noteq> str ''Q''"
    and "stod line = Some v"
  shows "handleOpen stod (nm # pw # pw # str ''CNY'' # line # rest) =
           (if d_less v d_zero then Returned
            else Calls OpCode_OPEN (putDouble (putU16 (putPassword16 (putString [] nm) pw) 0) v))"
proof -
  have p: "handleOpen_password (pw # pw # str ''CNY'' # line # rest)
             = Got pw (str ''CNY'' # line # rest)"
    using assms(4-7) by auto
  have c: "readCurrency (str ''CNY'' # line # rest) = Got 0 (line # rest)"
    by (simp add: str_def)
  have d: "readDouble stod (line # rest) = Some v"
    using assms(8-11) by (simp add: readDouble_def readLine_def)
  show ?thesis
    using assms(1-3)
    by (simp add: handleOpen_def readLine_def p c d Let_def
        del: handleOpen_password.simps readCurrency.simps)
qed

subsection \<open>Claims about failing operations\<close>

text \<open>
  Claim C7. When one of the six banking operations returns an error, the bank it leaves
  is the bank it was given (every account and the account-number allocator included), and
  the error is not OK. When the dispatcher has parsed the request of one of these
  operations and the operation fails with the error \<open>e\<close>, what the dispatcher returns is
  the bank and the monitor list as they were, no callback, and the reply whose status is
  \<open>e\<close> and whose body is empty. And whenever the dispatcher's reply has a status other than
  OK, for whatever reason, the bank and the monitors are unchanged, the reply body is empty
  with \<open>bodyLen\<close> 0, and no callback was sent.
\<close>

theorem failed_operation_changes_nothing:
  "(openAccount bk nm pw c x = (bk', Inl e) \<longrightarrow> bk' = bk \<and> e \<noteq> OK)
   \<and> (closeAccount bk nm n pw = (bk', Inl e) \<longrightarrow> bk' = bk \<and> e \<noteq> OK)
   \<and> (deposit bk nm n pw c x = (bk', Inl e) \<longrightarrow> bk' = bk \<and> e \<noteq> OK)
   \<and> (withdraw bk nm n pw c x = (bk', Inl e) \<longrightarrow> bk' = bk \<and> e \<noteq> OK)
   \<and> (transfer bk nm n pw k c x = (bk', Inl e) \<longrightarrow> bk' = bk \<and> e \<noteq> OK)
   \<and> (queryBalance bk nm n pw = (bk', Inl e) \<longrightarrow> bk' = bk \<and> e \<noteq> OK)
   \<and> (opCode (h req) = OpCode_OPEN \<and> parse_OPEN (body req) = Some (nm, pw, c, x)
        \<and> openAccount bk nm pw c x = (bk', Inl e)
      \<longrightarrow> dispatch fmt bk mons clientAddr tm req = (bk, mons, error_reply req e, []))
   \<and> (opCode (h req) = OpCode_CLOSE \<and> parse_account (body req) = Some (nm, n, pw)
        \<and> closeAccount bk nm n pw = (bk', Inl e)
      \<longrightarrow> dispatch fmt bk mons clientAddr tm req = (bk, mons, error_reply req e, []))
   \<and> (opCode (h req) = OpCode_DEPOSIT \<and> parse_amount (body req) = Some (nm, n, pw, c, x)
        \<and> deposit bk nm n pw c x = (bk', Inl e)
      \<longrightarrow> dispatch fmt bk mons clientAddr tm req = (bk, mons, error_reply req e, []))
   \<and> (opCode (h req) = OpCode_WITHDRAW \<and> parse_amount (body req) = Some (nm, n, pw, c, x)
        \<and> withdraw bk nm n pw c x = (bk', Inl e)
      \<longrightarrow> dispatch fmt bk mons clientAddr tm req = (bk, mons, error_reply req e, []))
   \<and> (opCode (h req) = OpCode_TRANSFER \<and> parse_TRANSFER (body req) = Some (nm, n, pw, k, c, x)
        \<and> transfer bk nm n pw k c x = (bk', Inl e)
      \<longrightarrow> dispatch fmt bk mons clientAddr tm req = (bk, mons, error_reply req e, []))
   \<and> (opCode (h req) = OpCode_QUERY_BALANCE \<and> parse_account (body req) = Some (nm, n, pw)
        \<and> queryBalance bk nm n pw = (bk', Inl e)
      \<longrightarrow> dispatch fmt bk mons clientAddr tm req = (bk, mons, error_reply req e, []))
   \<and> (dispatch fmt bk mons clientAddr tm req = (bk', mons', rep, cbs)
        \<and> status (h rep) \<noteq> status_u16 OK
      \<longrightarrow> bk' = bk \<and> mons' = mons \<and> body rep = [] \<and> bodyLen (h rep) = 0 \<and> cbs = [])"
proof (intro conjI impI)
  assume "openAccount bk nm pw c x = (bk', Inl e)"
  from openAccount_err [OF this] show "bk' = bk" "e \<noteq> OK" by simp_all
next
  assume "closeAccount bk nm n pw = (bk', Inl e)"
  from closeAccount_err [OF this] show "bk' = bk" "e \<noteq> OK" by simp_all
next
  assume "deposit bk nm n pw c x = (bk', Inl e)"
  from deposit_err [OF this] show "bk' = bk" "e \<noteq> OK" by simp_all
next
  assume "withdraw bk nm n pw c x = (bk', Inl e)"
  from withdraw_err [OF this] show "bk' = bk" "e \<noteq> OK" by simp_all
next
  assume "transfer bk nm n pw k c x = (bk', Inl e)"
  from transfer_err [OF this] show "bk' = bk" "e \<noteq> OK" by simp_all
next
  assume "queryBalance bk nm n pw = (bk', Inl e)"
  from queryBalance_same [OF this] show "bk' = bk" "e \<noteq> OK" by auto
next
  assume "opCode (h req) = OpCode_OPEN \<and> parse_OPEN (body req) = Some (nm, pw, c, x)
        \<and> openAccount bk nm pw c x = (bk', Inl e)"
  then show "dispatch fmt bk mons clientAddr tm req = (bk, mons, error_reply req e, [])"
    by (intro dispatch_OPEN_failed [of req nm pw c x bk bk' e]) simp_all
next
  assume "opCode (h req) = OpCode_CLOSE \<and> parse_account (body req) = Some (nm, n, pw)
        \<and> closeAccount bk nm n pw = (bk', Inl e)"
  then show "dispatch fmt bk mons clientAddr tm req = (bk, mons, error_reply req e, [])"
    by (intro dispatch_CLOSE_failed [of req nm n pw bk bk' e]) simp_all
next
  assume "opCode (h req) = OpCode_DEPOSIT \<and> parse_amount (body req) = Some (nm, n, pw, c, x)
        \<and> deposit bk nm n pw c x = (bk', Inl e)"
  then show "dispatch fmt bk mons clientAddr tm req = (bk, mons, error_reply req e, [])"
    by (intro dispatch_DEPOSIT_failed [of req nm n pw c x bk bk' e]) simp_all
next
  assume "opCode (h req) = OpCode_WITHDRAW \<and> parse_amount (body req) = Some (nm, n, pw, c, x)
        \<and> withdraw bk nm n pw c x = (bk', Inl e)"
  then show "dispatch fmt bk mons clientAddr tm req = (bk, mons, error_reply req e, [])"
    by (intro dispatch_WITHDRAW_failed [of req nm n pw c x bk bk' e]) simp_all
next
  assume "opCode (h req) = OpCode_TRANSFER
        \<and> parse_TRANSFER (body req) = Some (nm, n, pw, k, c, x)
        \<and> transfer bk nm n pw k c x = (bk', Inl e)"
  then show "dispatch fmt bk mons clientAddr tm req = (bk, mons, error_reply req e, [])"
    by (intro dispatch_TRANSFER_failed [of req nm n pw k c x bk bk' e]) simp_all
next
  assume "opCode (h req) = OpCode_QUERY_BALANCE \<and> parse_account (body req) = Some (nm, n, pw)
        \<and> queryBalance bk nm n pw = (bk', Inl e)"
  then show "dispatch fmt bk mons clientAddr tm req = (bk, mons, error_reply req e, [])"
    by (intro dispatch_QUERY_BALANCE_failed [of req nm n pw bk bk' e]) simp_all
next
  assume a: "dispatch fmt bk mons clientAddr tm req = (bk', mons', rep, cbs)
        \<and> status (h rep) \<noteq> status_u16 OK"
  from dispatch_error [OF a [THEN conjunct1] a [THEN conjunct2]]
  show "bk' = bk" "mons' = mons" "body rep = []" "bodyLen (h rep) = 0" "cbs = []"
    by simp_all
qed

text \<open>
  The six failures on a bank that holds two accounts (balances 200.0 and 0.0) with one
  monitor registered: OPEN with an empty password, CLOSE with a wrong password, DEPOSIT in
  the wrong currency, WITHDRAW of more than the balance, TRANSFER to a missing account and
  QUERY\_BALANCE under a wrong name.
\<close>

theorem failed_operation_changes_nothing_witness:
  "(let bk = fst (openAccount (fst (openAccount Bank_init [97] [112] 0 0x4069000000000000)) [98] [113] 0 0);
        mons = [\<lparr>addr = \<lparr>sin_addr = 0x7F000001, sin_port = 6000\<rparr>, m_expireAt = 60000000000\<rparr>];
        peer = \<lparr>sin_addr = 0x7F000001, sin_port = 5000\<rparr>;
        fmt = (\<lambda>d. []);
        r_open = build_request True 1 OpCode_OPEN
                  (putDouble (putU16 (putPassword16 (putString [] [99]) []) 0) 0x4049000000000000);
        r_close = build_request True 2 OpCode_CLOSE
                  (putPassword16 (putI32 (putString [] [97]) 10001) [120]);
        r_dep = build_request True 3 OpCode_DEPOSIT
                  (putDouble (putU16 (putPassword16 (putI32 (putString [] [97]) 10001) [112]) 1)
                     0x4049000000000000);
        r_wd = build_request True 4 OpCode_WITHDRAW
                  (putDouble (putU16 (putPassword16 (putI32 (putString [] [97]) 10001) [112]) 0)
                     0x407F400000000000);
        r_tr = build_request True 5 OpCode_TRANSFER
                  (putDouble (putU16 (putI32 (putPassword16 (putI32 (putString [] [97]) 10001) [112])
                     10009) 0) 0x4049000000000000);
        r_q = build_request False 6 OpCode_QUERY_BALANCE
                  (putPassword16 (putI32 (putString [] [120]) 10001) [112]);
        run = (\<lambda>req. dispatch fmt bk mons peer 0 req)
    in map_option balance (accounts bk 10001) = Some 0x4069000000000000
       \<and> map_option balance (accounts bk 10002) = Some 0
       \<and> openAccount bk [99] [] 0 0x4049000000000000 = (bk, Inl ERR_PASSWORD_FORMAT)
       \<and> run r_open = (bk, mons, error_reply r_open ERR_PASSWORD_FORMAT, [])
       \<and> closeAccount bk [97] 10001 [120] = (bk, Inl ERR_AUTH)
       \<and> run r_close = (bk, mons, error_reply r_close ERR_AUTH, [])
       \<and> deposit bk [97] 10001 [112] 1 0x4049000000000000 = (bk, Inl ERR_CURRENCY)
       \<and> run r_dep = (bk, mons, error_reply r_dep ERR_CURRENCY, [])
       \<and> withdraw bk [97] 10001 [112] 0 0x407F400000000000 = (bk, Inl ERR_INSUFFICIENT_FUNDS)
       \<and> run r_wd = (bk, mons, error_reply r_wd ERR_INSUFFICIENT_FUNDS, [])
       \<and> transfer bk [97] 10001 [112] 10009 0 0x4049000000000000 = (bk, Inl ERR_NOT_FOUND)
       \<and> run r_tr = (bk, mons, error_reply r_tr ERR_NOT_FOUND, [])
       \<and> queryBalance bk [120] 10001 [112] = (bk, Inl ERR_AUTH)
       \<and> run r_q = (bk, mons, error_reply r_q ERR_AUTH, []))"
proof -
  define bk where "bk = fst (openAccount (fst (openAccount Bank_init [97] [112] 0 0x4069000000000000)) [98] [113] 0 0)"
  define mons where "mons = [\<lparr>addr = \<lparr>sin_addr = 0x7F000001, sin_port = 6000\<rparr>,
      m_expireAt = (60000000000 :: int)\<rparr>]"
  define peer where "peer = \<lparr>sin_addr = 0x7F000001, sin_port = 5000\<rparr>"
  define fmt :: "double \<Rightarrow> bytes" where "fmt = (\<lambda>d. [])"
  define r_open where "r_open = build_request True 1 OpCode_OPEN
      (putDouble (putU16 (putPassword16 (putString [] [99]) []) 0) 0x4049000000000000)"
  define r_close where "r_close = build_request True 2 OpCode_CLOSE
      (putPassword16 (putI32 (putString [] [97]) 10001) [120])"
  define r_dep where "r_dep = build_request True 3 OpCode_DEPOSIT
      (putDouble (putU16 (putPassword16 (putI32 (putString [] [97]) 10001) [112]) 1)
         0x4049000000000000)"
  define r_wd where "r_wd = build_request True 4 OpCode_WITHDRAW
      (putDouble (putU16 (putPassword16 (putI32 (putString [] [97]) 10001) [112]) 0)
         0x407F400000000000)"
  define r_tr where "r_tr = build_request True 5 OpCode_TRANSFER
      (putDouble (putU16 (putI32 (putPassword16 (putI32 (putString [] [97]) 10001) [112])
         10009) 0) 0x4049000000000000)"
  define r_q where "r_q = build_request False 6 OpCode_QUERY_BALANCE
      (putPassword16 (putI32 (putString [] [120]) 10001) [112])"
  have bk: "bk = \<lparr>nextAccNo = 10003,
        accounts = [10001 \<mapsto> \<lparr>accountNo = 10001, name = [97], password = [112], currency = 0,
                               balance = 0x4069000000000000, closed = False\<rparr>,
                    10002 \<mapsto> \<lparr>accountNo = 10002, name = [98], password = [113], currency = 0,
                               balance = 0, closed = False\<rparr>]\<rparr>"
    unfolding bk_def by (rule scenario_bank)
  have b: "map_option balance (accounts bk 10001) = Some 0x4069000000000000"
    "map_option balance (accounts bk 10002) = Some 0"
    by (simp_all add: bk)
  note t = failed_operation_changes_nothing [where bk = bk and bk' = bk and mons = mons
      and clientAddr = peer and tm = 0 and fmt = fmt and mons' = mons and cbs = "[]"]
  have g: "d_greater 0x407F400000000000 d_zero"
    by (simp add: d_greater_def d_less_def d_isnan_def d_exp_def d_frac_def d_val_def
        d_sign_def d_mag_def d_zero_def)
  have l: "d_less 0x4069000000000000 0x407F400000000000"
    by (simp add: d_less_def d_isnan_def d_exp_def d_frac_def d_val_def d_sign_def d_mag_def)
  have f_open: "openAccount bk [99] [] 0 0x4049000000000000 = (bk, Inl ERR_PASSWORD_FORMAT)"
    by (simp add: openAccount_def)
  have f_close: "closeAccount bk [97] 10001 [120] = (bk, Inl ERR_AUTH)"
    by (simp add: bk closeAccount_def authMatch_def)
  have f_dep: "deposit bk [97] 10001 [112] 1 0x4049000000000000 = (bk, Inl ERR_CURRENCY)"
    by (simp add: bk deposit_def authMatch_def)
  have f_wd: "withdraw bk [97] 10001 [112] 0 0x407F400000000000
      = (bk, Inl ERR_INSUFFICIENT_FUNDS)"
    by (simp add: bk withdraw_def authMatch_def g l)
  have f_tr: "transfer bk [97] 10001 [112] 10009 0 0x4049000000000000 = (bk, Inl ERR_NOT_FOUND)"
    by (simp add: bk transfer_def)
  have f_q: "queryBalance bk [120] 10001 [112] = (bk, Inl ERR_AUTH)"
    by (simp add: bk queryBalance_def authMatch_def)
  have p_open: "opCode (h r_open) = OpCode_OPEN"
    "parse_OPEN (body r_open) = Some ([99], [], 0, 0x4049000000000000)"
    unfolding r_open_def build_request_def by (simp, simp, rule parse_OPEN_build) simp_all
  have p_close: "opCode (h r_close) = OpCode_CLOSE"
    "parse_account (body r_close) = Some ([97], 10001, [120])"
    unfolding r_close_def build_request_def by (simp, simp, rule parse_account_build) simp_all
  have p_dep: "opCode (h r_dep) = OpCode_DEPOSIT"
    "parse_amount (body r_dep) = Some ([97], 10001, [112], 1, 0x4049000000000000)"
    unfolding r_dep_def build_request_def by (simp, simp, rule parse_amount_build) simp_all
  have p_wd: "opCode (h r_wd) = OpCode_WITHDRAW"
    "parse_amount (body r_wd) = Some ([97], 10001, [112], 0, 0x407F400000000000)"
    unfolding r_wd_def build_request_def by (simp, simp, rule parse_amount_build) simp_all
  have p_tr: "opCode (h r_tr) = OpCode_TRANSFER"
    "parse_TRANSFER (body r_tr) = Some ([97], 10001, [112], 10009, 0, 0x4049000000000000)"
    unfolding r_tr_def build_request_def by (simp, simp, rule parse_TRANSFER_build) simp_all
  have p_q: "opCode (h r_q) = OpCode_QUERY_BALANCE"
    "parse_account (body r_q) = Some ([120], 10001, [112])"
    unfolding r_q_def build_request_def by (simp, simp, rule parse_account_build) simp_all
  have d_open: "dispatch fmt bk mons peer 0 r_open
      = (bk, mons, error_reply r_open ERR_PASSWORD_FORMAT, [])"
    using t [where req = r_open and nm = "[99]" and pw = "[]" and c = 0
        and x = "0x4049000000000000" and e = ERR_PASSWORD_FORMAT,
        THEN conjunct2, THEN conjunct2, THEN conjunct2, THEN conjunct2, THEN conjunct2, THEN conjunct2, THEN conjunct1] p_open f_open
    by simp
  have d_close: "dispatch fmt bk mons peer 0 r_close = (bk, mons, error_reply r_close ERR_AUTH, [])"
    using t [where req = r_close and nm = "[97]" and n = 10001 and pw = "[120]"
        and e = ERR_AUTH,
        THEN conjunct2, THEN conjunct2, THEN conjunct2, THEN conjunct2, THEN conjunct2, THEN conjunct2, THEN conjunct2, THEN conjunct1] p_close f_close
    by simp
  have d_dep: "dispatch fmt bk mons peer 0 r_dep = (bk, mons, error_reply r_dep ERR_CURRENCY, [])"
    using t [where req = r_dep and nm = "[97]" and n = 10001 and pw = "[112]" and c = 1
        and x = "0x4049000000000000" and e = ERR_CURRENCY,
        THEN conjunct2, THEN conjunct2, THEN conjunct2, THEN conjunct2, THEN conjunct2, THEN conjunct2, THEN conjunct2, THEN conjunct2, THEN conjunct1] p_dep f_dep
    by simp
  have d_wd: "dispatch fmt bk mons peer 0 r_wd
      = (bk, mons, error_reply r_wd ERR_INSUFFICIENT_FUNDS, [])"
    using t [where req = r_wd and nm = "[97]" and n = 10001 and pw = "[112]" and c = 0
        and x = "0x407F400000000000" and e = ERR_INSUFFICIENT_FUNDS,
        THEN conjunct2, THEN conjunct2, THEN conjunct2, THEN conjunct2, THEN conjunct2, THEN conjunct2, THEN conjunct2, THEN conjunct2, THEN conjunct2, THEN conjunct1] p_wd f_wd
    by simp
  have d_tr: "dispatch fmt bk mons peer 0 r_tr = (bk, mons, error_reply r_tr ERR_NOT_FOUND, [])"
    using t [where req = r_tr and nm = "[97]" and n = 10001 and pw = "[112]" and k = 10009
        and c = 0 and x = "0x4049000000000000" and e = ERR_NOT_FOUND,
        THEN conjunct2, THEN conjunct2, THEN conjunct2, THEN conjunct2, THEN conjunct2, THEN conjunct2, THEN conjunct2, THEN conjunct2, THEN conjunct2, THEN conjunct2, THEN conjunct1] p_tr f_tr
    by simp
  have d_q: "dispatch fmt bk mons peer 0 r_q = (bk, mons, error_reply r_q ERR_AUTH, [])"
    using t [where req = r_q and nm = "[120]" and n = 10001 and pw = "[112]" and e = ERR_AUTH,
        THEN conjunct2, THEN conjunct2, THEN conjunct2, THEN conjunct2, THEN conjunct2, THEN conjunct2, THEN conjunct2, THEN conjunct2, THEN conjunct2, THEN conjunct2, THEN conjunct2, THEN conjunct1] p_q f_q
    by simp
  from b f_open d_open f_close d_close f_dep d_dep f_wd d_wd f_tr d_tr f_q d_q show ?thesis
    unfolding Let_def bk_def [symmetric] mons_def [symmetric] peer_def [symmetric]
      fmt_def [symmetric] r_open_def [symmetric] r_close_def [symmetric] r_dep_def [symmetric]
      r_wd_def [symmetric] r_tr_def [symmetric] r_q_def [symmetric]
    by (intro conjI)
qed

text \<open>
  Claim C8, as amended. On an account number that has no record or whose record is closed,
  CLOSE, DEPOSIT, WITHDRAW and QUERY\_BALANCE return ERR\_NOT\_FOUND and leave the bank
  unchanged, and so does TRANSFER when that number is its source or its destination and
  the two numbers differ. TRANSFER with equal source and destination returns
  ERR\_BAD\_REQUEST before any lookup. In every case the result is the same for a closed
  account as for a missing one.
\<close>

theorem closed_account_like_missing:
  "accounts bk n = None \<or> (\<exists>a. accounts bk n = Some a \<and> closed a) \<Longrightarrow>
     closeAccount bk nm n pw = (bk, Inl ERR_NOT_FOUND)
     \<and> deposit bk nm n pw c amt = (bk, Inl ERR_NOT_FOUND)
     \<and> withdraw bk nm n pw c amt = (bk, Inl ERR_NOT_FOUND)
     \<and> queryBalance bk nm n pw = (bk, Inl ERR_NOT_FOUND)
     \<and> (n \<noteq> k \<longrightarrow> transfer bk nm n pw k c amt = (bk, Inl ERR_NOT_FOUND)
                 \<and> transfer bk nm k pw n c amt = (bk, Inl ERR_NOT_FOUND))
     \<and> transfer bk nm n pw n c amt = (bk, Inl ERR_BAD_REQUEST)"
  by (simp add: absent_or_closed_ops)

lemma closed_bank:
  "fst (closeAccount (fst (openAccount Bank_init [97] [112] 0 0)) [97] 10001 [112])
     = \<lparr>nextAccNo = 10002,
        accounts = [10001 \<mapsto> \<lparr>accountNo = 10001, name = [97], password = [112], currency = 0,
                               balance = 0, closed = True\<rparr>]\<rparr>"
  by (simp add: openAccount_def closeAccount_def Bank_init_def authMatch_def Let_def)

theorem closed_account_like_missing_witness:
  "(let bkc = fst (closeAccount (fst (openAccount Bank_init [97] [112] 0 0)) [97] 10001 [112])
    in (\<exists>a. accounts bkc 10001 = Some a \<and> closed a)
       \<and> deposit bkc [97] 10001 [112] 0 0x3FF0000000000000 = (bkc, Inl ERR_NOT_FOUND)
       \<and> queryBalance bkc [97] 10001 [112] = (bkc, Inl ERR_NOT_FOUND))
   \<and> accounts Bank_init 10001 = None
   \<and> deposit Bank_init [97] 10001 [112] 0 0x3FF0000000000000 = (Bank_init, Inl ERR_NOT_FOUND)
   \<and> queryBalance Bank_init [97] 10001 [112] = (Bank_init, Inl ERR_NOT_FOUND)"
proof -
  let ?bkc = "fst (closeAccount (fst (openAccount Bank_init [97] [112] 0 0)) [97] 10001 [112])"
  have c: "\<exists>a. accounts ?bkc 10001 = Some a \<and> closed a"
    by (simp add: closed_bank)
  have m: "accounts Bank_init 10001 = None"
    by (simp add: Bank_init_def)
  show ?thesis
    using closed_account_like_missing [of ?bkc 10001 "[97]" "[112]" 0 "0x3FF0000000000000" 10001]
      closed_account_like_missing [of Bank_init 10001 "[97]" "[112]" 0 "0x3FF0000000000000" 10001]
      c m
    by (simp add: Let_def)
qed

text \<open>
  Claim C8 as stated (status ERR\_NOT\_FOUND for every operation on a closed account)
  fails for a TRANSFER from a closed account to itself: the status is ERR\_BAD\_REQUEST.
\<close>

theorem closed_account_transfer_self_counterexample:
  "(let bkc = fst (closeAccount (fst (openAccount Bank_init [97] [112] 0 0)) [97] 10001 [112])
    in (\<exists>a. accounts bkc 10001 = Some a \<and> closed a)
       \<and> snd (transfer bkc [97] 10001 [112] 10001 0 0x3FF0000000000000) = Inl ERR_BAD_REQUEST
       \<and> snd (transfer bkc [97] 10001 [112] 10001 0 0x3FF0000000000000) \<noteq> Inl ERR_NOT_FOUND)"
  by (simp add: closed_bank transfer_def Let_def)

text \<open>
  Claim C10. For a password of 1 to 16 bytes \<open>openAccount\<close> succeeds for every double
  \<open>initial\<close>, negative ones included, and the new account's balance is that value. For an
  empty password or one longer than 16 bytes it returns ERR\_PASSWORD\_FORMAT and leaves
  the bank as it was, and that is its only error. The dispatcher adds no check: an OPEN
  request that parses, with such a password, opens the account with the amount received
  and replies OK. The check against a negative initial balance is the client's: whenever
  \<open>handleOpen\<close> calls \<open>call\<close> the amount in the body is not below zero, and a dialogue that
  enters a name, a password twice, CNY and an amount returns without a request exactly
  when the amount is negative.
\<close>

theorem openAccount_no_lower_bound:
  "(1 \<le> length pw16 \<and> length pw16 \<le> 16 \<longrightarrow>
      (\<exists>bk'. openAccount bk nm pw16 c initial = (bk', Inr (nextAccNo bk, initial))
             \<and> map_option balance (accounts bk' (nextAccNo bk)) = Some initial))
   \<and> (length pw16 = 0 \<or> 16 < length pw16 \<longrightarrow>
         openAccount bk nm pw16 c initial = (bk, Inl ERR_PASSWORD_FORMAT))
   \<and> (\<forall>bk' e. openAccount bk nm pw16 c initial = (bk', Inl e) \<longrightarrow>
         e = ERR_PASSWORD_FORMAT \<and> (length pw16 = 0 \<or> 16 < length pw16))
   \<and> (opCode (h req) = OpCode_OPEN \<and> parse_OPEN (body req) = Some (nm, pw16, c, initial)
        \<and> 1 \<le> length pw16 \<and> length pw16 \<le> 16 \<longrightarrow>
         (\<exists>rep cbs. dispatch fmt bk mons peer t req
                       = (fst (openAccount bk nm pw16 c initial), mons, rep, cbs)
              \<and> status (h rep) = status_u16 OK
              \<and> body rep = putDouble (putI32 [] (nextAccNo bk)) initial))
   \<and> (\<forall>op bd. handleOpen stod stdin = Calls op bd \<longrightarrow>
         op = OpCode_OPEN
         \<and> (\<exists>nm' pw' cur v. bd = putDouble (putU16 (putPassword16 (putString [] nm') pw') cur) v
               \<and> \<not> d_less v d_zero \<and> 1 \<le> length pw' \<and> length pw' \<le> 16))
   \<and> (nm \<noteq> [] \<and> nm \<noteq> str ''q'' \<and> nm \<noteq> str ''Q'' \<and> pw16 \<noteq> str ''q'' \<and> pw16 \<noteq> str ''Q''
        \<and> 1 \<le> length pw16 \<and> length pw16 \<le> 16
        \<and> line \<noteq> [] \<and> line \<noteq> str ''q'' \<and> line \<noteq> str ''Q'' \<and> stod line = Some initial \<longrightarrow>
         handleOpen stod (nm # pw16 # pw16 # str ''CNY'' # line # rest) =
           (if d_less initial d_zero then Returned
            else Calls OpCode_OPEN
                   (putDouble (putU16 (putPassword16 (putString [] nm) pw16) 0) initial)))"
proof (intro conjI allI impI)
  assume "1 \<le> length pw16 \<and> length pw16 \<le> 16"
  then show "\<exists>bk'. openAccount bk nm pw16 c initial = (bk', Inr (nextAccNo bk, initial))
             \<and> map_option balance (accounts bk' (nextAccNo bk)) = Some initial"
    by (simp add: openAccount_ok)
next
  assume "length pw16 = 0 \<or> 16 < length pw16"
  then show "openAccount bk nm pw16 c initial = (bk, Inl ERR_PASSWORD_FORMAT)"
    by (auto simp: openAccount_def)
next
  fix bk' e
  assume a: "openAccount bk nm pw16 c initial = (bk', Inl e)"
  from openAccount_err [OF a] show "e = ERR_PASSWORD_FORMAT" by simp
  from openAccount_err [OF a] show "length pw16 = 0 \<or> 16 < length pw16" by simp
next
  assume a: "opCode (h req) = OpCode_OPEN \<and> parse_OPEN (body req) = Some (nm, pw16, c, initial)
        \<and> 1 \<le> length pw16 \<and> length pw16 \<le> 16"
  then have "dispatch fmt bk mons peer t req =
           (bk\<lparr>nextAccNo := nextAccNo bk + 1,
               accounts := (accounts bk)(nextAccNo bk \<mapsto>
                 \<lparr>accountNo = nextAccNo bk, name = nm, password = pw16, currency = c,
                  balance = initial, closed = False\<rparr>)\<rparr>,
            mons,
            \<lparr>h = \<lparr>magic = MAGIC, version = VERSION, msgType = MsgType_Reply,
                   opCode = OpCode_OPEN, flags = flags (h req), status = 0,
                   requestId = requestId (h req), bodyLen = 12\<rparr>,
             body = putDouble (putI32 [] (nextAccNo bk)) initial\<rparr>,
            sendUpdateCallback mons OpCode_OPEN (nextAccNo bk) c initial (str ''OPEN by '' @ nm))"
    by (intro dispatch_OPEN_ok) simp_all
  then show "\<exists>rep cbs. dispatch fmt bk mons peer t req
                       = (fst (openAccount bk nm pw16 c initial), mons, rep, cbs)
              \<and> status (h rep) = status_u16 OK
              \<and> body rep = putDouble (putI32 [] (nextAccNo bk)) initial"
    using a by (simp add: openAccount_ok)
next
  fix op bd
  assume a: "handleOpen stod stdin = Calls op bd"
  from handleOpen_Calls [OF a] show "op = OpCode_OPEN" by simp
  from handleOpen_Calls [OF a]
  show "\<exists>nm' pw' cur v. bd = putDouble (putU16 (putPassword16 (putString [] nm') pw') cur) v
               \<and> \<not> d_less v d_zero \<and> 1 \<le> length pw' \<and> length pw' \<le> 16"
    by simp
next
  assume "nm \<noteq> [] \<and> nm \<noteq> str ''q'' \<and> nm \<noteq> str ''Q'' \<and> pw16 \<noteq> str ''q'' \<and> pw16 \<noteq> str ''Q''
        \<and> 1 \<le> length pw16 \<and> length pw16 \<le> 16
        \<and> line \<noteq> [] \<and> line \<noteq> str ''q'' \<and> line \<noteq> str ''Q'' \<and> stod line = Some initial"
  then show "handleOpen stod (nm # pw16 # pw16 # str ''CNY'' # line # rest) =
           (if d_less initial d_zero then Returned
            else Calls OpCode_OPEN
                   (putDouble (putU16 (putPassword16 (putString [] nm) pw16) 0) initial))"
    by (intro handleOpen_script) simp_all
qed

theorem openAccount_no_lower_bound_witness:
  "(let stod = (\<lambda>l. if l = str ''-1'' then Some 0xBFF0000000000000
                     else if l = str ''5'' then Some 0x4014000000000000 else None);
        peer = \<lparr>sin_addr = 0x7F000001, sin_port = 5000\<rparr>;
        req = build_request True 7 OpCode_OPEN
                (putDouble (putU16 (putPassword16 (putString [] [97]) [112]) 0)
                   0xBFF0000000000000);
        bk1 = \<lparr>nextAccNo = 10002,
               accounts = [10001 \<mapsto> \<lparr>accountNo = 10001, name = [97], password = [112],
                             currency = 0, balance = 0xBFF0000000000000, closed = False\<rparr>]\<rparr>
    in d_less 0xBFF0000000000000 d_zero
       \<and> openAccount Bank_init [97] [112] 0 0xBFF0000000000000
           = (bk1, Inr (10001, 0xBFF0000000000000))
       \<and> openAccount Bank_init [97] [] 0 0xBFF0000000000000
           = (Bank_init, Inl ERR_PASSWORD_FORMAT)
       \<and> openAccount Bank_init [97] (replicate 17 112) 0 0xBFF0000000000000
           = (Bank_init, Inl ERR_PASSWORD_FORMAT)
       \<and> (\<exists>rep cbs. dispatch (\<lambda>d. []) Bank_init [] peer 0 req = (bk1, [], rep, cbs)
             \<and> status (h rep) = status_u16 OK
             \<and> body rep = putDouble (putI32 [] 10001) 0xBFF0000000000000)
       \<and> handleOpen stod [[97], [112], [112], str ''CNY'', str ''-1''] = Returned
       \<and> handleOpen stod [[97], [112], [112], str ''CNY'', str ''5'']
           = Calls OpCode_OPEN
               (putDouble (putU16 (putPassword16 (putString [] [97]) [112]) 0)
                  0x4014000000000000))"
proof -
  define stod :: "bytes \<Rightarrow> double option" where
    "stod = (\<lambda>l. if l = str ''-1'' then Some 0xBFF0000000000000
                 else if l = str ''5'' then Some 0x4014000000000000 else None)"
  define peer where "peer = \<lparr>sin_addr = 0x7F000001, sin_port = 5000\<rparr>"
  define req where "req = build_request True 7 OpCode_OPEN
      (putDouble (putU16 (putPassword16 (putString [] [97]) [112]) 0) 0xBFF0000000000000)"
  define bk1 where "bk1 = \<lparr>nextAccNo = 10002,
      accounts = [10001 \<mapsto> \<lparr>accountNo = 10001, name = [97], password = [112],
                    currency = 0, balance = 0xBFF0000000000000, closed = False\<rparr>]\<rparr>"
  note t = openAccount_no_lower_bound [where bk = Bank_init and nm = "[97]" and c = 0
      and req = req and fmt = "\<lambda>d. []" and mons = "[]" and peer = peer and t = 0
      and stod = stod and stdin = "[]" and rest = "[]"]
  note t1 = t [where ?pw16.0 = "[112]" and initial = "0xBFF0000000000000" and line = "str ''-1''"]
  note t2 = t [where ?pw16.0 = "[]" and initial = "0xBFF0000000000000" and line = "str ''-1''"]
  note t3 = t [where ?pw16.0 = "replicate 17 112" and initial = "0xBFF0000000000000"
      and line = "str ''-1''"]
  note t4 = t [where ?pw16.0 = "[112]" and initial = "0x4014000000000000" and line = "str ''5''"]
  have n: "d_less 0xBFF0000000000000 d_zero"
    by (simp add: d_less_def d_isnan_def d_exp_def d_frac_def d_val_def d_sign_def d_mag_def
        d_zero_def)
  have p: "\<not> d_less 0x4014000000000000 d_zero"
    by (simp add: d_less_def d_isnan_def d_exp_def d_frac_def d_val_def d_sign_def d_mag_def
        d_zero_def)
  have o: "openAccount Bank_init [97] [112] 0 0xBFF0000000000000
             = (bk1, Inr (10001, 0xBFF0000000000000))"
    by (simp add: openAccount_def Bank_init_def Let_def bk1_def)
  have e2: "openAccount Bank_init [97] [] 0 0xBFF0000000000000
             = (Bank_init, Inl ERR_PASSWORD_FORMAT)"
    using t2 [THEN conjunct2, THEN conjunct1] by simp
  have e3: "openAccount Bank_init [97] (replicate 17 112) 0 0xBFF0000000000000
             = (Bank_init, Inl ERR_PASSWORD_FORMAT)"
    using t3 [THEN conjunct2, THEN conjunct1] by simp
  have "parse_OPEN (putDouble (putU16 (putPassword16 (putString [] [97]) [112]) 0)
                      0xBFF0000000000000) = Some ([97], [112], 0, 0xBFF0000000000000)"
    by (rule parse_OPEN_build) simp_all
  then have q: "opCode (h req) = OpCode_OPEN"
    "parse_OPEN (body req) = Some ([97], [112], 0, 0xBFF0000000000000)"
    by (simp_all add: req_def build_request_def)
  have d: "\<exists>rep cbs. dispatch (\<lambda>d. []) Bank_init [] peer 0 req = (bk1, [], rep, cbs)
             \<and> status (h rep) = status_u16 OK
             \<and> body rep = putDouble (putI32 [] 10001) 0xBFF0000000000000"
    using t1 [THEN conjunct2, THEN conjunct2, THEN conjunct2, THEN conjunct1] q o
    by (simp add: Bank_init_def)
  have s: "str ''-1'' \<noteq> []" "str ''-1'' \<noteq> str ''q''" "str ''-1'' \<noteq> str ''Q''"
    "str ''5'' \<noteq> []" "str ''5'' \<noteq> str ''q''" "str ''5'' \<noteq> str ''Q''"
    "[97 :: u8] \<noteq> str ''q''" "[97 :: u8] \<noteq> str ''Q''"
    "[112 :: u8] \<noteq> str ''q''" "[112 :: u8] \<noteq> str ''Q''"
    "stod (str ''-1'') = Some 0xBFF0000000000000" "stod (str ''5'') = Some 0x4014000000000000"
    by (simp_all add: str_def stod_def)
  have h1: "handleOpen stod [[97], [112], [112], str ''CNY'', str ''-1''] = Returned"
    using t1 [THEN conjunct2, THEN conjunct2, THEN conjunct2, THEN conjunct2, THEN conjunct2]
      s n
    by simp
  have h4: "handleOpen stod [[97], [112], [112], str ''CNY'', str ''5'']
           = Calls OpCode_OPEN
               (putDouble (putU16 (putPassword16 (putString [] [97]) [112]) 0)
                  0x4014000000000000)"
    using t4 [THEN conjunct2, THEN conjunct2, THEN conjunct2, THEN conjunct2, THEN conjunct2]
      s p
    by simp
  from n o e2 e3 d h1 h4 show ?thesis
    unfolding Let_def stod_def [symmetric] peer_def [symmetric] req_def [symmetric]
      bk1_def [symmetric]
    by (intro conjI)
qed

section \<open>Properties of the server loop and of the client\<close>

subsection \<open>The version check\<close>

lemma server_step_bad_version:
  assumes "received it = Some (raw, peer)" and "decode raw = Some m" and "version (h m) \<noteq> VERSION"
  shows "server_step fmt st it =
           (st\<lparr>monitors := sweep_monitors (now_top it) (monitors st),
               dedup := sweep_dedup (now_top it) (dedup st)\<rparr>,
            \<lparr>path = (if loss_req it then RequestLost else BadRequest), callbacks = [],
             reply_sent = None\<rparr>)"
  using assms by (simp add: server_step_def Let_def)

text \<open>
  Claim C4, as amended. \<open>decode\<close> fails exactly when the 24-byte header is truncated, the
  magic differs from the constant, or fewer bytes than \<open>bodyLen\<close> follow the header; bytes
  after the declared body are ignored. The version byte is copied into the header and
  not checked by \<open>decode\<close>: it is the server dispatcher that drops a decoded message whose
  version is not 1, without a reply and without touching the bank.
\<close>

theorem decode_rejects_exactly:
  "(decode raw = None \<longleftrightarrow>
      length raw < HEADER_SIZE \<or> be32 raw 0 \<noteq> MAGIC \<or> length raw < HEADER_SIZE + unat (be32 raw 20))
   \<and> (\<forall>m. decode raw = Some m \<longrightarrow>
         version (h m) = raw ! 4 \<and> body m = take (unat (be32 raw 20)) (drop HEADER_SIZE raw))
   \<and> (\<forall>m. decode raw = Some m \<and> version (h m) \<noteq> VERSION \<and> received it = Some (raw, peer) \<longrightarrow>
         path (snd (server_step fmt st it)) = (if loss_req it then RequestLost else BadRequest)
         \<and> reply_sent (snd (server_step fmt st it)) = None
         \<and> bank (fst (server_step fmt st it)) = bank st)"
proof (intro conjI allI impI)
  show "decode raw = None \<longleftrightarrow>
      length raw < HEADER_SIZE \<or> be32 raw 0 \<noteq> MAGIC \<or> length raw < HEADER_SIZE + unat (be32 raw 20)"
    by (simp add: decode_None_iff HEADER_SIZE_def)
next
  fix m assume "decode raw = Some m"
  then show "version (h m) = raw ! 4" "body m = take (unat (be32 raw 20)) (drop HEADER_SIZE raw)"
    by (simp_all add: decode_Some_fields HEADER_SIZE_def)
next
  fix m
  assume a: "decode raw = Some m \<and> version (h m) \<noteq> VERSION \<and> received it = Some (raw, peer)"
  then have s: "server_step fmt st it =
           (st\<lparr>monitors := sweep_monitors (now_top it) (monitors st),
               dedup := sweep_dedup (now_top it) (dedup st)\<rparr>,
            \<lparr>path = (if loss_req it then RequestLost else BadRequest), callbacks = [],
             reply_sent = None\<rparr>)"
    by (intro server_step_bad_version) auto
  show "path (snd (server_step fmt st it)) = (if loss_req it then RequestLost else BadRequest)"
    "reply_sent (snd (server_step fmt st it)) = None"
    "bank (fst (server_step fmt st it)) = bank st"
    by (simp_all add: s)
qed

lemma decode_version2:
  "decode [0x42, 0x41, 0x4E, 0x4B, 2, 1, 0, 6, 0, 1, 0, 0, 0, 0, 0, 0, 0, 0, 0, 7, 0, 0, 0, 0]
     = Some \<lparr>h = \<lparr>magic = 0x42414E4B, version = 2, msgType = 1, opCode = 6, flags = 1,
                  status = 0, requestId = 7, bodyLen = 0\<rparr>, body = []\<rparr>"
  by (simp add: decode_def reader_defs be32_def be16_def be64_def upt8 MAGIC_def)

theorem decode_rejects_exactly_witness:
  "decode [0x42, 0x41, 0x4E, 0x4B, 2, 1, 0, 6, 0, 1, 0, 0, 0, 0, 0, 0, 0, 0, 0, 7, 0, 0, 0, 0]
     = Some \<lparr>h = \<lparr>magic = 0x42414E4B, version = 2, msgType = 1, opCode = 6, flags = 1,
                  status = 0, requestId = 7, bodyLen = 0\<rparr>, body = []\<rparr>
   \<and> (2 :: u8) \<noteq> VERSION
   \<and> path (snd (server_step (\<lambda>d. []) Server_init
         \<lparr>now_top = 0,
          received = Some ([0x42, 0x41, 0x4E, 0x4B, 2, 1, 0, 6, 0, 1, 0, 0, 0, 0, 0, 0, 0, 0, 0,
                            7, 0, 0, 0, 0], \<lparr>sin_addr = 0x7F000001, sin_port = 5000\<rparr>),
          loss_req = False, loss_rep = False, now_monitor = 0, now_insert = 0\<rparr>)) = BadRequest
   \<and> decode [0x42, 0x41, 0x4E, 0x4B, 1, 1, 0, 6] = None"
  using decode_rejects_exactly [of
      "[0x42, 0x41, 0x4E, 0x4B, 2, 1, 0, 6, 0, 1, 0, 0, 0, 0, 0, 0, 0, 0, 0, 7, 0, 0, 0, 0]"
      "\<lparr>now_top = 0,
          received = Some ([0x42, 0x41, 0x4E, 0x4B, 2, 1, 0, 6, 0, 1, 0, 0, 0, 0, 0, 0, 0, 0, 0,
                            7, 0, 0, 0, 0], \<lparr>sin_addr = 0x7F000001, sin_port = 5000\<rparr>),
          loss_req = False, loss_rep = False, now_monitor = 0, now_insert = 0\<rparr>"
      "\<lparr>sin_addr = 0x7F000001, sin_port = 5000\<rparr>" "\<lambda>d. []" Server_init]
    decode_rejects_exactly [of "[0x42, 0x41, 0x4E, 0x4B, 1, 1, 0, 6]"]
    decode_version2
  by (simp add: VERSION_def HEADER_SIZE_def)

text \<open>
  Claim C4 as stated fails: a well-formed 24-byte message with version byte 2 is decoded.
\<close>

theorem decode_accepts_other_version_counterexample:
  "decode [0x42, 0x41, 0x4E, 0x4B, 2, 1, 0, 6, 0, 1, 0, 0, 0, 0, 0, 0, 0, 0, 0, 7, 0, 0, 0, 0]
     \<noteq> None
   \<and> [0x42, 0x41, 0x4E, 0x4B, 2, 1, 0, 6, 0, 1, 0, 0, 0, 0, 0, 0, 0, 0, 0, 7, 0, 0, 0, 0] ! 4
       \<noteq> VERSION"
  by (simp add: decode_version2 VERSION_def)

subsection \<open>The client's retry loop\<close>










subsection \<open>The dedup cache\<close>

lemma sweep_dedup_None: "dd k = None \<Longrightarrow> sweep_dedup t dd k = None"
  by (simp add: sweep_dedup_def)

lemma sweep_dedup_live: "dd k = Some e \<Longrightarrow> t < expireAt e \<Longrightarrow> sweep_dedup t dd k = Some e"
  by (simp add: sweep_dedup_def)

lemma sweep_dedup_expired: "dd k = Some e \<Longrightarrow> expireAt e \<le> t \<Longrightarrow> sweep_dedup t dd k = None"
  by (simp add: sweep_dedup_def)

lemma request_key_resend:
  assumes "received it = Some (buf, peer)" and "\<not> loss_req it" and "decode buf = Some req"
    and "version (h req) = VERSION" and "msgType (h req) = MsgType_Request"
    and "flags (h req) AND FLAG_AT_MOST_ONCE \<noteq> 0"
  shows "request_key it = Some (dedupKey_of peer req)"
  using assms by (simp add: request_key_def)

lemma request_key_SomeD:
  assumes "request_key it = Some k"
  obtains buf peer req where "received it = Some (buf, peer)" "\<not> loss_req it"
    "decode buf = Some req" "version (h req) = VERSION" "msgType (h req) = MsgType_Request"
    "flags (h req) AND FLAG_AT_MOST_ONCE \<noteq> 0" "k = dedupKey_of peer req"
  using assms
  by (auto simp: request_key_def split: option.splits prod.splits if_splits)

lemma server_step_other:
  assumes "request_key it \<noteq> Some k"
  shows "dedup (fst (server_step fmt st it)) k = sweep_dedup (now_top it) (dedup st) k"
  using assms
  by (auto simp: server_step_def request_key_def Let_def
      split: option.splits prod.splits if_splits)

lemma server_step_hit:
  assumes "request_key it = Some k" and "sweep_dedup (now_top it) (dedup st) k = Some e"
  shows "server_step fmt st it =
           (st\<lparr>monitors := sweep_monitors (now_top it) (monitors st),
               dedup := sweep_dedup (now_top it) (dedup st)\<rparr>,
            \<lparr>path = Replayed, callbacks = [],
             reply_sent = (if loss_rep it then None else Some (replyBytes e))\<rparr>)"
proof -
  from assms(1) obtain buf peer req where r: "received it = Some (buf, peer)" "\<not> loss_req it"
    "decode buf = Some req" "version (h req) = VERSION" "msgType (h req) = MsgType_Request"
    "flags (h req) AND FLAG_AT_MOST_ONCE \<noteq> 0" "k = dedupKey_of peer req"
    by (rule request_key_SomeD)
  show ?thesis
    using r assms(2) by (simp add: server_step_def Let_def)
qed

lemma server_step_miss:
  assumes "received it = Some (buf, peer)" and "\<not> loss_req it" and "decode buf = Some req"
    and "version (h req) = VERSION" and "msgType (h req) = MsgType_Request"
    and "flags (h req) AND FLAG_AT_MOST_ONCE \<noteq> 0"
    and "sweep_dedup (now_top it) (dedup st) (dedupKey_of peer req) = None"
    and "dispatch fmt (bank st) (sweep_monitors (now_top it) (monitors st)) peer
           (now_monitor it) req = (bk', mons', rep, cbs)"
  shows "server_step fmt st it =
           (\<lparr>bank = bk', monitors = mons',
             dedup = (sweep_dedup (now_top it) (dedup st))(dedupKey_of peer req \<mapsto>
                       \<lparr>replyBytes = encode rep,
                        expireAt = now_insert it + chrono_seconds 60\<rparr>)\<rparr>,
            \<lparr>path = Processed, callbacks = cbs,
             reply_sent = (if loss_rep it then None else Some (encode rep))\<rparr>)"
  using assms by (simp add: server_step_def Let_def)

lemma server_run_Cons:
  "server_run fmt st (it # its) =
     (fst (server_run fmt (fst (server_step fmt st it)) its),
      snd (server_step fmt st it) # snd (server_run fmt (fst (server_step fmt st it)) its))"
  by (simp split: prod.splits)

lemma server_run_append:
  "server_run fmt st (xs @ ys) =
     (case server_run fmt st xs of (st1, o1) \<Rightarrow>
        (case server_run fmt st1 ys of (st2, o2) \<Rightarrow> (st2, o1 @ o2)))"
  by (induction xs arbitrary: st)
    (simp_all add: server_run_Cons split: prod.splits del: server_run.simps(2))

lemma length_server_run: "length (snd (server_run fmt st its)) = length its"
  by (induction its arbitrary: st) (simp_all add: server_run_Cons del: server_run.simps(2))

lemma server_run_before:
  assumes "dedup st k = None" and "\<forall>it \<in> set pre. request_key it \<noteq> Some k"
  shows "dedup (fst (server_run fmt st pre)) k = None"
  using assms
proof (induction pre arbitrary: st)
  case Nil
  then show ?case by simp
next
  case (Cons it pre)
  have "dedup (fst (server_step fmt st it)) k = None"
    using Cons.prems by (simp add: server_step_other sweep_dedup_None)
  then have "dedup (fst (server_run fmt (fst (server_step fmt st it)) pre)) k = None"
    using Cons.prems by (intro Cons.IH) auto
  then show ?case
    by (simp add: server_run_Cons del: server_run.simps(2))
qed

lemma server_run_after_dedup:
  assumes "dedup st k = Some e" and "\<forall>it \<in> set post. now_top it < expireAt e"
  shows "dedup (fst (server_run fmt st post)) k = Some e"
  using assms
proof (induction post arbitrary: st)
  case Nil
  then show ?case by simp
next
  case (Cons it post)
  have live: "sweep_dedup (now_top it) (dedup st) k = Some e"
    using Cons.prems by (simp add: sweep_dedup_live)
  have keep: "dedup (fst (server_step fmt st it)) k = Some e"
  proof (cases "request_key it = Some k")
    case True
    then show ?thesis using live by (simp add: server_step_hit)
  next
    case False
    then show ?thesis using live by (simp add: server_step_other)
  qed
  then have "dedup (fst (server_run fmt (fst (server_step fmt st it)) post)) k = Some e"
    using Cons.prems by (intro Cons.IH) auto
  then show ?case
    by (simp add: server_run_Cons del: server_run.simps(2))
qed

lemma server_step_first_full:
  assumes "request_key it = Some k" and "sweep_dedup (now_top it) (dedup st) k = None"
  shows "\<exists>buf peer req bk' mons' rep cbs.
           received it = Some (buf, peer) \<and> decode buf = Some req
           \<and> dispatch fmt (bank st) (sweep_monitors (now_top it) (monitors st)) peer
                (now_monitor it) req = (bk', mons', rep, cbs)
           \<and> server_step fmt st it =
               (\<lparr>bank = bk', monitors = mons',
                 dedup = (sweep_dedup (now_top it) (dedup st))(k \<mapsto>
                           \<lparr>replyBytes = encode rep,
                            expireAt = now_insert it + chrono_seconds 60\<rparr>)\<rparr>,
                \<lparr>path = Processed, callbacks = cbs,
                 reply_sent = (if loss_rep it then None else Some (encode rep))\<rparr>)"
proof -
  from assms(1) obtain buf peer req where r: "received it = Some (buf, peer)" "\<not> loss_req it"
    "decode buf = Some req" "version (h req) = VERSION" "msgType (h req) = MsgType_Request"
    "flags (h req) AND FLAG_AT_MOST_ONCE \<noteq> 0" "k = dedupKey_of peer req"
    by (rule request_key_SomeD)
  obtain bk' mons' rep cbs where d: "dispatch fmt (bank st)
      (sweep_monitors (now_top it) (monitors st)) peer (now_monitor it) req = (bk', mons', rep, cbs)"
    by (metis prod_cases4)
  have "sweep_dedup (now_top it) (dedup st) (dedupKey_of peer req) = None"
    using assms(2) r(7) by simp
  from server_step_miss [OF r(1-6) this d] r(1,3,7) d show ?thesis
    by blast
qed

lemma server_run_fst_append:
  "fst (server_run fmt st (xs @ ys)) = fst (server_run fmt (fst (server_run fmt st xs)) ys)"
  by (simp add: server_run_append split: prod.splits)

lemma server_run_fst_snoc:
  "fst (server_run fmt st (xs @ [it])) = fst (server_step fmt (fst (server_run fmt st xs)) it)"
  by (simp add: server_run_fst_append server_run_Cons del: server_run.simps(2))

lemma server_run_replays:
  assumes "dedup st k = Some e" and "\<forall>it \<in> set post. now_top it < expireAt e"
  shows "list_all2 (\<lambda>it out. request_key it = Some k \<longrightarrow>
            path out = Replayed \<and> callbacks out = []
            \<and> reply_sent out = (if loss_rep it then None else Some (replyBytes e)))
          post (snd (server_run fmt st post))"
  using assms
proof (induction post arbitrary: st)
  case Nil
  then show ?case by simp
next
  case (Cons it post)
  have live: "sweep_dedup (now_top it) (dedup st) k = Some e"
    using Cons.prems by (simp add: sweep_dedup_live)
  have keep: "dedup (fst (server_step fmt st it)) k = Some e"
  proof (cases "request_key it = Some k")
    case True
    then show ?thesis using live by (simp add: server_step_hit)
  next
    case False
    then show ?thesis using live by (simp add: server_step_other)
  qed
  have here: "request_key it = Some k \<longrightarrow>
      path (snd (server_step fmt st it)) = Replayed
      \<and> callbacks (snd (server_step fmt st it)) = []
      \<and> reply_sent (snd (server_step fmt st it))
          = (if loss_rep it then None else Some (replyBytes e))"
    using live by (simp add: server_step_hit)
  have rest: "list_all2 (\<lambda>it out. request_key it = Some k \<longrightarrow>
            path out = Replayed \<and> callbacks out = []
            \<and> reply_sent out = (if loss_rep it then None else Some (replyBytes e)))
          post (snd (server_run fmt (fst (server_step fmt st it)) post))"
    using keep Cons.prems by (intro Cons.IH) auto
  show ?case
    using here rest by (simp add: server_run_Cons del: server_run.simps(2))
qed

lemma server_run_replay_state:
  assumes "dedup st k = Some e" and "\<forall>it \<in> set post. now_top it < expireAt e"
    and "i < length post" and "request_key (post ! i) = Some k"
  shows "bank (fst (server_run fmt st (take (Suc i) post)))
           = bank (fst (server_run fmt st (take i post)))"
    and "monitors (fst (server_run fmt st (take (Suc i) post)))
           = sweep_monitors (now_top (post ! i)) (monitors (fst (server_run fmt st (take i post))))"
proof -
  let ?s = "fst (server_run fmt st (take i post))"
  have "\<forall>it \<in> set (take i post). now_top it < expireAt e"
    using assms(2) by (auto dest: in_set_takeD)
  then have "dedup ?s k = Some e"
    using assms(1) by (intro server_run_after_dedup)
  moreover have "now_top (post ! i) < expireAt e"
    using assms(2,3) by simp
  ultimately have live: "sweep_dedup (now_top (post ! i)) (dedup ?s) k = Some e"
    by (simp add: sweep_dedup_live)
  have t: "take (Suc i) post = take i post @ [post ! i]"
    using assms(3) by (simp add: take_Suc_conv_app_nth)
  have s: "fst (server_run fmt st (take (Suc i) post)) = fst (server_step fmt ?s (post ! i))"
    unfolding t by (rule server_run_fst_snoc)
  show "bank (fst (server_run fmt st (take (Suc i) post))) = bank ?s"
    unfolding s by (simp add: server_step_hit [OF assms(4) live])
  show "monitors (fst (server_run fmt st (take (Suc i) post)))
           = sweep_monitors (now_top (post ! i)) (monitors ?s)"
    unfolding s by (simp add: server_step_hit [OF assms(4) live])
qed

text \<open>
  Claim C1, as amended. Take a dedup key \<open>k\<close> (a peer address and a request id) with no
  cached entry, any iterations \<open>pre\<close> that do not work with \<open>k\<close> (other traffic, or
  resends lost to the simulated request loss), the first iteration \<open>it0\<close> that receives an
  at-most-once request with key \<open>k\<close>, and any later iterations \<open>post\<close> that all start (read
  the clock at the top of the loop) less than 60 seconds after the reply of \<open>it0\<close> was
  cached. Then \<open>it0\<close> runs the dispatch on the request it received: the bank and the
  monitors after it, its callbacks and its reply \<open>rep\<close> are those of that one dispatch.
  Every later iteration that receives a request with key \<open>k\<close> is answered from the cache:
  it sends no callback, leaves the bank as it was and only sweeps the monitors. Every
  reply sent for \<open>k\<close> (one per iteration, unless the simulated reply loss drops it) is the
  byte string \<open>encode rep\<close> cached by \<open>it0\<close>.
\<close>

theorem at_most_once_within_ttl:
  assumes "dedup st k = None"
    and "\<forall>it \<in> set pre. request_key it \<noteq> Some k"
    and "request_key it0 = Some k"
    and "\<forall>it \<in> set post. now_top it < now_insert it0 + chrono_seconds 60"
  shows "\<exists>outs_pre out0 outs_post buf peer req rep.
           snd (server_run fmt st (pre @ it0 # post)) = outs_pre @ out0 # outs_post
           \<and> length outs_pre = length pre
           \<and> received it0 = Some (buf, peer) \<and> decode buf = Some req
           \<and> dispatch fmt (bank (fst (server_run fmt st pre)))
                (sweep_monitors (now_top it0) (monitors (fst (server_run fmt st pre))))
                peer (now_monitor it0) req
               = (bank (fst (server_run fmt st (pre @ [it0]))),
                  monitors (fst (server_run fmt st (pre @ [it0]))), rep, callbacks out0)
           \<and> path out0 = Processed
           \<and> reply_sent out0 = (if loss_rep it0 then None else Some (encode rep))
           \<and> list_all2 (\<lambda>it out. request_key it = Some k \<longrightarrow>
                  path out = Replayed \<and> callbacks out = []
                  \<and> reply_sent out = (if loss_rep it then None else Some (encode rep)))
                post outs_post
           \<and> (\<forall>i < length post. request_key (post ! i) = Some k \<longrightarrow>
                  bank (fst (server_run fmt st (pre @ it0 # take (Suc i) post)))
                    = bank (fst (server_run fmt st (pre @ it0 # take i post)))
                  \<and> monitors (fst (server_run fmt st (pre @ it0 # take (Suc i) post)))
                    = sweep_monitors (now_top (post ! i))
                        (monitors (fst (server_run fmt st (pre @ it0 # take i post)))))
           \<and> map_option replyBytes (dedup (fst (server_run fmt st (pre @ it0 # post))) k)
                = Some (encode rep)"
proof -
  obtain st1 o1 where r1: "server_run fmt st pre = (st1, o1)"
    by (cases "server_run fmt st pre")
  have "dedup st1 k = None"
    using server_run_before [OF assms(1,2), of fmt] r1 by simp
  then have "sweep_dedup (now_top it0) (dedup st1) k = None"
    by (rule sweep_dedup_None)
  from server_step_first_full [OF assms(3) this, of fmt]
  obtain buf peer req bk' mons' rep cbs where
    rc: "received it0 = Some (buf, peer)" and dc: "decode buf = Some req"
    and di: "dispatch fmt (bank st1) (sweep_monitors (now_top it0) (monitors st1)) peer
                (now_monitor it0) req = (bk', mons', rep, cbs)"
    and r2: "server_step fmt st1 it0 =
               (\<lparr>bank = bk', monitors = mons',
                 dedup = (sweep_dedup (now_top it0) (dedup st1))(k \<mapsto>
                           \<lparr>replyBytes = encode rep,
                            expireAt = now_insert it0 + chrono_seconds 60\<rparr>)\<rparr>,
                \<lparr>path = Processed, callbacks = cbs,
                 reply_sent = (if loss_rep it0 then None else Some (encode rep))\<rparr>)"
    by blast
  define st2 where "st2 = fst (server_step fmt st1 it0)"
  define out0 where "out0 = snd (server_step fmt st1 it0)"
  define e where "e = \<lparr>replyBytes = encode rep, expireAt = now_insert it0 + chrono_seconds 60\<rparr>"
  have s2: "bank st2 = bk'" "monitors st2 = mons'" "dedup st2 k = Some e"
    by (simp_all add: st2_def r2 e_def)
  have o0: "path out0 = Processed" "callbacks out0 = cbs"
    "reply_sent out0 = (if loss_rep it0 then None else Some (encode rep))"
    by (simp_all add: out0_def r2)
  have rb: "replyBytes e = encode rep"
    by (simp add: e_def)
  have ttl: "\<forall>it \<in> set post. now_top it < expireAt e"
    using assms(4) by (simp add: e_def)
  have run: "\<And>xs. server_run fmt st (pre @ it0 # xs)
      = (fst (server_run fmt st2 xs), o1 @ out0 # snd (server_run fmt st2 xs))"
    by (simp add: server_run_append server_run_Cons r1 st2_def out0_def
        del: server_run.simps(2))
  have run0: "fst (server_run fmt st (pre @ [it0])) = st2"
    using run [of "[]"] by simp
  have c1: "snd (server_run fmt st (pre @ it0 # post)) = o1 @ out0 # snd (server_run fmt st2 post)"
    by (simp add: run)
  have c2: "length o1 = length pre"
    using length_server_run [of fmt st pre] r1 by simp
  have c3: "dispatch fmt (bank (fst (server_run fmt st pre)))
                (sweep_monitors (now_top it0) (monitors (fst (server_run fmt st pre))))
                peer (now_monitor it0) req
               = (bank (fst (server_run fmt st (pre @ [it0]))),
                  monitors (fst (server_run fmt st (pre @ [it0]))), rep, callbacks out0)"
    unfolding run0 by (simp add: r1 di s2 o0)
  have c4: "list_all2 (\<lambda>it out. request_key it = Some k \<longrightarrow>
                  path out = Replayed \<and> callbacks out = []
                  \<and> reply_sent out = (if loss_rep it then None else Some (encode rep)))
                post (snd (server_run fmt st2 post))"
    using server_run_replays [OF s2(3) ttl, of fmt] unfolding rb .
  have c5: "\<forall>i < length post. request_key (post ! i) = Some k \<longrightarrow>
                  bank (fst (server_run fmt st (pre @ it0 # take (Suc i) post)))
                    = bank (fst (server_run fmt st (pre @ it0 # take i post)))
                  \<and> monitors (fst (server_run fmt st (pre @ it0 # take (Suc i) post)))
                    = sweep_monitors (now_top (post ! i))
                        (monitors (fst (server_run fmt st (pre @ it0 # take i post))))"
    using server_run_replay_state [OF s2(3) ttl, of _ fmt] by (simp add: run)
  have "dedup (fst (server_run fmt st2 post)) k = Some e"
    using s2(3) ttl by (rule server_run_after_dedup)
  then have c6: "map_option replyBytes (dedup (fst (server_run fmt st (pre @ it0 # post))) k)
                = Some (encode rep)"
    by (simp add: run e_def)
  from c1 c2 rc dc c3 o0(1,3) c4 c5 c6 show ?thesis
    by blast
qed

lemma open_request_facts:
  fixes body0 :: bytes and req0 :: Message
  defines "body0 \<equiv> putDouble (putU16 (putPassword16 (putString [] [97]) [112]) 0) 0"
    and "req0 \<equiv> build_request True 7 OpCode_OPEN body0"
  shows "decode (encode req0) = Some req0"
    and "version (h req0) = VERSION"
    and "msgType (h req0) = MsgType_Request"
    and "flags (h req0) AND FLAG_AT_MOST_ONCE \<noteq> 0"
    and "opCode (h req0) = OpCode_OPEN"
    and "parse_OPEN (body req0) = Some ([97], [112], 0, 0)"
proof -
  have len: "length body0 = 29"
    by (simp add: body0_def putDouble_def putU64_def putU16_def putPassword16_def putString_def
        Let_def)
  have "unat (bodyLen (h req0)) = length (body req0)"
    by (simp add: req0_def build_request_def len)
  then show "decode (encode req0) = Some req0"
    using decode_encode [of req0 "[]"] by (simp add: req0_def build_request_def)
  show "version (h req0) = VERSION" "msgType (h req0) = MsgType_Request"
    "opCode (h req0) = OpCode_OPEN"
    by (simp_all add: req0_def build_request_def)
  show "flags (h req0) AND FLAG_AT_MOST_ONCE \<noteq> 0"
    by (simp add: req0_def build_request_def FLAG_AT_MOST_ONCE_def)
  have "parse_OPEN body0 = Some ([97], [112], 0, 0)"
    unfolding body0_def by (rule parse_OPEN_build) simp_all
  then show "parse_OPEN (body req0) = Some ([97], [112], 0, 0)"
    by (simp add: req0_def build_request_def)
qed

lemma encode_body_neq: "body m \<noteq> body m' \<Longrightarrow> encode m \<noteq> encode m'"
proof
  assume "body m \<noteq> body m'" and "encode m = encode m'"
  then have "drop 24 (encode m) = drop 24 (encode m')" by simp
  then have "body m = body m'" by (simp add: encode_layout)
  with \<open>body m \<noteq> body m'\<close> show False by simp
qed

text \<open>
  Claim C1 as stated (no bound on the time between resends) fails. The same OPEN request,
  flag set, arrives three times. The first arrival is processed and its reply cached with
  an expiry 60 seconds later. The second iteration reads the clock at the top of the loop
  right after that and then blocks in \<open>recvfrom\<close>; the resend that ends the wait, 65
  seconds later, is still answered from the cache. The third iteration starts after the
  expiry and sweeps the entry, so the next resend is processed again: a second account is
  opened and the reply differs (account numbers 10001 and 10002). The clock readings are
  in increasing order.
\<close>

theorem replay_after_ttl_counterexample:
  "(let req = build_request True 7 OpCode_OPEN
                (putDouble (putU16 (putPassword16 (putString [] [97]) [112]) 0) 0);
        buf = encode req;
        peer = \<lparr>sin_addr = 0x7F000001, sin_port = 5000\<rparr>;
        k = dedupKey_of peer req;
        it1 = \<lparr>now_top = 0, received = Some (buf, peer), loss_req = False, loss_rep = False,
               now_monitor = 0, now_insert = 1000000\<rparr>;
        it2 = \<lparr>now_top = 2000000, received = Some (buf, peer), loss_req = False,
               loss_rep = False, now_monitor = 2000000, now_insert = 2000000\<rparr>;
        it3 = \<lparr>now_top = 65000000000, received = Some (buf, peer), loss_req = False,
               loss_rep = False, now_monitor = 65000000000, now_insert = 65001000000\<rparr>;
        r = server_run (\<lambda>d. []) Server_init [it1, it2, it3];
        outs = snd r
    in request_key it1 = Some k \<and> request_key it2 = Some k \<and> request_key it3 = Some k
       \<and> now_top it1 \<le> now_insert it1 \<and> now_insert it1 \<le> now_top it2
       \<and> now_top it2 \<le> now_top it3 \<and> now_top it3 \<le> now_insert it3
       \<and> map path outs = [Processed, Replayed, Processed]
       \<and> nextAccNo (bank (fst r)) = 10003
       \<and> dom (accounts (bank (fst r))) = {10001, 10002}
       \<and> reply_sent (outs ! 0) \<noteq> None
       \<and> reply_sent (outs ! 1) = reply_sent (outs ! 0)
       \<and> reply_sent (outs ! 2) \<noteq> None
       \<and> reply_sent (outs ! 2) \<noteq> reply_sent (outs ! 0))"
proof -
  define body0 :: bytes where "body0 = putDouble (putU16 (putPassword16 (putString [] [97]) [112]) 0) 0"
  define req0 where "req0 = build_request True 7 OpCode_OPEN body0"
  define peer where "peer = \<lparr>sin_addr = 0x7F000001, sin_port = 5000\<rparr>"
  define it1 where "it1 = \<lparr>now_top = 0, received = Some (encode req0, peer), loss_req = False,
      loss_rep = False, now_monitor = 0, now_insert = 1000000\<rparr>"
  define it2 where "it2 = \<lparr>now_top = 2000000, received = Some (encode req0, peer),
      loss_req = False, loss_rep = False, now_monitor = 2000000, now_insert = 2000000\<rparr>"
  define it3 where "it3 = \<lparr>now_top = 65000000000, received = Some (encode req0, peer),
      loss_req = False, loss_rep = False, now_monitor = 65000000000,
      now_insert = 65001000000\<rparr>"
  define k where "k = dedupKey_of peer req0"
  note f = open_request_facts [folded body0_def, folded req0_def]
  define bk1 where "bk1 = Bank_init\<lparr>nextAccNo := nextAccNo Bank_init + 1,
      accounts := (accounts Bank_init)(nextAccNo Bank_init \<mapsto>
        \<lparr>accountNo = nextAccNo Bank_init, name = [97], password = [112], currency = 0,
         balance = 0, closed = False\<rparr>)\<rparr>"
  define rep1 where "rep1 = \<lparr>h = \<lparr>magic = MAGIC, version = VERSION, msgType = MsgType_Reply,
      opCode = OpCode_OPEN, flags = flags (h req0), status = 0, requestId = requestId (h req0),
      bodyLen = 12\<rparr>, body = putDouble (putI32 [] (nextAccNo Bank_init)) 0\<rparr>"
  define bk2 where "bk2 = bk1\<lparr>nextAccNo := nextAccNo bk1 + 1,
      accounts := (accounts bk1)(nextAccNo bk1 \<mapsto>
        \<lparr>accountNo = nextAccNo bk1, name = [97], password = [112], currency = 0,
         balance = 0, closed = False\<rparr>)\<rparr>"
  define rep2 where "rep2 = \<lparr>h = \<lparr>magic = MAGIC, version = VERSION, msgType = MsgType_Reply,
      opCode = OpCode_OPEN, flags = flags (h req0), status = 0, requestId = requestId (h req0),
      bodyLen = 12\<rparr>, body = putDouble (putI32 [] (nextAccNo bk1)) 0\<rparr>"
  define e1 where "e1 = \<lparr>replyBytes = encode rep1, expireAt = 1000000 + chrono_seconds 60\<rparr>"
  define st1 where "st1 = \<lparr>bank = bk1, monitors = [],
      dedup = (sweep_dedup 0 (dedup Server_init))(k \<mapsto> e1)\<rparr>"
  define st2 where "st2 = st1\<lparr>monitors := sweep_monitors (now_top it2) (monitors st1),
      dedup := sweep_dedup (now_top it2) (dedup st1)\<rparr>"
  have k1: "request_key it1 = Some k"
    unfolding k_def by (rule request_key_resend [OF _ _ f(1) f(2) f(3) f(4)]) (simp_all add: it1_def)
  have k2: "request_key it2 = Some k"
    unfolding k_def by (rule request_key_resend [OF _ _ f(1) f(2) f(3) f(4)]) (simp_all add: it2_def)
  have k3: "request_key it3 = Some k"
    unfolding k_def by (rule request_key_resend [OF _ _ f(1) f(2) f(3) f(4)]) (simp_all add: it3_def)
  have clock: "now_top it1 \<le> now_insert it1" "now_insert it1 \<le> now_top it2"
    "now_top it2 \<le> now_top it3" "now_top it3 \<le> now_insert it3"
    by (simp_all add: it1_def it2_def it3_def)
  have d1: "dispatch (\<lambda>d. []) (bank Server_init) (sweep_monitors (now_top it1) (monitors Server_init))
              peer (now_monitor it1) req0 = (bk1, [], rep1, [])"
    using dispatch_OPEN_ok [OF f(5) f(6), of "\<lambda>d. []" Bank_init "[]" peer 0]
    by (simp add: Server_init_def it1_def sweep_monitors_def bk1_def rep1_def
        sendUpdateCallback_def)
  have s1: "server_step (\<lambda>d. []) Server_init it1
              = (st1, \<lparr>path = Processed, callbacks = [], reply_sent = Some (encode rep1)\<rparr>)"
    using server_step_miss [where it = it1 and buf = "encode req0" and peer = peer
        and req = req0 and st = Server_init and fmt = "\<lambda>d. []", OF _ _ f(1) f(2) f(3) f(4) _ d1]
    by (simp add: it1_def st1_def e1_def k_def Server_init_def sweep_dedup_def)
  have live: "sweep_dedup (now_top it2) (dedup st1) k = Some e1"
    by (simp add: st1_def it2_def e1_def sweep_dedup_def chrono_seconds_def)
  have s2: "server_step (\<lambda>d. []) st1 it2
              = (st2, \<lparr>path = Replayed, callbacks = [], reply_sent = Some (encode rep1)\<rparr>)"
    using server_step_hit [OF k2 live, of "\<lambda>d. []"]
    by (simp add: st2_def it2_def e1_def)
  have d3: "dispatch (\<lambda>d. []) (bank st2) (sweep_monitors (now_top it3) (monitors st2))
              peer (now_monitor it3) req0 = (bk2, [], rep2, [])"
    using dispatch_OPEN_ok [OF f(5) f(6), of "\<lambda>d. []" bk1 "[]" peer 65000000000]
    by (simp add: st2_def st1_def it3_def sweep_monitors_def bk2_def rep2_def
        sendUpdateCallback_def)
  have ex: "sweep_dedup (now_top it3) (dedup st2) (dedupKey_of peer req0) = None"
    by (simp add: st2_def st1_def it2_def it3_def e1_def k_def sweep_dedup_def
        chrono_seconds_def)
  have s3: "server_step (\<lambda>d. []) st2 it3
              = (\<lparr>bank = bk2, monitors = [],
                  dedup = (sweep_dedup (now_top it3) (dedup st2))(dedupKey_of peer req0 \<mapsto>
                     \<lparr>replyBytes = encode rep2,
                      expireAt = now_insert it3 + chrono_seconds 60\<rparr>)\<rparr>,
                 \<lparr>path = Processed, callbacks = [], reply_sent = Some (encode rep2)\<rparr>)"
    using server_step_miss [where it = it3 and buf = "encode req0" and peer = peer
        and req = req0 and st = st2 and fmt = "\<lambda>d. []", OF _ _ f(1) f(2) f(3) f(4) ex d3]
    by (simp add: it3_def)
  have "putI32 [] (10001 :: u32) \<noteq> putI32 [] 10002"
    by (simp add: putI32_def putU32_def putBE32_def)
  then have "body rep1 \<noteq> body rep2"
    by (simp add: rep1_def rep2_def bk1_def Bank_init_def putDouble_def putU64_def)
  then have ne: "encode rep2 \<noteq> encode rep1"
    using encode_body_neq [of rep1 rep2] by auto
  have run: "server_run (\<lambda>d. []) Server_init [it1, it2, it3]
     = (\<lparr>bank = bk2, monitors = [],
          dedup = (sweep_dedup (now_top it3) (dedup st2))(dedupKey_of peer req0 \<mapsto>
                     \<lparr>replyBytes = encode rep2,
                      expireAt = now_insert it3 + chrono_seconds 60\<rparr>)\<rparr>,
        [\<lparr>path = Processed, callbacks = [], reply_sent = Some (encode rep1)\<rparr>,
         \<lparr>path = Replayed, callbacks = [], reply_sent = Some (encode rep1)\<rparr>,
         \<lparr>path = Processed, callbacks = [], reply_sent = Some (encode rep2)\<rparr>])"
    by (simp add: server_run_Cons s1 s2 s3 del: server_run.simps(2))
  have bank2: "nextAccNo bk2 = 10003" "dom (accounts bk2) = {10001, 10002}"
    by (auto simp: bk2_def bk1_def Bank_init_def)
  have res: "map path (snd (server_run (\<lambda>d. []) Server_init [it1, it2, it3]))
        = [Processed, Replayed, Processed]"
    "nextAccNo (bank (fst (server_run (\<lambda>d. []) Server_init [it1, it2, it3]))) = 10003"
    "dom (accounts (bank (fst (server_run (\<lambda>d. []) Server_init [it1, it2, it3]))))
        = {10001, 10002}"
    "reply_sent (snd (server_run (\<lambda>d. []) Server_init [it1, it2, it3]) ! 0) \<noteq> None"
    "reply_sent (snd (server_run (\<lambda>d. []) Server_init [it1, it2, it3]) ! 1)
        = reply_sent (snd (server_run (\<lambda>d. []) Server_init [it1, it2, it3]) ! 0)"
    "reply_sent (snd (server_run (\<lambda>d. []) Server_init [it1, it2, it3]) ! 2) \<noteq> None"
    "reply_sent (snd (server_run (\<lambda>d. []) Server_init [it1, it2, it3]) ! 2)
        \<noteq> reply_sent (snd (server_run (\<lambda>d. []) Server_init [it1, it2, it3]) ! 0)"
    unfolding run using ne bank2 by simp_all
  from k1 k2 k3 clock res show ?thesis
    unfolding Let_def it1_def it2_def it3_def k_def peer_def req0_def body0_def
    by (intro conjI)
qed

theorem at_most_once_within_ttl_witness:
  "(let req = build_request True 7 OpCode_OPEN
                (putDouble (putU16 (putPassword16 (putString [] [97]) [112]) 0) 0);
        buf = encode req;
        peer = \<lparr>sin_addr = 0x7F000001, sin_port = 5000\<rparr>;
        k = dedupKey_of peer req;
        mon = \<lparr>addr = \<lparr>sin_addr = 0x7F000001, sin_port = 6000\<rparr>, m_expireAt = 600000000000\<rparr>;
        st = \<lparr>bank = Bank_init, monitors = [mon], dedup = Map.empty\<rparr>;
        lost = \<lparr>now_top = 0, received = Some (buf, peer), loss_req = True, loss_rep = False,
                now_monitor = 0, now_insert = 0\<rparr>;
        it0 = \<lparr>now_top = 500000000, received = Some (buf, peer), loss_req = False,
               loss_rep = True, now_monitor = 500000000, now_insert = 500000000\<rparr>;
        it1 = \<lparr>now_top = 1000000000, received = Some (buf, peer), loss_req = False,
               loss_rep = False, now_monitor = 1000000000, now_insert = 1000000000\<rparr>;
        it2 = \<lparr>now_top = 1500000000, received = Some (buf, peer), loss_req = False,
               loss_rep = False, now_monitor = 1500000000, now_insert = 1500000000\<rparr>;
        r = server_run (\<lambda>d. []) st ([lost] @ it0 # [it1, it2]);
        outs = snd r
    in dedup st k = None
       \<and> (\<forall>it \<in> set [lost]. request_key it \<noteq> Some k)
       \<and> request_key it0 = Some k \<and> request_key it1 = Some k \<and> request_key it2 = Some k
       \<and> (\<forall>it \<in> set [it1, it2]. now_top it < now_insert it0 + chrono_seconds 60)
       \<and> (\<exists>rb. map path (tl outs) = [Processed, Replayed, Replayed]
                \<and> map reply_sent (tl outs) = [None, Some rb, Some rb])
       \<and> map (\<lambda>out. length (callbacks out)) (tl outs) = [1, 0, 0]
       \<and> nextAccNo (bank (fst r)) = 10002
       \<and> dom (accounts (bank (fst r))) = {10001})"
proof -
  define body0 :: bytes where "body0 = putDouble (putU16 (putPassword16 (putString [] [97]) [112]) 0) 0"
  define req0 where "req0 = build_request True 7 OpCode_OPEN body0"
  define peer where "peer = \<lparr>sin_addr = 0x7F000001, sin_port = 5000\<rparr>"
  define k where "k = dedupKey_of peer req0"
  define mon where "mon = \<lparr>addr = \<lparr>sin_addr = 0x7F000001, sin_port = 6000\<rparr>,
      m_expireAt = (600000000000 :: int)\<rparr>"
  define st where "st = \<lparr>bank = Bank_init, monitors = [mon], dedup = Map.empty\<rparr>"
  define lost where "lost = \<lparr>now_top = 0, received = Some (encode req0, peer), loss_req = True,
      loss_rep = False, now_monitor = 0, now_insert = 0\<rparr>"
  define it0 where "it0 = \<lparr>now_top = 500000000, received = Some (encode req0, peer),
      loss_req = False, loss_rep = True, now_monitor = 500000000, now_insert = 500000000\<rparr>"
  define it1 where "it1 = \<lparr>now_top = 1000000000, received = Some (encode req0, peer),
      loss_req = False, loss_rep = False, now_monitor = 1000000000, now_insert = 1000000000\<rparr>"
  define it2 where "it2 = \<lparr>now_top = 1500000000, received = Some (encode req0, peer),
      loss_req = False, loss_rep = False, now_monitor = 1500000000, now_insert = 1500000000\<rparr>"
  define r where "r = server_run (\<lambda>d. []) st ([lost] @ it0 # [it1, it2])"
  define outs where "outs = snd r"
  note f = open_request_facts [folded body0_def, folded req0_def]
  have h1: "dedup st k = None"
    by (simp add: st_def)
  have h2: "\<forall>it \<in> set [lost]. request_key it \<noteq> Some k"
    by (simp add: request_key_def lost_def)
  have k0: "request_key it0 = Some k"
    unfolding k_def by (rule request_key_resend [OF _ _ f(1) f(2) f(3) f(4)]) (simp_all add: it0_def)
  have k1: "request_key it1 = Some k"
    unfolding k_def by (rule request_key_resend [OF _ _ f(1) f(2) f(3) f(4)]) (simp_all add: it1_def)
  have k2: "request_key it2 = Some k"
    unfolding k_def by (rule request_key_resend [OF _ _ f(1) f(2) f(3) f(4)]) (simp_all add: it2_def)
  have h4: "\<forall>it \<in> set [it1, it2]. now_top it < now_insert it0 + chrono_seconds 60"
    by (simp add: it0_def it1_def it2_def chrono_seconds_def)
  from at_most_once_within_ttl [OF h1 h2 k0 h4, of "\<lambda>d. []"]
  obtain outs_pre out0 outs_post buf peer' req rep where
    o: "outs = outs_pre @ out0 # outs_post" and l: "length outs_pre = length [lost]"
    and rc: "received it0 = Some (buf, peer')" and dc: "decode buf = Some req"
    and di: "dispatch (\<lambda>d. []) (bank (fst (server_run (\<lambda>d. []) st [lost])))
                (sweep_monitors (now_top it0) (monitors (fst (server_run (\<lambda>d. []) st [lost]))))
                peer' (now_monitor it0) req
               = (bank (fst (server_run (\<lambda>d. []) st ([lost] @ [it0]))),
                  monitors (fst (server_run (\<lambda>d. []) st ([lost] @ [it0]))), rep, callbacks out0)"
    and p0: "path out0 = Processed"
    and r0: "reply_sent out0 = (if loss_rep it0 then None else Some (encode rep))"
    and post: "list_all2 (\<lambda>it out. request_key it = Some k \<longrightarrow>
                  path out = Replayed \<and> callbacks out = []
                  \<and> reply_sent out = (if loss_rep it then None else Some (encode rep)))
                [it1, it2] outs_post"
    and keep: "\<forall>i < length [it1, it2]. request_key ([it1, it2] ! i) = Some k \<longrightarrow>
                  bank (fst (server_run (\<lambda>d. []) st ([lost] @ it0 # take (Suc i) [it1, it2])))
                    = bank (fst (server_run (\<lambda>d. []) st ([lost] @ it0 # take i [it1, it2])))
                  \<and> monitors (fst (server_run (\<lambda>d. []) st ([lost] @ it0 # take (Suc i) [it1, it2])))
                    = sweep_monitors (now_top ([it1, it2] ! i))
                        (monitors (fst (server_run (\<lambda>d. []) st ([lost] @ it0 # take i [it1, it2]))))"
    unfolding outs_def r_def by blast
  from l obtain x where x: "outs_pre = [x]"
    by (cases outs_pre) auto
  from post obtain a b where ab: "outs_post = [a, b]"
    and a: "path a = Replayed" "callbacks a = []"
      "reply_sent a = (if loss_rep it1 then None else Some (encode rep))"
    and b: "path b = Replayed" "callbacks b = []"
      "reply_sent b = (if loss_rep it2 then None else Some (encode rep))"
    using k1 k2 by (auto simp: list_all2_Cons1)
  have "map path (tl outs) = [Processed, Replayed, Replayed]
        \<and> map reply_sent (tl outs) = [None, Some (encode rep), Some (encode rep)]"
    using o x ab p0 r0 a b by (simp add: it0_def it1_def it2_def)
  then have e: "\<exists>rb. map path (tl outs) = [Processed, Replayed, Replayed]
        \<and> map reply_sent (tl outs) = [None, Some rb, Some rb]"
    by (rule exI)
  have pre: "bank (fst (server_run (\<lambda>d. []) st [lost])) = Bank_init"
    "sweep_monitors (now_top it0) (monitors (fst (server_run (\<lambda>d. []) st [lost]))) = [mon]"
    by (simp_all add: server_step_def lost_def st_def it0_def sweep_monitors_def mon_def Let_def)
  have same: "buf = encode req0" "peer' = peer" "req = req0"
    using rc dc f(1) by (simp_all add: it0_def)
  have "dispatch (\<lambda>d. []) Bank_init [mon] peer (now_monitor it0) req0
      = (bank (fst (server_run (\<lambda>d. []) st ([lost] @ [it0]))),
         monitors (fst (server_run (\<lambda>d. []) st ([lost] @ [it0]))), rep, callbacks out0)"
    using di unfolding pre same .
  with dispatch_OPEN_ok [OF f(5) f(6), of "\<lambda>d. []" Bank_init "[mon]" peer "now_monitor it0"]
  have first: "bank (fst (server_run (\<lambda>d. []) st ([lost] @ [it0])))
      = Bank_init\<lparr>nextAccNo := nextAccNo Bank_init + 1,
               accounts := (accounts Bank_init)(nextAccNo Bank_init \<mapsto>
                 \<lparr>accountNo = nextAccNo Bank_init, name = [97], password = [112], currency = 0,
                  balance = 0, closed = False\<rparr>)\<rparr>"
    and cb: "callbacks out0 = sendUpdateCallback [mon] OpCode_OPEN (nextAccNo Bank_init) 0 0
                (str ''OPEN by '' @ [97])"
    by simp_all
  have "bank (fst (server_run (\<lambda>d. []) st ([lost] @ it0 # [it1])))
      = bank (fst (server_run (\<lambda>d. []) st ([lost] @ [it0])))"
    using keep [rule_format, of 0] k1 by simp
  moreover have "bank (fst (server_run (\<lambda>d. []) st ([lost] @ it0 # [it1, it2])))
      = bank (fst (server_run (\<lambda>d. []) st ([lost] @ it0 # [it1])))"
    using keep [rule_format, of "Suc 0"] k2 by simp
  ultimately have final: "bank (fst r) = bank (fst (server_run (\<lambda>d. []) st ([lost] @ [it0])))"
    by (simp add: r_def)
  have n: "nextAccNo (bank (fst r)) = 10002" "dom (accounts (bank (fst r))) = {10001}"
    unfolding final first by (auto simp: Bank_init_def)
  have c: "map (\<lambda>out. length (callbacks out)) (tl outs) = [1, 0, 0]"
    using o x ab a b cb by (simp add: sendUpdateCallback_def)
  from h1 h2 k0 k1 k2 h4 e c n show ?thesis
    unfolding Let_def outs_def r_def st_def mon_def lost_def it0_def it1_def it2_def k_def
      peer_def req0_def body0_def
    by (intro conjI)
qed

section \<open>Properties of double arithmetic and of TRANSFER\<close>

subsection \<open>Binary digits and rounding of scaled magnitudes\<close>

lemma bitlen_0 [simp]: "bitlen 0 = 0"
  by (simp add: bitlen.simps)

lemma bitlen_double: "0 < n \<Longrightarrow> bitlen (2 * n) = Suc (bitlen n)"
  by (subst bitlen.simps) simp

lemma bitlen_double1: "bitlen (2 * n + 1) = Suc (bitlen n)"
  by (subst bitlen.simps) simp

lemma bitlen_1 [simp]: "bitlen 1 = 1" "bitlen (Suc 0) = 1"
  using bitlen_double1 [of 0] by simp_all

lemma bitlen_Bit0 [simp]: "bitlen (numeral (Num.Bit0 k)) = Suc (bitlen (numeral k))"
  using bitlen_double [of "numeral k"] by (simp add: numeral_Bit0 mult_2)

lemma bitlen_Bit1 [simp]: "bitlen (numeral (Num.Bit1 k)) = Suc (bitlen (numeral k))"
  using bitlen_double1 [of "numeral k"] by (simp add: numeral_Bit1 mult_2)

lemma bitlen_scaled: "0 < M \<Longrightarrow> bitlen (M * 2 ^ e) = bitlen M + e"
proof (induction e)
  case 0
  then show ?case by simp
next
  case (Suc e)
  have "bitlen (M * 2 ^ Suc e) = bitlen (2 * (M * 2 ^ e))"
    by (simp add: mult.assoc mult.left_commute)
  also have "\<dots> = Suc (bitlen (M * 2 ^ e))"
    using Suc.prems by (intro bitlen_double) simp
  finally show ?case
    using Suc by simp
qed

lemma d_round_mag_scaled_small:
  assumes "0 < M" and "bitlen M + e \<le> 53"
  shows "d_round_mag (M * 2 ^ e) = M * 2 ^ e"
  using assms by (simp add: d_round_mag_def bitlen_scaled)

lemma pow_split: "a \<le> e \<Longrightarrow> (2::nat) ^ e = 2 ^ (e - a) * 2 ^ a"
  by (simp flip: power_add)

lemma d_round_mag_scaled_exact:
  assumes "0 < M" and "bitlen M \<le> 53" and "53 < bitlen M + e"
  shows "d_round_mag (M * 2 ^ e) =
           (let enc = (bitlen M + e - 53) * 2 ^ 52 + M * 2 ^ (53 - bitlen M)
            in if enc \<ge> 2047 * 2 ^ 52 then 2047 * 2 ^ 52 else enc)"
proof -
  define k where "k = bitlen M"
  define sh where "sh = k + e - 53"
  have sh: "0 < sh" "sh \<le> e" "e - sh = 53 - k"
    using assms by (simp_all add: sh_def k_def)
  have "(2::nat) ^ e = 2 ^ (e - sh) * 2 ^ sh"
    using sh(2) by (rule pow_split)
  then have split: "M * 2 ^ e = (M * 2 ^ (53 - k)) * 2 ^ sh"
    using sh(3) by (simp add: mult.assoc)
  have q: "(M * 2 ^ e) div 2 ^ sh = M * 2 ^ (53 - k)"
    unfolding split by simp
  have r: "(M * 2 ^ e) mod 2 ^ sh = 0"
    unfolding split by simp
  have b: "bitlen (M * 2 ^ e) = k + e"
    using assms(1) by (simp add: bitlen_scaled k_def)
  have nle: "\<not> k + e \<le> 53"
    using assms(3) by (simp add: k_def)
  have "d_round_mag (M * 2 ^ e) =
          (let enc = sh * 2 ^ 52 + M * 2 ^ (53 - k)
            in if enc \<ge> 2047 * 2 ^ 52 then 2047 * 2 ^ 52 else enc)"
    unfolding d_round_mag_def b Let_def sh_def [symmetric] q r
    using nle by simp
  then show ?thesis
    by (simp add: sh_def k_def)
qed

lemma d_round_mag_scaled_round:
  assumes "0 < M" and "53 < bitlen M"
  shows "d_round_mag (M * 2 ^ e) =
           (let sh = bitlen M - 53; q = M div 2 ^ sh; r = M mod 2 ^ sh; half = 2 ^ (sh - 1);
                q' = (if r > half \<or> (r = half \<and> odd q) then q + 1 else q);
                enc = (sh + e) * 2 ^ 52 + q'
            in if enc \<ge> 2047 * 2 ^ 52 then 2047 * 2 ^ 52 else enc)"
proof -
  define sh where "sh = bitlen M - 53"
  have sh: "0 < sh" "bitlen M + e - 53 = sh + e"
    using assms by (simp_all add: sh_def)
  have p: "(2::nat) ^ (sh + e) = 2 ^ sh * 2 ^ e"
    by (simp add: power_add)
  have q: "(M * 2 ^ e) div 2 ^ (sh + e) = M div 2 ^ sh"
    unfolding p by simp
  have r: "(M * 2 ^ e) mod 2 ^ (sh + e) = (M mod 2 ^ sh) * 2 ^ e"
    unfolding p by (simp add: mod_mult_mult2)
  have "sh + e - 1 = (sh - 1) + e"
    using sh(1) by simp
  then have h: "(2::nat) ^ (sh + e - 1) = 2 ^ (sh - 1) * 2 ^ e"
    by (simp add: power_add)
  have gt: "2 ^ (sh - 1) * 2 ^ e < (M mod 2 ^ sh) * 2 ^ e \<longleftrightarrow> 2 ^ (sh - 1) < M mod 2 ^ sh"
    by simp
  have eq: "(M mod 2 ^ sh) * 2 ^ e = 2 ^ (sh - 1) * 2 ^ e \<longleftrightarrow> M mod 2 ^ sh = 2 ^ (sh - 1)"
    by simp
  have b: "bitlen (M * 2 ^ e) = bitlen M + e"
    using assms(1) by (simp add: bitlen_scaled)
  have nle: "\<not> bitlen M + e \<le> 53"
    using assms(2) by simp
  have "d_round_mag (M * 2 ^ e) =
           (let q = M div 2 ^ sh; r = M mod 2 ^ sh; half = 2 ^ (sh - 1);
                q' = (if r > half \<or> (r = half \<and> odd q) then q + 1 else q);
                enc = (sh + e) * 2 ^ 52 + q'
            in if enc \<ge> 2047 * 2 ^ 52 then 2047 * 2 ^ 52 else enc)"
    unfolding d_round_mag_def b sh(2) Let_def q r h gt eq
    using nle by simp
  then show ?thesis
    by (simp add: sh_def Let_def)
qed

subsection \<open>Sums of finite doubles\<close>

lemmas d_eval = d_add_def d_sub_def d_neg_def d_of_sum_def d_val_def d_mag_def d_exp_def
  d_frac_def d_sign_def d_isnan_def d_finite_def

text \<open>Operations without a numeric result: infinity less infinity, and a NaN first operand.\<close>

lemma d_sub_infinities:
  "d_sub 0x7FF0000000000000 0x7FF0000000000000 = 0xFFF8000000000000"
  by (simp add: d_sub_def d_add_def d_neg_def d_isnan_def d_finite_def d_exp_def d_frac_def
      d_sign_def d_indefinite_def)

lemma d_add_nan_balance:
  "d_isnan a \<Longrightarrow> d_add a b = d_quiet a" "d_isnan a \<Longrightarrow> d_sub a b = d_quiet a"
  by (simp_all add: d_add_def d_sub_def)

lemma bitlen_bound: "m < 2 ^ bitlen m"
proof (induction m rule: bitlen.induct)
  case (1 n)
  show ?case
  proof (cases "n = 0")
    case True
    then show ?thesis by simp
  next
    case False
    then have "n div 2 < 2 ^ bitlen (n div 2)"
      by (rule "1.IH")
    then have "n < 2 * 2 ^ bitlen (n div 2)"
      by linarith
    then show ?thesis
      using False by (simp add: bitlen.simps [of n])
  qed
qed

lemma d_round_mag_le: "d_round_mag m \<le> 2047 * 2 ^ 52"
proof (cases "bitlen m \<le> 53")
  case True
  have "m < 2 ^ bitlen m"
    by (rule bitlen_bound)
  also have "(2::nat) ^ bitlen m \<le> 2 ^ 53"
    using True by (intro power_increasing) simp_all
  finally have "m < 2 ^ 53" .
  then show ?thesis
    using True by (simp add: d_round_mag_def)
next
  case False
  then show ?thesis
    by (simp add: d_round_mag_def Let_def)
qed

lemma unat_of_nat64: "n < 2 ^ 64 \<Longrightarrow> unat (of_nat n :: u64) = n"
  by (simp add: unat_of_nat)

lemma encoding_not_nan:
  assumes "n \<le> 2047 * 2 ^ 52"
  shows "\<not> d_isnan (of_nat n)" and "\<not> d_isnan (of_nat (2 ^ 63 + n))"
proof -
  have lt: "n < 2 ^ 64" "2 ^ 63 + n < 2 ^ 64"
    using assms by simp_all
  have e: "n div 2 ^ 52 \<le> 2047"
    using assms by (simp add: div_le_mono [of n "2047 * 2 ^ 52" "2 ^ 52", simplified])
  have top: "n div 2 ^ 52 = 2047 \<Longrightarrow> n mod 2 ^ 52 = 0"
  proof -
    assume a: "n div 2 ^ 52 = 2047"
    have "n = 2 ^ 52 * (n div 2 ^ 52) + n mod 2 ^ 52"
      by simp
    with a assms show "n mod 2 ^ 52 = 0"
      by simp
  qed
  show "\<not> d_isnan (of_nat n)"
    using e top by (auto simp: d_isnan_def d_exp_def d_frac_def unat_of_nat64 [OF lt(1)])
  have d: "(2 ^ 63 + n) div 2 ^ 52 = 2 ^ 11 + n div 2 ^ 52"
    by (simp add: div_add1_eq [of "2 ^ 63" n "2 ^ 52"])
  have m: "(2 ^ 63 + n) mod 2 ^ 52 = n mod 2 ^ 52"
    using mod_mult_self3 [of 2048 "2 ^ 52" n] by simp
  have dm: "(2 ^ 11 + n div 2 ^ 52) mod 2 ^ 11 = n div 2 ^ 52"
    using e by simp
  have u: "unat (of_nat (2 ^ 63 + n) :: u64) = 2 ^ 63 + n"
    by (rule unat_of_nat64 [OF lt(2)])
  show "\<not> d_isnan (of_nat (2 ^ 63 + n))"
    unfolding d_isnan_def d_exp_def d_frac_def u d m dm
    using top by auto
qed

lemma d_eq_refl: "\<not> d_isnan x \<Longrightarrow> d_eq x x"
  by (simp add: d_eq_def)

lemma d_of_sum_eq: "d_eq (d_of_sum b1 s) (d_of_sum b2 s)"
proof (cases "s = 0")
  case True
  have z: "\<not> d_isnan 0" "d_val 0 = 0"
    "\<not> d_isnan (of_nat (2 ^ 63))" "d_val (of_nat (2 ^ 63)) = 0"
    by (simp_all add: d_isnan_def d_exp_def d_frac_def d_val_def d_mag_def d_sign_def)
  show ?thesis
    using True z by (simp add: d_of_sum_def d_eq_def)
next
  case False
  have "\<not> d_isnan (d_of_sum b1 s)"
    using False encoding_not_nan [OF d_round_mag_le] by (simp add: d_of_sum_def)
  moreover have "d_of_sum b1 s = d_of_sum b2 s"
    using False by (simp add: d_of_sum_def)
  ultimately show ?thesis
    by (simp add: d_eq_refl)
qed

lemma d_finite_not_nan: "d_finite d \<Longrightarrow> \<not> d_isnan d"
  by (simp add: d_finite_def d_isnan_def)

lemma d_add_finite:
  "d_finite a \<Longrightarrow> d_finite b \<Longrightarrow> d_add a b = d_of_sum (d_sign a \<and> d_sign b) (d_val a + d_val b)"
  by (simp add: d_add_def d_finite_not_nan)

lemma d_add_same_sum:
  assumes "d_finite a" "d_finite b" "d_finite a'" "d_finite b'"
    and "d_val a' + d_val b' = d_val a + d_val b"
  shows "d_eq (d_add a' b') (d_add a b)"
  using assms by (simp add: d_add_finite d_of_sum_eq)

lemma transfer_ok:
  assumes "transfer bk nm fromAccNo pw toAccNo c amount = (bk', Inr (fromBal, toBal))"
    and "accounts bk fromAccNo = Some from" and "accounts bk toAccNo = Some to"
  shows "fromBal = d_sub (balance from) amount" and "toBal = d_add (balance to) amount"
    and "map_option balance (accounts bk' fromAccNo) = Some fromBal"
    and "map_option balance (accounts bk' toAccNo) = Some toBal"
  using assms
  by (auto simp: transfer_def Let_def split: if_splits)

subsection \<open>Sums that need no rounding\<close>

lemma bitlen_pos: "0 < m \<Longrightarrow> 0 < bitlen m"
  by (subst bitlen.simps) simp

lemma bitlen_lower: "0 < m \<Longrightarrow> 2 ^ (bitlen m - 1) \<le> m"
proof (induction m rule: bitlen.induct)
  case (1 n)
  show ?case
  proof (cases "n div 2 = 0")
    case True
    with "1.prems" have "n = 1"
      by (simp add: div_eq_0_iff)
    then show ?thesis by simp
  next
    case False
    then have pos: "0 < n div 2" by simp
    have ih: "2 ^ (bitlen (n div 2) - 1) \<le> n div 2"
      using "1.prems" pos by (intro "1.IH") simp_all
    have b: "bitlen n = Suc (bitlen (n div 2))"
      using "1.prems" by (subst bitlen.simps) simp
    have "bitlen n - 1 = Suc (bitlen (n div 2) - 1)"
      using bitlen_pos [OF pos] b by simp
    then have "(2::nat) ^ (bitlen n - 1) = 2 * 2 ^ (bitlen (n div 2) - 1)"
      by simp
    also have "\<dots> \<le> 2 * (n div 2)"
      using ih by simp
    also have "\<dots> \<le> n"
      by simp
    finally show ?thesis .
  qed
qed

lemma bitlen_le: "m < 2 ^ k \<Longrightarrow> bitlen m \<le> k"
proof (rule ccontr)
  assume m: "m < 2 ^ k" and "\<not> bitlen m \<le> k"
  then have k: "k \<le> bitlen m - 1" and "0 < bitlen m"
    by simp_all
  then have "0 < m"
    by (cases "m = 0") simp_all
  then have "2 ^ (bitlen m - 1) \<le> m"
    by (rule bitlen_lower)
  moreover have "(2::nat) ^ k \<le> 2 ^ (bitlen m - 1)"
    using k by (intro power_increasing) simp_all
  ultimately have "2 ^ k \<le> m"
    by (rule order_trans [rotated])
  with m show False
    by simp
qed

lemma bitlen_gt: "2 ^ k \<le> m \<Longrightarrow> k < bitlen m"
proof -
  assume "2 ^ k \<le> m"
  also have "m < 2 ^ bitlen m"
    by (rule bitlen_bound)
  finally show ?thesis
    by simp
qed

lemma bitlen_eq: "2 ^ k \<le> m \<Longrightarrow> m < 2 ^ Suc k \<Longrightarrow> bitlen m = Suc k"
  using bitlen_gt [of k m] bitlen_le [of m "Suc k"] by simp

lemma decode_enc:
  assumes "n \<le> 2047 * 2 ^ 52"
  shows "d_exp (of_nat n) = n div 2 ^ 52" and "d_frac (of_nat n) = n mod 2 ^ 52"
    and "\<not> d_sign (of_nat n)"
    and "d_exp (of_nat (2 ^ 63 + n)) = n div 2 ^ 52"
    and "d_frac (of_nat (2 ^ 63 + n)) = n mod 2 ^ 52"
    and "d_sign (of_nat (2 ^ 63 + n))"
proof -
  have lt: "n < 2 ^ 64" "2 ^ 63 + n < 2 ^ 64"
    using assms by simp_all
  have e: "n div 2 ^ 52 \<le> 2047"
    using assms by (simp add: div_le_mono [of n "2047 * 2 ^ 52" "2 ^ 52", simplified])
  have u0: "unat (of_nat n :: u64) = n"
    by (rule unat_of_nat64 [OF lt(1)])
  show "d_exp (of_nat n) = n div 2 ^ 52"
    unfolding d_exp_def u0 using e by simp
  show "d_frac (of_nat n) = n mod 2 ^ 52"
    unfolding d_frac_def u0 by simp
  show "\<not> d_sign (of_nat n)"
    unfolding d_sign_def u0 using assms by simp
  have d: "(2 ^ 63 + n) div 2 ^ 52 = 2 ^ 11 + n div 2 ^ 52"
    by (simp add: div_add1_eq [of "2 ^ 63" n "2 ^ 52"])
  have m: "(2 ^ 63 + n) mod 2 ^ 52 = n mod 2 ^ 52"
    using mod_mult_self3 [of 2048 "2 ^ 52" n] by simp
  have dm: "(2 ^ 11 + n div 2 ^ 52) mod 2 ^ 11 = n div 2 ^ 52"
    using e by simp
  have u: "unat (of_nat (2 ^ 63 + n) :: u64) = 2 ^ 63 + n"
    by (rule unat_of_nat64 [OF lt(2)])
  show "d_exp (of_nat (2 ^ 63 + n)) = n div 2 ^ 52"
    unfolding d_exp_def u d dm ..
  show "d_frac (of_nat (2 ^ 63 + n)) = n mod 2 ^ 52"
    unfolding d_frac_def u m ..
  show "d_sign (of_nat (2 ^ 63 + n))"
    unfolding d_sign_def u by simp
qed

lemma decode_enc_mag:
  assumes "n \<le> 2047 * 2 ^ 52"
  shows "d_mag (of_nat n) =
           (if n div 2 ^ 52 = 0 then n mod 2 ^ 52
            else (2 ^ 52 + n mod 2 ^ 52) * 2 ^ (n div 2 ^ 52 - 1))"
    and "d_mag (of_nat (2 ^ 63 + n)) =
           (if n div 2 ^ 52 = 0 then n mod 2 ^ 52
            else (2 ^ 52 + n mod 2 ^ 52) * 2 ^ (n div 2 ^ 52 - 1))"
  unfolding d_mag_def decode_enc [OF assms] by (rule refl)+

lemma d_round_mag_exact:
  assumes "bitlen m \<le> 53 \<or> (bitlen m \<le> 2098 \<and> m mod 2 ^ (bitlen m - 53) = 0)"
  shows "d_round_mag m div 2 ^ 52 < 2047"
    and "(if d_round_mag m div 2 ^ 52 = 0 then d_round_mag m mod 2 ^ 52
          else (2 ^ 52 + d_round_mag m mod 2 ^ 52) * 2 ^ (d_round_mag m div 2 ^ 52 - 1)) = m"
proof -
  have "d_round_mag m div 2 ^ 52 < 2047
        \<and> (if d_round_mag m div 2 ^ 52 = 0 then d_round_mag m mod 2 ^ 52
          else (2 ^ 52 + d_round_mag m mod 2 ^ 52) * 2 ^ (d_round_mag m div 2 ^ 52 - 1)) = m"
  proof (cases "bitlen m \<le> 53")
    case True
    have "m < 2 ^ bitlen m"
      by (rule bitlen_bound)
    also have "(2::nat) ^ bitlen m \<le> 2 ^ 53"
      using True by (intro power_increasing) simp_all
    finally have lt: "m < 2 ^ 53" .
    have r: "d_round_mag m = m"
      using True by (simp add: d_round_mag_def)
    have d: "m div 2 ^ 52 < 2"
      using lt by (simp add: less_mult_imp_div_less)
    have s: "m = 2 ^ 52 * (m div 2 ^ 52) + m mod 2 ^ 52"
      by simp
    show ?thesis
    proof (cases "m div 2 ^ 52 = 0")
      case True
      then show ?thesis
        unfolding r by simp
    next
      case False
      with d have one: "m div 2 ^ 52 = 1"
        by simp
      have "2 ^ 52 + m mod 2 ^ 52 = m"
        using s unfolding one by simp
      then show ?thesis
        unfolding r one by simp
    qed
  next
    case False
    define sh where "sh = bitlen m - 53"
    define q where "q = m div 2 ^ sh"
    from False assms have big: "bitlen m \<le> 2098" and r0: "m mod 2 ^ sh = 0"
      by (simp_all add: sh_def)
    have sh: "0 < sh" "sh \<le> 2045" "bitlen m = 53 + sh" "bitlen m - 1 = 52 + sh"
      using False big by (simp_all add: sh_def)
    have mq: "m = q * 2 ^ sh"
      using r0 by (simp add: q_def mod_eq_0_iff_dvd)
    have "0 < bitlen m"
      using False by simp
    then have mpos: "0 < m"
      by (cases "m = 0") simp_all
    have "2 ^ (bitlen m - 1) \<le> m"
      using mpos by (rule bitlen_lower)
    then have "2 ^ 52 * 2 ^ sh \<le> q * 2 ^ sh"
      unfolding sh(4) power_add mq [symmetric] .
    then have qlo: "2 ^ 52 \<le> q"
      by simp
    have "m < 2 ^ bitlen m"
      by (rule bitlen_bound)
    then have "q * 2 ^ sh < 2 ^ 53 * 2 ^ sh"
      unfolding sh(3) power_add mq [symmetric] .
    then have qhi: "q < 2 ^ 53"
      by simp
    have half: "\<not> (0 :: nat) > 2 ^ (sh - 1)" "(0 :: nat) \<noteq> 2 ^ (sh - 1)"
      by simp_all
    have elt: "sh * 2 ^ 52 + q < 2047 * 2 ^ 52"
      using sh(2) qhi by simp
    have r: "d_round_mag m = sh * 2 ^ 52 + q"
      unfolding d_round_mag_def Let_def sh_def [symmetric] r0 q_def [symmetric]
      using False half elt by simp
    have "(sh * 2 ^ 52 + q) div 2 ^ 52 = sh + q div 2 ^ 52"
      by simp
    moreover have "q div 2 ^ 52 = 1"
      using qlo qhi by (intro div_nat_eqI) simp_all
    ultimately have dv: "(sh * 2 ^ 52 + q) div 2 ^ 52 = sh + 1"
      by simp
    have "(sh * 2 ^ 52 + q) mod 2 ^ 52 = q mod 2 ^ 52"
      by simp
    moreover have "q mod 2 ^ 52 = q - 2 ^ 52"
    proof -
      have "q mod 2 ^ 52 = (q - 2 ^ 52) mod 2 ^ 52"
        using qlo by (rule le_mod_geq)
      also have "\<dots> = q - 2 ^ 52"
        using qhi by simp
      finally show ?thesis .
    qed
    ultimately have md: "(sh * 2 ^ 52 + q) mod 2 ^ 52 = q - 2 ^ 52"
      by simp
    have "2 ^ 52 + (q - 2 ^ 52) = q"
      using qlo by simp
    then show ?thesis
      unfolding r dv md using sh(2) mq by simp
  qed
  then show "d_round_mag m div 2 ^ 52 < 2047"
    and "(if d_round_mag m div 2 ^ 52 = 0 then d_round_mag m mod 2 ^ 52
          else (2 ^ 52 + d_round_mag m mod 2 ^ 52) * 2 ^ (d_round_mag m div 2 ^ 52 - 1)) = m"
    by simp_all
qed

lemma d_frac_alt: "d_frac d = unat (take_bit 52 d)"
  by (subst unsigned_take_bit_eq) (simp add: d_frac_def take_bit_eq_mod)

lemma d_exp_alt: "d_exp d = unat (take_bit 11 (drop_bit 52 d))"
proof -
  have "unat d < 2 ^ 64"
    using unsigned_less [of d] by simp
  then have "unat d mod 2 ^ 64 = unat d"
    by simp
  then show ?thesis
    by (subst unsigned_take_bit_eq, subst unsigned_drop_bit_eq)
      (simp add: d_exp_def take_bit_eq_mod drop_bit_eq_div)
qed

lemma d_sign_alt: "d_sign d = bit d 63"
proof -
  have "unat d < 2 ^ 64"
    using unsigned_less [of d] by simp
  then have "unat d div 2 ^ 63 < 2"
    by (simp add: less_mult_imp_div_less)
  moreover have "bit (unat d) 63 = bit d 63"
    by (simp add: bit_unsigned_iff)
  then have "bit d 63 = odd (unat d div 2 ^ 63)"
    by (simp only: bit_iff_odd)
  moreover have "2 ^ 63 \<le> unat d \<longleftrightarrow> unat d div 2 ^ 63 \<noteq> 0"
    by (auto simp: div_eq_0_iff)
  ultimately show ?thesis
    unfolding d_sign_def by (cases "unat d div 2 ^ 63 = 0") auto
qed

lemma sign_bit: "(0x8000000000000000 :: u64) = push_bit 63 1"
  by simp

lemma d_neg_fields:
  "d_frac (d_neg d) = d_frac d" "d_exp (d_neg d) = d_exp d" "d_sign (d_neg d) = (\<not> d_sign d)"
proof -
  have "take_bit 52 (d_neg d) = take_bit 52 d"
    unfolding d_neg_def sign_bit by (rule bit_word_eqI) (auto simp: bit_simps)
  then show "d_frac (d_neg d) = d_frac d"
    by (simp add: d_frac_alt)
  have "take_bit 11 (drop_bit 52 (d_neg d)) = take_bit 11 (drop_bit 52 d)"
    unfolding d_neg_def sign_bit by (rule bit_word_eqI) (auto simp: bit_simps)
  then show "d_exp (d_neg d) = d_exp d"
    by (simp add: d_exp_alt)
  show "d_sign (d_neg d) = (\<not> d_sign d)"
    unfolding d_sign_alt d_neg_def sign_bit by (simp add: bit_simps)
qed

lemma d_neg_val: "d_mag (d_neg d) = d_mag d" "d_val (d_neg d) = - d_val d"
  "d_finite (d_neg d) = d_finite d" "d_isnan (d_neg d) = d_isnan d"
  by (simp_all add: d_mag_def d_val_def d_finite_def d_isnan_def d_neg_fields)

lemma d_zero_fields: "\<not> d_isnan 0" "d_val 0 = 0" "d_finite 0"
  "\<not> d_isnan (of_nat (2 ^ 63))" "d_val (of_nat (2 ^ 63)) = 0" "d_finite (of_nat (2 ^ 63))"
  by (simp_all add: d_isnan_def d_exp_def d_frac_def d_val_def d_mag_def d_sign_def d_finite_def)

lemma d_of_sum_exact:
  assumes "d_representable v"
  shows "d_finite (d_of_sum b v)" and "d_val (d_of_sum b v) = v"
proof -
  define m where "m = nat \<bar>v\<bar>"
  have rep: "bitlen m \<le> 53 \<or> (bitlen m \<le> 2098 \<and> m mod 2 ^ (bitlen m - 53) = 0)"
    using assms by (simp add: d_representable_def Let_def m_def)
  note le = d_round_mag_le [of m]
  note ex = d_round_mag_exact [OF rep]
  have fin: "d_finite (of_nat (d_round_mag m))" "d_finite (of_nat (2 ^ 63 + d_round_mag m))"
    unfolding d_finite_def decode_enc [OF le] using ex(1) by simp_all
  have mag: "d_mag (of_nat (d_round_mag m)) = m" "d_mag (of_nat (2 ^ 63 + d_round_mag m)) = m"
    unfolding decode_enc_mag [OF le] using ex(2) by simp_all
  have val: "d_val (of_nat (d_round_mag m)) = int m"
    "d_val (of_nat (2 ^ 63 + d_round_mag m)) = - int m"
    unfolding d_val_def mag using decode_enc(3,6) [OF le] by simp_all
  have "d_finite (d_of_sum b v) \<and> d_val (d_of_sum b v) = v"
  proof (cases "v = 0")
    case True
    then show ?thesis
      using d_zero_fields by (simp add: d_of_sum_def)
  next
    case False
    show ?thesis
    proof (cases "v < 0")
      case True
      then have "nat (- v) = m" "- int m = v"
        by (simp_all add: m_def)
      then show ?thesis
        using True False fin(2) val(2) by (simp add: d_of_sum_def)
    next
      case pos: False
      with False have "nat v = m" "int m = v"
        by (simp_all add: m_def)
      then show ?thesis
        using pos False fin(1) val(1) by (simp add: d_of_sum_def)
    qed
  qed
  then show "d_finite (d_of_sum b v)" and "d_val (d_of_sum b v) = v"
    by simp_all
qed

lemma d_fields_bounds: "d_exp d < 2048" "d_frac d < 2 ^ 52"
  by (simp_all add: d_exp_def d_frac_def)

lemma d_val_mag: "nat \<bar>d_val d\<bar> = d_mag d"
  by (simp add: d_val_def)

lemma d_finite_representable:
  assumes "d_finite d"
  shows "d_representable (d_val d)"
proof -
  define e where "e = d_exp d"
  define f where "f = d_frac d"
  have e: "e \<le> 2046"
    using assms d_fields_bounds(1) [of d] by (simp add: d_finite_def e_def)
  have f: "f < 2 ^ 52"
    using d_fields_bounds(2) [of d] by (simp add: f_def)
  have "bitlen (d_mag d) \<le> 53
        \<or> (bitlen (d_mag d) \<le> 2098 \<and> d_mag d mod 2 ^ (bitlen (d_mag d) - 53) = 0)"
  proof (cases "e = 0")
    case True
    then have "d_mag d = f"
      by (simp add: d_mag_def e_def f_def)
    moreover have "bitlen f \<le> 52"
      using f by (rule bitlen_le)
    ultimately show ?thesis
      by simp
  next
    case False
    define M where "M = 2 ^ 52 + f"
    have m: "d_mag d = M * 2 ^ (e - 1)"
      using False by (simp add: d_mag_def e_def f_def M_def)
    have "2 ^ 52 \<le> M" "M < 2 ^ Suc 52"
      using f by (simp_all add: M_def)
    then have bM: "bitlen M = 53"
      using bitlen_eq [of 52 M] by simp
    have "0 < M"
      by (simp add: M_def)
    then have b: "bitlen (d_mag d) = 53 + (e - 1)"
      unfolding m by (simp add: bitlen_scaled bM)
    have z: "d_mag d mod 2 ^ (e - 1) = 0"
      unfolding m by simp
    have "e - 1 \<le> 2045"
      using e by arith
    with z show ?thesis
      unfolding b by simp
  qed
  then show ?thesis
    by (simp add: d_representable_def Let_def d_val_mag)
qed

lemma d_representable_iff: "d_representable v \<longleftrightarrow> (\<exists>d. d_finite d \<and> d_val d = v)"
  using d_of_sum_exact [of v False] d_finite_representable by blast

lemma d_mag_finite: "d_finite d \<Longrightarrow> d_mag d < 2 ^ 2098"
proof -
  assume "d_finite d"
  then have "d_representable (d_val d)"
    by (rule d_finite_representable)
  then have "bitlen (d_mag d) \<le> 2098"
    by (auto simp: d_representable_def Let_def d_val_mag)
  then have "(2::nat) ^ bitlen (d_mag d) \<le> 2 ^ 2098"
    by (intro power_increasing) simp_all
  with bitlen_bound [of "d_mag d"] show ?thesis
    by (rule less_le_trans)
qed

lemma d_mag_infinite: "\<not> d_finite d \<Longrightarrow> 2 ^ 2098 \<le> d_mag d"
proof -
  assume "\<not> d_finite d"
  then have e: "d_exp d = 2047"
    by (simp add: d_finite_def)
  have "(2::nat) ^ 2098 = 2 ^ 52 * 2 ^ 2046"
    by (simp flip: power_add)
  also have "\<dots> \<le> (2 ^ 52 + d_frac d) * 2 ^ 2046"
    by (intro mult_le_mono1) simp
  finally show ?thesis
    by (simp add: d_mag_def e)
qed

lemma amount_within_finite:
  assumes "d_finite bal" and "d_greater amount d_zero" and "\<not> d_less bal amount"
  shows "d_finite amount"
proof (rule ccontr)
  assume inf: "\<not> d_finite amount"
  from assms(2) have nn: "\<not> d_isnan amount" and pos: "0 < d_val amount"
    by (simp_all add: d_greater_def d_less_def d_zero_def d_zero_fields)
  from pos have v: "d_val amount = int (d_mag amount)"
    by (simp add: d_val_def split: if_splits)
  have "\<not> d_isnan bal"
    using assms(1) by (rule d_finite_not_nan)
  with assms(3) nn have "d_val amount \<le> d_val bal"
    by (simp add: d_less_def)
  also have "d_val bal \<le> int (d_mag bal)"
    by (simp add: d_val_def)
  also have "\<dots> < int (d_mag amount)"
    using d_mag_finite [OF assms(1)] d_mag_infinite [OF inf] by simp
  finally show False
    using v by simp
qed

lemma d_sub_finite:
  assumes "d_finite a" and "d_finite b"
  shows "d_sub a b = d_of_sum (d_sign a \<and> \<not> d_sign b) (d_val a - d_val b)"
  using assms
  by (simp add: d_sub_def d_finite_not_nan d_add_finite d_neg_val d_neg_fields)

lemma transfer_ok_checks:
  assumes "transfer bk nm fromAccNo pw toAccNo c amount = (bk', Inr (fromBal, toBal))"
    and "accounts bk fromAccNo = Some from"
  shows "d_greater amount d_zero" and "\<not> d_less (balance from) amount"
  using assms by (auto simp: transfer_def Let_def split: if_splits option.splits)

subsection \<open>Conservation under TRANSFER\<close>

text \<open>
  Claim C6, as amended. A successful TRANSFER stores \<open>from.balance - amount\<close> and
  \<open>to.balance + amount\<close>, each rounded on its own. When the two balances before are finite
  and the exact difference and the exact sum are values of finite doubles, neither update
  rounds: the new balances are finite, they have exactly the value of the old ones minus,
  respectively plus, the amount, and the sum of the two balances after the operation
  equals (\<open>==\<close> on doubles) the sum before.
\<close>

theorem transfer_conserves_when_exact:
  assumes "transfer bk nm fromAccNo pw toAccNo c amount = (bk', Inr (fromBal, toBal))"
    and "accounts bk fromAccNo = Some from" and "accounts bk toAccNo = Some to"
    and "d_finite (balance from)" and "d_finite (balance to)"
    and "d_representable (d_val (balance from) - d_val amount)"
    and "d_representable (d_val (balance to) + d_val amount)"
  shows "map_option balance (accounts bk' fromAccNo) = Some fromBal
         \<and> map_option balance (accounts bk' toAccNo) = Some toBal
         \<and> fromBal = d_sub (balance from) amount \<and> toBal = d_add (balance to) amount
         \<and> d_finite fromBal \<and> d_finite toBal
         \<and> d_val fromBal = d_val (balance from) - d_val amount
         \<and> d_val toBal = d_val (balance to) + d_val amount
         \<and> d_eq (d_add fromBal toBal) (d_add (balance from) (balance to))"
proof -
  note ok = transfer_ok [OF assms(1-3)]
  have fa: "d_finite amount"
    using assms(4) transfer_ok_checks [OF assms(1,2)] by (rule amount_within_finite)
  have s: "fromBal = d_of_sum (d_sign (balance from) \<and> \<not> d_sign amount)
                       (d_val (balance from) - d_val amount)"
    unfolding ok(1) using assms(4) fa by (rule d_sub_finite)
  have a: "toBal = d_of_sum (d_sign (balance to) \<and> d_sign amount)
                     (d_val (balance to) + d_val amount)"
    unfolding ok(2) using assms(5) fa by (rule d_add_finite)
  have f: "d_finite fromBal" "d_val fromBal = d_val (balance from) - d_val amount"
    unfolding s using assms(6) by (rule d_of_sum_exact)+
  have t: "d_finite toBal" "d_val toBal = d_val (balance to) + d_val amount"
    unfolding a using assms(7) by (rule d_of_sum_exact)+
  have "d_val fromBal + d_val toBal = d_val (balance from) + d_val (balance to)"
    using f(2) t(2) by simp
  then have "d_eq (d_add fromBal toBal) (d_add (balance from) (balance to))"
    using assms(4,5) f(1) t(1) by (intro d_add_same_sum)
  then show ?thesis
    using ok f t by simp
qed

text \<open>
  The transfer of the specification's scenario: balances 200.0 and 0.0, amount 75.0, new
  balances 125.0 and 75.0.
\<close>

lemma d_sub_200_75: "d_sub 0x4069000000000000 0x4052C00000000000 = 0x405F400000000000"
proof -
  have r: "d_round_mag ((125 * 2 ^ 46) * 2 ^ 1028) = 0x405F400000000000"
    using d_round_mag_scaled_exact [of "125 * 2 ^ 46" 1028] by (simp add: Let_def)
  show ?thesis
    using r by (simp add: d_eval)
qed

lemma d_add_0_75: "d_add 0 0x4052C00000000000 = 0x4052C00000000000"
proof -
  have r: "d_round_mag ((75 * 2 ^ 46) * 2 ^ 1028) = 0x4052C00000000000"
    using d_round_mag_scaled_exact [of "75 * 2 ^ 46" 1028] by (simp add: Let_def)
  show ?thesis
    using r by (simp add: d_eval)
qed

lemma scenario_transfer:
  "transfer \<lparr>nextAccNo = 10003,
        accounts = [10001 \<mapsto> \<lparr>accountNo = 10001, name = [97], password = [112], currency = 0,
                               balance = 0x4069000000000000, closed = False\<rparr>,
                    10002 \<mapsto> \<lparr>accountNo = 10002, name = [98], password = [113], currency = 0,
                               balance = 0, closed = False\<rparr>]\<rparr>
      [97] 10001 [112] 10002 0 0x4052C00000000000
   = (\<lparr>nextAccNo = 10003,
        accounts = [10001 \<mapsto> \<lparr>accountNo = 10001, name = [97], password = [112], currency = 0,
                               balance = 0x405F400000000000, closed = False\<rparr>,
                    10002 \<mapsto> \<lparr>accountNo = 10002, name = [98], password = [113], currency = 0,
                               balance = 0x4052C00000000000, closed = False\<rparr>]\<rparr>,
      Inr (0x405F400000000000, 0x4052C00000000000))"
proof -
  have g: "d_greater 0x4052C00000000000 d_zero"
    by (simp add: d_greater_def d_less_def d_isnan_def d_exp_def d_frac_def d_val_def
        d_sign_def d_mag_def d_zero_def)
  have l: "\<not> d_less 0x4069000000000000 0x4052C00000000000"
    by (simp add: d_less_def d_isnan_def d_exp_def d_frac_def d_val_def d_sign_def d_mag_def)
  show ?thesis
    by (simp add: transfer_def authMatch_def g l d_sub_200_75 d_add_0_75 Let_def fun_upd_twist)
qed

theorem transfer_conserves_when_exact_witness:
  "(let bk = fst (openAccount (fst (openAccount Bank_init [97] [112] 0 0x4069000000000000))
                   [98] [113] 0 0);
        from = \<lparr>accountNo = 10001, name = [97], password = [112], currency = 0,
                 balance = 0x4069000000000000, closed = False\<rparr>;
        to = \<lparr>accountNo = 10002, name = [98], password = [113], currency = 0,
               balance = 0, closed = False\<rparr>;
        amount = 0x4052C00000000000;
        fromBal = 0x405F400000000000;
        toBal = 0x4052C00000000000
    in snd (transfer bk [97] 10001 [112] 10002 0 amount) = Inr (fromBal, toBal)
       \<and> accounts bk 10001 = Some from \<and> accounts bk 10002 = Some to
       \<and> d_finite (balance from) \<and> d_finite (balance to)
       \<and> d_representable (d_val (balance from) - d_val amount)
       \<and> d_representable (d_val (balance to) + d_val amount)
       \<and> d_val fromBal = d_val (balance from) - d_val amount
       \<and> d_val toBal = d_val (balance to) + d_val amount
       \<and> d_eq (d_add fromBal toBal) (d_add (balance from) (balance to)))"
proof -
  define bk where "bk = fst (openAccount (fst (openAccount Bank_init [97] [112] 0
      0x4069000000000000)) [98] [113] 0 0)"
  define "from" where "from = \<lparr>accountNo = 10001, name = [97], password = [112], currency = 0,
                 balance = 0x4069000000000000, closed = False\<rparr>"
  define to where "to = \<lparr>accountNo = 10002, name = [98], password = [113], currency = 0,
               balance = 0, closed = False\<rparr>"
  obtain bk' where t: "transfer bk [97] 10001 [112] 10002 0 0x4052C00000000000
      = (bk', Inr (0x405F400000000000, 0x4052C00000000000))"
    unfolding bk_def scenario_bank by (simp add: scenario_transfer)
  have a: "accounts bk 10001 = Some from" "accounts bk 10002 = Some to"
    unfolding bk_def scenario_bank by (simp_all add: from_def to_def)
  have f: "d_finite (balance from)" "d_finite (balance to)"
    by (simp_all add: d_finite_def d_exp_def from_def to_def)
  have fin: "d_finite 0x405F400000000000" "d_finite 0x4052C00000000000"
    by (simp_all add: d_finite_def d_exp_def)
  have v: "d_val (balance from) - d_val 0x4052C00000000000 = d_val 0x405F400000000000"
    "d_val (balance to) + d_val 0x4052C00000000000 = d_val 0x4052C00000000000"
    by (simp_all add: d_val_def d_mag_def d_exp_def d_frac_def d_sign_def from_def to_def)
  have r1: "d_representable (d_val (balance from) - d_val 0x4052C00000000000)"
    unfolding v(1) using fin(1) by (rule d_finite_representable)
  have r2: "d_representable (d_val (balance to) + d_val 0x4052C00000000000)"
    unfolding v(2) using fin(2) by (rule d_finite_representable)
  note r = r1 r2
  note c = transfer_conserves_when_exact [OF t a f r]
  have c1: "d_val 0x405F400000000000 = d_val (balance from) - d_val 0x4052C00000000000"
    using c by simp
  have c2: "d_val 0x4052C00000000000 = d_val (balance to) + d_val 0x4052C00000000000"
    using c by simp
  have c3: "d_eq (d_add 0x405F400000000000 0x4052C00000000000)
              (d_add (balance from) (balance to))"
    using c by simp
  have t': "snd (transfer bk [97] 10001 [112] 10002 0 0x4052C00000000000)
      = Inr (0x405F400000000000, 0x4052C00000000000)"
    using t by simp
  from t' a f r c1 c2 c3 show ?thesis
    unfolding Let_def bk_def [symmetric] from_def [symmetric] to_def [symmetric]
    by (intro conjI)
qed

text \<open>
  Claim C6 as stated fails. With balances 2.0 and \<open>2 ^ 53\<close> and amount 1.0 the transfer
  succeeds; the credit \<open>2 ^ 53 + 1\<close> is not a double and rounds to \<open>2 ^ 53\<close>. The balances
  after are 1.0 and \<open>2 ^ 53\<close>, whose sum is \<open>2 ^ 53\<close>; the sum before was \<open>2 ^ 53 + 2\<close>.
\<close>

lemma d_sub_2_1: "d_sub 0x4000000000000000 0x3FF0000000000000 = 0x3FF0000000000000"
proof -
  have r: "d_round_mag (2 ^ 52 * 2 ^ 1022) = 0x3FF0000000000000"
    using d_round_mag_scaled_exact [of "2 ^ 52" 1022] by (simp add: Let_def)
  show ?thesis
    using r by (simp add: d_eval)
qed

lemma d_add_2p53_1:
  "d_add 0x4340000000000000 0x3FF0000000000000 = 0x4340000000000000"
  "d_add 0x3FF0000000000000 0x4340000000000000 = 0x4340000000000000"
proof -
  have r: "d_round_mag ((2 ^ 105 + 2 ^ 52) * 2 ^ 1022) = 0x4340000000000000"
    using d_round_mag_scaled_round [of "2 ^ 105 + 2 ^ 52" 1022] by (simp add: Let_def)
  show "d_add 0x4340000000000000 0x3FF0000000000000 = 0x4340000000000000"
    using r by (simp add: d_eval)
  show "d_add 0x3FF0000000000000 0x4340000000000000 = 0x4340000000000000"
    using r by (simp add: d_eval)
qed

lemma d_add_2_2p53: "d_add 0x4000000000000000 0x4340000000000000 = 0x4340000000000001"
proof -
  have r: "d_round_mag ((2 ^ 105 + 2 ^ 53) * 2 ^ 1022) = 0x4340000000000001"
    using d_round_mag_scaled_round [of "2 ^ 105 + 2 ^ 53" 1022] by (simp add: Let_def)
  show ?thesis
    using r by (simp add: d_eval)
qed

theorem transfer_rounding_counterexample:
  "(let bk = fst (openAccount (fst (openAccount Bank_init [97] [112] 0 0x4000000000000000))
                   [98] [113] 0 0x4340000000000000);
        r = transfer bk [97] 10001 [112] 10002 0 0x3FF0000000000000
    in map_option balance (accounts bk 10001) = Some 0x4000000000000000
       \<and> map_option balance (accounts bk 10002) = Some 0x4340000000000000
       \<and> snd r = Inr (0x3FF0000000000000, 0x4340000000000000)
       \<and> map_option balance (accounts (fst r) 10001) = Some 0x3FF0000000000000
       \<and> map_option balance (accounts (fst r) 10002) = Some 0x4340000000000000
       \<and> \<not> d_eq (d_add 0x3FF0000000000000 0x4340000000000000)
                 (d_add 0x4000000000000000 0x4340000000000000))"
proof -
  have g: "d_greater 0x3FF0000000000000 d_zero"
    by (simp add: d_greater_def d_less_def d_isnan_def d_exp_def d_frac_def d_val_def
        d_sign_def d_mag_def d_zero_def)
  have l: "\<not> d_less 0x4000000000000000 0x3FF0000000000000"
    by (simp add: d_less_def d_isnan_def d_exp_def d_frac_def d_val_def d_sign_def d_mag_def)
  have ne: "\<not> d_eq 0x4340000000000000 0x4340000000000001"
    by (simp add: d_eq_def d_isnan_def d_exp_def d_frac_def d_val_def d_sign_def d_mag_def)
  show ?thesis
    by (simp add: openAccount_def Bank_init_def transfer_def authMatch_def g l d_sub_2_1
        d_add_2p53_1 d_add_2_2p53 ne Let_def)
qed

text \<open>
  In that transfer the exact credit \<open>2 ^ 53 + 1\<close> is not the value of a double, which is
  the condition of the amended claim that fails.
\<close>

lemma not_representable_odd_scaled:
  assumes "odd M" and "53 < bitlen M"
  shows "\<not> d_representable (int (M * 2 ^ e))"
proof -
  have pos: "0 < M"
    using assms(1) by (cases "M = 0") simp_all
  have b: "bitlen (M * 2 ^ e) = bitlen M + e"
    using pos by (rule bitlen_scaled)
  define j where "j = bitlen M - 54"
  have j: "bitlen M + e - 53 = Suc e + j"
    using assms(2) unfolding j_def by arith
  have "\<not> 2 ^ (Suc e + j) dvd M * 2 ^ e"
  proof
    assume "2 ^ (Suc e + j) dvd M * 2 ^ e"
    then have "2 ^ Suc e dvd M * 2 ^ e"
      unfolding power_add by (rule dvd_mult_left)
    then have "2 * 2 ^ e dvd M * 2 ^ e"
      by (simp add: mult.commute)
    then have "2 dvd M"
      by simp
    with assms(1) show False
      by simp
  qed
  then have "(M * 2 ^ e) mod 2 ^ (bitlen M + e - 53) \<noteq> 0"
    unfolding j by (simp only: mod_eq_0_iff_dvd not_False_eq_True)
  then show ?thesis
    using assms(2) unfolding d_representable_def Let_def
    by (simp only: nat_int abs_of_nat b) simp
qed

lemma not_representable_2p53_1:
  "\<not> d_representable (d_val 0x4340000000000000 + d_val 0x3FF0000000000000)"
proof -
  have v: "d_val 0x4340000000000000 + d_val 0x3FF0000000000000
      = int ((2 ^ 53 + 1) * 2 ^ 1074)"
    by (simp add: d_val_def d_mag_def d_exp_def d_frac_def d_sign_def)
  have "53 < bitlen (2 ^ 53 + 1)"
    by (rule bitlen_gt) simp
  moreover have "odd ((2::nat) ^ 53 + 1)"
    by simp
  ultimately show ?thesis
    unfolding v by (intro not_representable_odd_scaled)
qed

end
